(* ===== verification/Prelude.thy ===== *)
theory Prelude
  imports Main "HOL-Library.Multiset" "HOL-Library.AList"
begin

text \<open>
  Shared material of the development: the error values of the Go code, the shape of an
  effectful Go computation, the scheduling of goroutine groups (\<open>golang.org/x/sync/errgroup\<close>),
  Go maps as association lists, and decimal printing (\<open>fmt.Sprintf "%d"\<close>).

  \<^item> A computation that talks to a messaging component is a function from the world to
    \<open>Some (result, world)\<close>; \<open>None\<close> is a run-time panic (nil dereference, failed type
    assertion, index out of range, write to a nil map), which ends the process.
  \<^item> A Go error return is a value of \<open>error option\<close>, or of \<open>error + 'a\<close> when a
    value is returned beside it.
  \<^item> A Go map that the code ranges over is an association list with distinct keys. The order
    of the list is the order in which \<open>range\<close> visits the entries; since Go leaves that
    order open, statements are made for every such list.
\<close>

named_theorems prog_simps "unfolding of the effect combinators"
named_theorems group_simps "facts on the results of goroutine groups"

section \<open>Error values\<close>

text \<open>
  The sentinel errors of \<open>pkg/state/errors\<close> and \<open>pkg/amqpcommand\<close>, the typed errors of
  \<open>pkg/util/errors\<close>, the answer of the Kubernetes API for a resource that does not exist, and every
  other error by its message (\<open>fmt.Errorf\<close>).
\<close>

datatype error =
    BrokerInUseError
  | ProjectNotFoundError
  | NotInitializedError
  | NotSyncedError
  | NoEndpointsError
  | NotDeletedError
  | RequestTimeoutError
  | NotFoundError string string string
  | NotBoundError string
  | StatusNotFound string
  | Errorf string

fun error_string :: "error \<Rightarrow> string" where
  "error_string BrokerInUseError = ''broker in use''"
| "error_string ProjectNotFoundError = ''project not found''"
| "error_string NotInitializedError = ''not initialized''"
| "error_string NotSyncedError = ''not synchronized''"
| "error_string NoEndpointsError = ''no endpoints''"
| "error_string NotDeletedError = ''error deleting''"
| "error_string RequestTimeoutError = ''request timed out''"
| "error_string (NotFoundError kind name namespace) = kind @ '' '' @ name @ '' in namespace '' @ namespace @ '' not found''"
| "error_string (NotBoundError namespace) = ''MessagingProject in namespace '' @ namespace @ '' not bound to any infrastructure''"
| "error_string (StatusNotFound s) = s"
| "error_string (Errorf s) = s"

section \<open>Effectful computations\<close>

type_synonym ('w, 'a) prog = "'w \<Rightarrow> ('a \<times> 'w) option"

definition ret :: "'a \<Rightarrow> ('w, 'a) prog" where
  "ret a = (\<lambda>w. Some (a, w))"

definition panic :: "('w, 'a) prog" where
  "panic = (\<lambda>_. None)"

definition bindp :: "('w, 'a) prog \<Rightarrow> ('a \<Rightarrow> ('w, 'b) prog) \<Rightarrow> ('w, 'b) prog" where
  "bindp m f = (\<lambda>w. case m w of None \<Rightarrow> None | Some (a, w') \<Rightarrow> f a w')"

text \<open>Sequencing that returns at the first error, as \<open>if err != nil { return err }\<close> does.\<close>

definition bindE :: "('w, error + 'a) prog \<Rightarrow> ('a \<Rightarrow> ('w, error + 'b) prog) \<Rightarrow> ('w, error + 'b) prog" where
  "bindE m f = bindp m (\<lambda>r. case r of Inl e \<Rightarrow> ret (Inl e) | Inr a \<Rightarrow> f a)"

definition liftO :: "'a option \<Rightarrow> ('w, 'a) prog" where
  "liftO x = (case x of None \<Rightarrow> panic | Some a \<Rightarrow> ret a)"

lemma ret_apply [simp, prog_simps]: "ret a w = Some (a, w)"
  by (simp add: ret_def)

lemma panic_apply [simp, prog_simps]: "panic w = None"
  by (simp add: panic_def)

lemma bindp_eq_Some [prog_simps]:
  "bindp m f w = Some r \<longleftrightarrow> (\<exists>a w'. m w = Some (a, w') \<and> f a w' = Some r)"
  by (auto simp: bindp_def split: option.splits)

lemma bindp_eq_None [prog_simps]:
  "bindp m f w = None \<longleftrightarrow> m w = None \<or> (\<exists>a w'. m w = Some (a, w') \<and> f a w' = None)"
  by (auto simp: bindp_def split: option.splits)

lemma bindE_eq_Inr [prog_simps]:
  "bindE m f w = Some (Inr b, w') \<longleftrightarrow> (\<exists>a w1. m w = Some (Inr a, w1) \<and> f a w1 = Some (Inr b, w'))"
  by (auto simp: bindE_def bindp_def split: option.splits sum.splits)

lemma liftO_eq_Some [prog_simps]: "liftO x w = Some (a, w') \<longleftrightarrow> x = Some a \<and> w' = w"
  by (auto simp: liftO_def split: option.splits)

lemma prog_returns: "x \<noteq> None \<Longrightarrow> \<exists>a w'. x = Some (a, w')"
  by auto

lemma prog_returns2: "x \<noteq> None \<Longrightarrow> \<exists>a b w'. x = Some ((a, b), w')"
  by auto

lemma bindp_run: "m w = Some (a, w') \<Longrightarrow> bindp m f w = f a w'"
  by (simp add: bindp_def)

lemma bindp_ret [simp]: "bindp (ret a) f = f a"
  by (rule ext) (simp add: bindp_def)

lemma bindp_ret_right [simp]: "bindp m ret = m"
  by (rule ext) (simp add: bindp_def ret_def split: option.splits)

lemma bindp_assoc: "bindp (bindp m f) g = bindp m (\<lambda>a. bindp (f a) g)"
  by (rule ext) (simp add: bindp_def split: option.splits prod.splits)

section \<open>Goroutine groups\<close>

text \<open>
  \<open>errgroup\<close>: \<open>g.Go\<close> starts one goroutine per task and \<open>g.Wait\<close> waits for all of
  them, then returns the first error in time. No task is skipped when another fails. The tasks
  of a group here each make their requests through one management client, so a run of the group
  is a run of its tasks one after the other in some order. That order is not fixed: it is
  picked by a scheduler, a function of the world and of the number of tasks. \<open>schedule\<close>
  reads the pick as a permutation and falls back on the list order when it is none, so every
  scheduler is a legal one and no law has to be assumed.
\<close>

type_synonym 'w sched = "'w \<Rightarrow> nat \<Rightarrow> nat list"

definition schedule :: "nat list \<Rightarrow> 'a list \<Rightarrow> 'a list" where
  "schedule p xs = (if sort p = [0..<length xs] then map ((!) xs) p else xs)"

lemma mset_schedule [simp]: "mset (schedule p xs) = mset xs"
proof (cases "sort p = [0..<length xs]")
  case True
  have "mset (map ((!) xs) p) = image_mset ((!) xs) (mset (sort p))" by simp
  also have "\<dots> = mset (map ((!) xs) [0..<length xs])" using True by (simp only: mset_map)
  also have "\<dots> = mset xs" by (simp add: map_nth)
  finally show ?thesis using True by (simp add: schedule_def)
qed (simp add: schedule_def)

lemma set_schedule [simp]: "set (schedule p xs) = set xs"
  by (metis mset_schedule set_mset_mset)

lemma schedule_Nil [simp]: "schedule p [] = []"
  by (metis mset_schedule mset_zero_iff)

lemma schedule_single [simp]: "schedule p [x] = [x]"
  using mset_schedule [of p "[x]"] by (simp del: mset_schedule)

fun run_tasks :: "('a \<Rightarrow> ('w, 'r) prog) \<Rightarrow> 'a list \<Rightarrow> ('w, ('a \<times> 'r) list) prog" where
  "run_tasks f [] = ret []"
| "run_tasks f (x # xs) =
     bindp (f x) (\<lambda>r. bindp (run_tasks f xs) (\<lambda>rs. ret ((x, r) # rs)))"

definition go_group ::
  "'w sched \<Rightarrow> ('a \<Rightarrow> ('w, 'r) prog) \<Rightarrow> 'a list \<Rightarrow> ('w, ('a \<times> 'r) list) prog" where
  "go_group sched f xs = (\<lambda>w. run_tasks f (schedule (sched w (length xs)) xs) w)"

text \<open>What \<open>g.Wait\<close> returns, and what the tasks pushed to the \<open>completed\<close> channel.\<close>

fun first_err :: "('a \<times> error option) list \<Rightarrow> error option" where
  "first_err [] = None"
| "first_err ((x, e) # rs) = (case e of None \<Rightarrow> first_err rs | Some err \<Rightarrow> Some err)"

definition completed :: "('a \<times> error option) list \<Rightarrow> 'a list" where
  "completed rs = map fst (filter (\<lambda>(x, e). e = None) rs)"

lemma run_tasks_fst: "run_tasks f xs w = Some (rs, w') \<Longrightarrow> map fst rs = xs"
  by (induction xs arbitrary: w w' rs) (auto simp: prog_simps)

lemma go_group_mset [group_simps]:
  "go_group sched f xs w = Some (rs, w') \<Longrightarrow> mset (map fst rs) = mset xs"
  unfolding go_group_def by (metis mset_schedule run_tasks_fst)

lemma go_group_Nil [simp]: "go_group sched f [] = ret []"
  by (rule ext) (simp add: go_group_def)

lemma first_err_None_iff [group_simps]: "first_err rs = None \<longleftrightarrow> (\<forall>r \<in> set rs. snd r = None)"
  by (induction rs rule: first_err.induct) (auto split: option.splits)

lemma set_completed [group_simps]: "set (completed rs) = {x. (x, None) \<in> set rs}"
  by (force simp: completed_def)

lemma completed_subset: "set (completed rs) \<subseteq> set (map fst rs)"
  by (auto simp: completed_def)

lemma completed_all: "first_err rs = None \<Longrightarrow> completed rs = map fst rs"
  by (induction rs rule: first_err.induct) (auto simp: completed_def split: option.splits)

lemma completed_mset_subset: "mset (completed rs) \<subseteq># mset (map fst rs)"
  by (simp add: completed_def image_mset_subseteq_mono multiset_filter_subset)

lemma go_group_set:
  assumes "go_group sched f xs w = Some (rs, w')"
  shows "fst ` set rs = set xs"
proof -
  from go_group_mset [OF assms] have "set_mset (mset (map fst rs)) = set_mset (mset xs)" by simp
  then show ?thesis by simp
qed

text \<open>
  The loop shared by the entity managers: run the tasks selected for each order in turn, stop
  after the first order in which a task failed, and return the error with everything that was
  completed so far.
\<close>

fun run_orders ::
  "'w sched \<Rightarrow> ('a \<Rightarrow> ('w, error option) prog) \<Rightarrow> (nat \<Rightarrow> 'a \<Rightarrow> bool) \<Rightarrow> nat list \<Rightarrow> 'a list
    \<Rightarrow> ('w, error option \<times> 'a list) prog" where
  "run_orders sched task sel [] xs = ret (None, [])"
| "run_orders sched task sel (n # ns) xs =
     bindp (go_group sched task (filter (sel n) xs)) (\<lambda>rs.
       if first_err rs \<noteq> None then ret (first_err rs, completed rs)
       else bindp (run_orders sched task sel ns xs) (\<lambda>(err, fin).
         ret (err, completed rs @ fin)))"

lemma run_orders_subset:
  "run_orders sched task sel ns xs w = Some ((err, fin), w') \<Longrightarrow>
     set fin \<subseteq> {x \<in> set xs. \<exists>n \<in> set ns. sel n x}"
proof (induction ns arbitrary: w err fin w')
  case (Cons n ns)
  from Cons.prems obtain rs w1 where
    g: "go_group sched task (filter (sel n) xs) w = Some (rs, w1)" and
    k: "(if first_err rs \<noteq> None then ret (first_err rs, completed rs)
         else bindp (run_orders sched task sel ns xs) (\<lambda>(err, fin).
           ret (err, completed rs @ fin))) w1 = Some ((err, fin), w')"
    by (auto simp: bindp_eq_Some)
  have c: "set (completed rs) \<subseteq> {x \<in> set xs. sel n x}"
    using completed_subset [of rs] go_group_set [OF g] by auto
  show ?case
  proof (cases "first_err rs")
    case None
    with k obtain d w2 where "run_orders sched task sel ns xs w1 = Some ((err, d), w2)"
      and "fin = completed rs @ d" by (auto simp: bindp_eq_Some)
    with Cons.IH c show ?thesis by fastforce
  next
    case Some
    with k c show ?thesis by auto
  qed
qed simp

lemma run_orders_all:
  "run_orders sched task sel ns xs w = Some ((None, fin), w') \<Longrightarrow>
     {x \<in> set xs. \<exists>n \<in> set ns. sel n x} \<subseteq> set fin"
proof (induction ns arbitrary: w fin w')
  case (Cons n ns)
  from Cons.prems obtain rs w1 where
    g: "go_group sched task (filter (sel n) xs) w = Some (rs, w1)" and
    k: "(if first_err rs \<noteq> None then ret (first_err rs, completed rs)
         else bindp (run_orders sched task sel ns xs) (\<lambda>(err, fin).
           ret (err, completed rs @ fin))) w1 = Some ((None, fin), w')"
    by (auto simp: bindp_eq_Some)
  have ok: "first_err rs = None" using k by (auto split: if_splits)
  with k obtain d w2 where "run_orders sched task sel ns xs w1 = Some ((None, d), w2)"
    and "fin = completed rs @ d" by (auto simp: bindp_eq_Some)
  moreover have "set (completed rs) = {x \<in> set xs. sel n x}"
    using completed_all [OF ok] go_group_set [OF g] by auto
  ultimately show ?case using Cons.IH by fastforce
qed simp

text \<open>
  A failure in one order keeps every later order from starting: no task selected for a later
  order only is among the completed ones.
\<close>

lemma run_orders_stop:
  assumes "run_orders sched task sel (n # ns) xs w = Some ((err, fin), w')"
    and "go_group sched task (filter (sel n) xs) w = Some (rs, w1)"
    and "first_err rs \<noteq> None"
  shows "err = first_err rs \<and> fin = completed rs \<and> w' = w1"
  using assms by (auto simp: bindp_eq_Some)

lemma run_tasks_mem:
  "run_tasks f xs w = Some (rs, w') \<Longrightarrow> (x, a) \<in> set rs \<Longrightarrow> \<exists>v v'. f x v = Some (a, v')"
proof (induction xs arbitrary: w rs)
  case (Cons y ys)
  then show ?case by (fastforce simp: bindp_eq_Some)
qed simp

lemma go_group_mem:
  "go_group sched f xs w = Some (rs, w') \<Longrightarrow> (x, a) \<in> set rs \<Longrightarrow> \<exists>v v'. f x v = Some (a, v')"
  unfolding go_group_def by (rule run_tasks_mem)

text \<open>In two phases: whoever completed in the second one saw the whole first one complete.\<close>

lemma run_orders_second:
  assumes "run_orders sched task sel [m, n] xs w = Some ((err, fin), w')"
    and "x \<in> set fin" and "\<not> sel m x"
  shows "{y \<in> set xs. sel m y} \<subseteq> set fin"
proof -
  from assms(1) obtain rs w1 where
    g: "go_group sched task (filter (sel m) xs) w = Some (rs, w1)" and
    k: "(if first_err rs \<noteq> None then ret (first_err rs, completed rs)
         else bindp (run_orders sched task sel [n] xs) (\<lambda>(err, fin).
           ret (err, completed rs @ fin))) w1 = Some ((err, fin), w')"
    by (auto simp: bindp_eq_Some)
  show ?thesis
  proof (cases "first_err rs")
    case None
    then have "set (completed rs) = {y \<in> set xs. sel m y}"
      using completed_all [OF None] go_group_set [OF g] by auto
    moreover have "set (completed rs) \<subseteq> set fin" using k None by (auto simp: bindp_eq_Some)
    ultimately show ?thesis by simp
  next
    case Some
    with k have "fin = completed rs" by simp
    then have "sel m x" using assms(2) completed_subset [of rs] go_group_set [OF g] by auto
    with assms(3) show ?thesis by simp
  qed
qed

lemma run_orders_none:
  "(\<And>n. n \<in> set ns \<Longrightarrow> filter (sel n) xs = []) \<Longrightarrow> run_orders sched task sel ns xs = ret (None, [])"
  by (induction ns) (auto simp: completed_def)

text \<open>
  Facts about the world along a run: a preorder \<open>R\<close> that every task respects relates the world
  before and after, and what a successful task establishes still holds at the end if \<open>R\<close>
  keeps it.
\<close>

lemma run_tasks_rel:
  assumes "\<And>w. R w w" and "\<And>a b c. R a b \<Longrightarrow> R b c \<Longrightarrow> R a c"
    and "\<And>x r w w'. x \<in> set xs \<Longrightarrow> f x w = Some (r, w') \<Longrightarrow> R w w'"
  shows "run_tasks f xs w = Some (rs, w') \<Longrightarrow> R w w'"
  using assms(3)
proof (induction xs arbitrary: w rs)
  case (Cons x xs)
  from Cons.prems(1) obtain r w1 rs' where "f x w = Some (r, w1)" "run_tasks f xs w1 = Some (rs', w')"
    by (auto simp: bindp_eq_Some)
  then show ?case using Cons.IH [of w1 rs'] Cons.prems(2) assms(2) by fastforce
qed (use assms(1) in simp)

lemma run_tasks_post:
  assumes "\<And>w. R w w" and "\<And>a b c. R a b \<Longrightarrow> R b c \<Longrightarrow> R a c"
    and "\<And>x r w w'. x \<in> set xs \<Longrightarrow> f x w = Some (r, w') \<Longrightarrow> R w w'"
    and "\<And>x w w'. x \<in> set xs \<Longrightarrow> f x w = Some (None, w') \<Longrightarrow> Q x w'"
    and "\<And>x w w'. Q x w \<Longrightarrow> R w w' \<Longrightarrow> Q x w'"
  shows "run_tasks f xs w = Some (rs, w') \<Longrightarrow> (x, None) \<in> set rs \<Longrightarrow> Q x w'"
  using assms(3,4)
proof (induction xs arbitrary: w rs)
  case (Cons a xs)
  from Cons.prems(1) obtain r w1 rs' where
    1: "f a w = Some (r, w1)" and 2: "run_tasks f xs w1 = Some (rs', w')" and rs: "rs = (a, r) # rs'"
    by (auto simp: bindp_eq_Some)
  have "R w1 w'"
    by (rule run_tasks_rel [of R, OF assms(1,2) _ 2]) (use Cons.prems(3) in auto)
  then show ?case
    using Cons.IH [OF 2] Cons.prems(2-4) 1 rs assms(5) by fastforce
qed simp

lemma run_orders_rel:
  assumes "\<And>w. R w w" and "\<And>a b c. R a b \<Longrightarrow> R b c \<Longrightarrow> R a c"
    and "\<And>x r w w'. x \<in> set xs \<Longrightarrow> task x w = Some (r, w') \<Longrightarrow> (\<exists>n \<in> set ns. sel n x) \<Longrightarrow> R w w'"
  shows "run_orders sched task sel ns xs w = Some ((err, fin), w') \<Longrightarrow> R w w'"
  using assms(3)
proof (induction ns arbitrary: w err fin)
  case (Cons n ns)
  from Cons.prems(1) obtain rs w1 where
    g: "go_group sched task (filter (sel n) xs) w = Some (rs, w1)" and
    k: "(if first_err rs \<noteq> None then ret (first_err rs, completed rs)
         else bindp (run_orders sched task sel ns xs) (\<lambda>(err, fin).
           ret (err, completed rs @ fin))) w1 = Some ((err, fin), w')"
    by (auto simp: bindp_eq_Some)
  have 1: "R w w1" using g unfolding go_group_def
    by (rule run_tasks_rel [of R, OF assms(1,2), rotated -1]) (use Cons.prems(2) in auto)
  show ?case
  proof (cases "first_err rs")
    case None
    with k obtain e d where "run_orders sched task sel ns xs w1 = Some ((e, d), w')"
      by (auto simp: bindp_eq_Some)
    with Cons.IH [OF this] Cons.prems(2) have "R w1 w'" by auto
    with 1 assms(2) show ?thesis by blast
  next
    case Some
    with k 1 show ?thesis by simp
  qed
qed (use assms(1) in simp)

lemma run_orders_post:
  assumes "\<And>w. R w w" and "\<And>a b c. R a b \<Longrightarrow> R b c \<Longrightarrow> R a c"
    and "\<And>x r w w'. x \<in> set xs \<Longrightarrow> task x w = Some (r, w') \<Longrightarrow> (\<exists>n \<in> set ns. sel n x) \<Longrightarrow> R w w'"
    and "\<And>x w w'. x \<in> set xs \<Longrightarrow> task x w = Some (None, w') \<Longrightarrow> Q x w'"
    and "\<And>x w w'. Q x w \<Longrightarrow> R w w' \<Longrightarrow> Q x w'"
  shows "run_orders sched task sel ns xs w = Some ((err, fin), w') \<Longrightarrow> x \<in> set fin \<Longrightarrow> Q x w'"
  using assms(3)
proof (induction ns arbitrary: w err fin)
  case (Cons n ns)
  from Cons.prems(1) obtain rs w1 where
    g: "go_group sched task (filter (sel n) xs) w = Some (rs, w1)" and
    k: "(if first_err rs \<noteq> None then ret (first_err rs, completed rs)
         else bindp (run_orders sched task sel ns xs) (\<lambda>(err, fin).
           ret (err, completed rs @ fin))) w1 = Some ((err, fin), w')"
    by (auto simp: bindp_eq_Some)
  have 1: "Q x w1" if "x \<in> set (completed rs)"
  proof -
    have x: "(x, None) \<in> set rs" using that by (simp add: set_completed)
    show ?thesis
      by (rule run_tasks_post [of R _ _ Q, OF assms(1,2) _ _ assms(5) g [unfolded go_group_def] x])
        (use Cons.prems(3) assms(4) in auto)
  qed
  show ?case
  proof (cases "first_err rs")
    case None
    with k obtain d where r: "run_orders sched task sel ns xs w1 = Some ((err, d), w')"
      and fin: "fin = completed rs @ d" by (auto simp: bindp_eq_Some)
    have "R w1 w'" by (rule run_orders_rel [of R, OF assms(1,2) _ r]) (use Cons.prems(3) in auto)
    with 1 assms(5) Cons.IH [OF r] Cons.prems(2,3) fin show ?thesis by auto
  next
    case Some
    with k 1 Cons.prems(2) show ?thesis by simp
  qed
qed simp

lemma run_tasks_total: "(\<And>x w. f x w \<noteq> None) \<Longrightarrow> run_tasks f xs w \<noteq> None"
proof (induction xs arbitrary: w)
  case (Cons x xs)
  then show ?case by (auto simp: bindp_eq_None)
qed simp

lemma run_orders_total:
  assumes "\<And>x w. task x w \<noteq> None"
  shows "run_orders sched task sel ns xs w \<noteq> None"
proof (induction ns arbitrary: w)
  case (Cons n ns)
  have "go_group sched task ys w \<noteq> None" for ys w
    unfolding go_group_def by (rule run_tasks_total) (rule assms)
  then obtain rs w1 where g: "go_group sched task (filter (sel n) xs) w = Some (rs, w1)"
    using prog_returns by blast
  obtain e d w2 where "run_orders sched task sel ns xs w1 = Some ((e, d), w2)"
    using prog_returns2 [OF Cons.IH] by blast
  with g show ?case by (simp add: bindp_def)
qed simp

section \<open>Go maps\<close>

type_synonym ('k, 'v) gomap = "('k \<times> 'v) list"

definition gm_ok :: "('k, 'v) gomap \<Rightarrow> bool" where
  "gm_ok m \<longleftrightarrow> distinct (map fst m)"

abbreviation gm_put :: "'k \<Rightarrow> 'v \<Rightarrow> ('k, 'v) gomap \<Rightarrow> ('k, 'v) gomap" where
  "gm_put \<equiv> AList.update"

abbreviation gm_del :: "'k \<Rightarrow> ('k, 'v) gomap \<Rightarrow> ('k, 'v) gomap" where
  "gm_del \<equiv> AList.delete"

abbreviation gm_keys :: "('k, 'v) gomap \<Rightarrow> 'k set" where
  "gm_keys m \<equiv> fst ` set m"

lemma gm_ok_Nil [simp]: "gm_ok []"
  by (simp add: gm_ok_def)

lemma gm_ok_put [simp]: "gm_ok m \<Longrightarrow> gm_ok (gm_put k v m)"
  by (simp add: gm_ok_def distinct_update)

lemma gm_ok_del [simp]: "gm_ok m \<Longrightarrow> gm_ok (gm_del k m)"
  by (simp add: gm_ok_def distinct_delete)

lemma gm_get_put [simp]: "map_of (gm_put k v m) = (map_of m)(k \<mapsto> v)"
  by (rule update_conv')

lemma gm_get_del [simp]: "map_of (gm_del k m) = (map_of m)(k := None)"
  by (rule delete_conv')

lemma gm_in_set: "gm_ok m \<Longrightarrow> (k, v) \<in> set m \<longleftrightarrow> map_of m k = Some v"
  by (auto simp: gm_ok_def intro: map_of_is_SomeI dest: map_of_SomeD)

lemma gm_keys_dom: "gm_keys m = dom (map_of m)"
  by (simp add: dom_map_of_conv_image_fst)

lemma find_append:
  "find P (xs @ ys) = (case find P xs of Some y \<Rightarrow> Some y | None \<Rightarrow> find P ys)"
  by (induction xs) auto

section \<open>Decimal printing\<close>

fun show_nat :: "nat \<Rightarrow> string" where
  "show_nat n = (if n < 10 then [char_of (48 + n)] else show_nat (n div 10) @ [char_of (48 + n mod 10)])"

declare show_nat.simps [simp del]

definition show_int :: "int \<Rightarrow> string" where
  "show_int i = (if i < 0 then CHR ''-'' # show_nat (nat (- i)) else show_nat (nat i))"

lemma show_nat_inj: "show_nat m = show_nat n \<Longrightarrow> m = n"
proof (induction m arbitrary: n rule: show_nat.induct)
  case (1 m)
  have last: "last (show_nat k) = char_of (48 + k mod 10)" for k
    by (subst show_nat.simps) simp
  have len: "length (show_nat k) = 1 \<longleftrightarrow> k < 10" for k
  proof -
    have "show_nat (k div 10) \<noteq> []" by (subst show_nat.simps) simp
    then show ?thesis by (subst show_nat.simps) simp
  qed
  have "(of_char (char_of (48 + m mod 10)) :: nat) = of_char (char_of (48 + n mod 10))"
    using 1(2) last [of m] last [of n] by metis
  then have md: "m mod 10 = n mod 10"
    by (simp add: of_char_of)
  show ?case
  proof (cases "m < 10")
    case True
    then have "n < 10" using len 1(2) by metis
    with True md show ?thesis by simp
  next
    case False
    then have "\<not> n < 10" using len 1(2) by metis
    then have "show_nat (m div 10) = show_nat (n div 10)"
      using False 1(2) by (simp add: show_nat.simps [of m] show_nat.simps [of n])
    with 1(1) [OF False] md show ?thesis
      by (metis div_mult_mod_eq)
  qed
qed

end
