(* ===== verification/Amqp.thy ===== *)
theory Amqp
  imports Complex_Main Prelude
begin

text \<open>
  The messages of the management protocols and the client interface they are sent through
  (\<open>pkg/amqpcommand\<close>, interface \<open>Client\<close>).

  A message body is a value of \<open>avalue\<close>. The broker protocol carries JSON texts inside strings:
  a string whose text the code marshals or unmarshals is represented by the value the text
  denotes (\<open>AJson\<close> in a body, \<open>JText\<close> for a text nested in another text), and any other
  string by \<open>AString\<close> or \<open>JStr\<close>. The headers that the client fills in itself (message and
  correlation identifiers, reply address) are not part of the model.
\<close>

datatype json =
    JNull
  | JBool bool
  | JNum rat
  | JStr string
  | JArr "json list"
  | JObj "(string \<times> json) list"
  | JText json

datatype avalue =
    ANull
  | AString string
  | AInt int
  | ABool bool
  | AList "avalue list"
  | AMap "(string \<times> avalue) list"
  | AJson json

record Message =
  ApplicationProperties :: "(string \<times> avalue) list"
  Value :: avalue

text \<open>
  A Go interface value is the record of its methods. Each method acts on the world; a request
  may fail with an error (a timeout, a closed connection) or bring the response message.
\<close>

record 'w Client =
  Client_Start :: "'w \<Rightarrow> 'w"
  Client_Stop :: "'w \<Rightarrow> 'w"
  Client_ReconnectCount :: "'w \<Rightarrow> int"
  Client_RequestWithTimeout :: "Message \<Rightarrow> ('w, error + Message) prog"

text \<open>How \<open>%+v\<close> prints the values that occur in a status description.\<close>

fun show_avalue :: "avalue \<Rightarrow> string" where
  "show_avalue ANull = ''<nil>''"
| "show_avalue (AString s) = s"
| "show_avalue (AInt i) = show_int i"
| "show_avalue (ABool b) = (if b then ''true'' else ''false'')"
| "show_avalue (AList xs) = ''[]''"
| "show_avalue (AMap m) = ''map[]''"
| "show_avalue (AJson j) = ''''"

record Host =
  Hostname :: string
  Ip :: string

end
