(* ===== verification/EntityStore.thy ===== *)
theory EntityStore
  imports Prelude
begin

text \<open>
  The local entity cache that \<open>BrokerState\<close> and \<open>RouterState\<close> both keep: a map from entity
  type to a map from name to entity (\<open>entities\<close> in \<open>pkg/state/broker/types.go\<close> and
  \<open>pkg/state/router/types.go\<close>), with the loops the two \<open>EnsureEntities\<close> and
  \<open>DeleteEntities\<close> methods share. The locale \<open>entity_kind\<close> is the contract of the Go
  interfaces \<open>BrokerEntity\<close> and \<open>RouterEntity\<close> as the cache relies on it.
\<close>

type_synonym ('t, 'e) store = "'t \<rightharpoonup> (string, 'e) gomap"

definition lookup2 :: "('t, 'e) store \<Rightarrow> 't \<Rightarrow> string \<Rightarrow> 'e option" where
  "lookup2 s t n = (case s t of None \<Rightarrow> None | Some m \<Rightarrow> map_of m n)"

text \<open>
  The first loop of \<open>EnsureEntities\<close>: an entity that is cached must be equal to the wanted one,
  otherwise the method returns an error naming the cached one; the others have to be created.
\<close>

fun to_create ::
  "('e \<Rightarrow> 't) \<Rightarrow> ('e \<Rightarrow> string) \<Rightarrow> ('e \<Rightarrow> 'e \<Rightarrow> bool) \<Rightarrow> ('t, 'e) store \<Rightarrow> 'e list \<Rightarrow> ('e \<times> 'e) + 'e list"
where
  "to_create knd nam eql s [] = Inr []"
| "to_create knd nam eql s (e # es) =
     (case lookup2 s (knd e) (nam e) of
        Some x \<Rightarrow> if eql x e then to_create knd nam eql s es else Inl (x, e)
      | None \<Rightarrow> map_sum id (\<lambda>l. e # l) (to_create knd nam eql s es))"

text \<open>
  The last loops: the completed entities are written back, or removed. Writing to the nil map of
  a type that was never read is a panic; deleting from it does nothing.
\<close>

fun put_all ::
  "('e \<Rightarrow> 't) \<Rightarrow> ('e \<Rightarrow> string) \<Rightarrow> 'e list \<Rightarrow> ('t, 'e) store \<Rightarrow> ('t, 'e) store option" where
  "put_all knd nam [] s = Some s"
| "put_all knd nam (e # es) s =
     (case s (knd e) of
        None \<Rightarrow> None
      | Some m \<Rightarrow> put_all knd nam es (s(knd e \<mapsto> gm_put (nam e) e m)))"

fun del_all :: "('e \<Rightarrow> 't) \<Rightarrow> ('e \<Rightarrow> string) \<Rightarrow> 'e list \<Rightarrow> ('t, 'e) store \<Rightarrow> ('t, 'e) store" where
  "del_all knd nam [] s = s"
| "del_all knd nam (e # es) s =
     del_all knd nam es
       (case s (knd e) of None \<Rightarrow> s | Some m \<Rightarrow> s(knd e \<mapsto> gm_del (nam e) m))"

text \<open>Every cached entity is filed under its own type and name, once.\<close>

definition store_ok :: "('e \<Rightarrow> 't) \<Rightarrow> ('e \<Rightarrow> string) \<Rightarrow> ('t, 'e) store \<Rightarrow> bool" where
  "store_ok knd nam s \<longleftrightarrow>
     (\<forall>t m. s t = Some m \<longrightarrow> gm_ok m \<and> (\<forall>(n, e) \<in> set m. knd e = t \<and> nam e = n))"

lemma store_okD: "store_ok knd nam s \<Longrightarrow> lookup2 s t n = Some e \<Longrightarrow> knd e = t \<and> nam e = n"
  by (fastforce simp: store_ok_def lookup2_def split: option.splits dest: map_of_SomeD)

lemma gm_put_entries: "(n, e) \<in> set (gm_put k v m) \<Longrightarrow> (n, e) = (k, v) \<or> (n, e) \<in> set m"
  by (induction m) (auto split: if_splits)

lemma gm_del_entries: "(n, e) \<in> set (gm_del k m) \<Longrightarrow> (n, e) \<in> set m \<and> n \<noteq> k"
  by (auto simp: AList.delete_eq)

lemma store_ok_put: "store_ok knd nam s \<Longrightarrow> put_all knd nam es s = Some s' \<Longrightarrow> store_ok knd nam s'"
proof (induction es arbitrary: s)
  case (Cons e es)
  from Cons.prems obtain m where m: "s (knd e) = Some m"
    and r: "put_all knd nam es (s(knd e \<mapsto> gm_put (nam e) e m)) = Some s'"
    by (auto split: option.splits)
  have "store_ok knd nam (s(knd e \<mapsto> gm_put (nam e) e m))"
    using Cons.prems(1) m by (fastforce simp: store_ok_def dest: gm_put_entries)
  from Cons.IH [OF this r] show ?case .
qed simp

lemma store_ok_del: "store_ok knd nam s \<Longrightarrow> store_ok knd nam (del_all knd nam es s)"
proof (induction es arbitrary: s)
  case (Cons e es)
  have "store_ok knd nam (case s (knd e) of None \<Rightarrow> s | Some m \<Rightarrow> s(knd e \<mapsto> gm_del (nam e) m))"
    using Cons.prems by (fastforce simp: store_ok_def split: option.splits dest: gm_del_entries)
  with Cons.IH show ?case by simp
qed simp

lemma dom_put_all: "put_all knd nam es s = Some s' \<Longrightarrow> dom s' = dom s"
  by (induction es arbitrary: s) (auto split: option.splits)

lemma dom_del_all [simp]: "dom (del_all knd nam es s) = dom s"
  by (induction es arbitrary: s) (auto split: option.splits)

lemma put_all_defined: "knd ` set es \<subseteq> dom s \<Longrightarrow> \<exists>s'. put_all knd nam es s = Some s'"
proof (induction es arbitrary: s)
  case (Cons e es)
  from Cons.prems obtain m where m: "s (knd e) = Some m" by auto
  have "knd ` set es \<subseteq> dom (s(knd e \<mapsto> gm_put (nam e) e m))" using Cons.prems by auto
  from Cons.IH [OF this] show ?case unfolding put_all.simps m option.case .
qed simp

lemma lookup2_put: 
  "s t = Some m \<Longrightarrow> lookup2 (s(t \<mapsto> gm_put n e m)) t' n' = (if t' = t \<and> n' = n then Some e else lookup2 s t' n')"
  by (auto simp: lookup2_def)

lemma lookup2_put_all:
  "put_all knd nam es s = Some s' \<Longrightarrow>
     lookup2 s' t n =
       (case find (\<lambda>e. knd e = t \<and> nam e = n) (rev es) of Some e \<Rightarrow> Some e | None \<Rightarrow> lookup2 s t n)"
proof (induction es arbitrary: s)
  case (Cons e es)
  from Cons.prems obtain m where m: "s (knd e) = Some m"
    and r: "put_all knd nam es (s(knd e \<mapsto> gm_put (nam e) e m)) = Some s'"
    by (auto split: option.splits)
  show ?case
    unfolding Cons.IH [OF r] lookup2_put [of s "knd e" m, OF m] by (auto simp: find_append split: option.splits)
qed simp

lemma lookup2_del_all:
  "lookup2 (del_all knd nam es s) t n =
     (if \<exists>e \<in> set es. knd e = t \<and> nam e = n then None else lookup2 s t n)"
proof (induction es arbitrary: s)
  case (Cons e es)
  have "lookup2 (case s (knd e) of None \<Rightarrow> s | Some m \<Rightarrow> s(knd e \<mapsto> gm_del (nam e) m)) t n =
    (if knd e = t \<and> nam e = n then None else lookup2 s t n)"
    by (auto simp: lookup2_def split: option.splits)
  then show ?case using Cons.IH by auto
qed simp

lemma put_all_mem:
  assumes "put_all knd nam es s = Some s'" and "e \<in> set es"
  shows "\<exists>x \<in> set es. lookup2 s' (knd e) (nam e) = Some x \<and> knd x = knd e \<and> nam x = nam e"
proof -
  have "find (\<lambda>x. knd x = knd e \<and> nam x = nam e) (rev es) \<noteq> None"
    using assms(2) by (auto simp: find_None_iff)
  then obtain x where x: "find (\<lambda>x. knd x = knd e \<and> nam x = nam e) (rev es) = Some x" by auto
  then have "x \<in> set es \<and> knd x = knd e \<and> nam x = nam e"
    by (auto simp: find_Some_iff) (metis length_rev nth_mem set_rev)
  with x show ?thesis using lookup2_put_all [OF assms(1), of "knd e" "nam e"] by auto
qed

lemma put_all_frame:
  assumes "put_all knd nam es s = Some s'" and "\<forall>e \<in> set es. \<not> (knd e = t \<and> nam e = n)"
  shows "lookup2 s' t n = lookup2 s t n"
proof -
  have "find (\<lambda>e. knd e = t \<and> nam e = n) (rev es) = None"
    using assms(2) by (auto simp: find_None_iff)
  then show ?thesis using lookup2_put_all [OF assms(1)] by simp
qed

section \<open>The contract of an entity kind\<close>

text \<open>
  What the caches rely on: \<open>Equals\<close> is reflexive, and equal entities have the same type and
  name. The lemmas on the loops are proved once from it.
\<close>

locale entity_kind =
  fixes knd :: "'e \<Rightarrow> 't"
    and nam :: "'e \<Rightarrow> string"
    and eql :: "'e \<Rightarrow> 'e \<Rightarrow> bool"
  assumes eql_refl: "eql e e"
    and eql_key: "eql x e \<Longrightarrow> knd x = knd e \<and> nam x = nam e"
begin

lemma to_create_Inr:
  "to_create knd nam eql s es = Inr l \<Longrightarrow>
     l = filter (\<lambda>e. lookup2 s (knd e) (nam e) = None) es"
proof (induction es arbitrary: l)
  case (Cons e es)
  then show ?case
    by (cases "to_create knd nam eql s es") (auto split: option.splits if_splits)
qed simp

lemma to_create_fresh:
  "to_create knd nam eql s es = Inr l \<Longrightarrow> e \<in> set l \<Longrightarrow> e \<in> set es \<and> lookup2 s (knd e) (nam e) = None"
  by (auto dest!: to_create_Inr)

lemma to_create_Inl:
  "to_create knd nam eql s es = Inl (x, e) \<Longrightarrow>
     e \<in> set es \<and> lookup2 s (knd e) (nam e) = Some x \<and> \<not> eql x e"
proof (induction es)
  case (Cons a es)
  then show ?case
    by (cases "to_create knd nam eql s es") (auto split: option.splits if_splits)
qed simp

lemma to_create_conflict_iff:
  "(\<exists>c. to_create knd nam eql s es = Inl c) \<longleftrightarrow>
     (\<exists>e \<in> set es. \<exists>x. lookup2 s (knd e) (nam e) = Some x \<and> \<not> eql x e)"
proof (induction es)
  case (Cons a es)
  then show ?case
    by (cases "to_create knd nam eql s es") (auto split: option.splits)
qed simp

text \<open>
  What a write-back of completed creations does to the cache: cached entities stay, and only
  entities that were asked for appear.
\<close>

lemma put_fresh_keeps:
  assumes "\<forall>e \<in> set es. lookup2 s (knd e) (nam e) = None"
    and "put_all knd nam es s = Some s'" and "lookup2 s t n = Some x"
  shows "lookup2 s' t n = Some x"
proof -
  have "\<forall>e \<in> set es. \<not> (knd e = t \<and> nam e = n)" using assms(1,3) by auto
  with assms(2,3) show ?thesis by (simp add: put_all_frame)
qed

lemma put_only_asked:
  assumes "put_all knd nam es s = Some s'" and "lookup2 s' t n = Some x" and "lookup2 s t n \<noteq> Some x"
  shows "x \<in> set es"
proof -
  obtain e where "find (\<lambda>e. knd e = t \<and> nam e = n) (rev es) = Some e" and "e = x"
    using lookup2_put_all [OF assms(1), of t n] assms(2,3) by (auto split: option.splits)
  then show ?thesis by (auto simp: find_Some_iff) (metis length_rev nth_mem set_rev)
qed

text \<open>
  A cache in which every wanted entity is present under its key, and is equal to it, needs no
  creation: the second pass of \<open>EnsureEntities\<close> finds nothing to do.
\<close>

lemma to_create_settled:
  "\<forall>e \<in> set es. \<exists>x. lookup2 s (knd e) (nam e) = Some x \<and> eql x e \<Longrightarrow>
     to_create knd nam eql s es = Inr []"
  by (induction es) (auto split: option.splits)

lemma put_settled:
  assumes fresh: "\<forall>e \<in> set l. lookup2 s (knd e) (nam e) = None"
    and l: "to_create knd nam eql s es = Inr l"
    and put: "put_all knd nam c s = Some s'" and c: "set c = set l"
    and uniq: "\<And>e x. e \<in> set es \<Longrightarrow> x \<in> set es \<Longrightarrow> knd x = knd e \<Longrightarrow> nam x = nam e \<Longrightarrow> eql x e"
  shows "to_create knd nam eql s' es = Inr []"
proof (rule to_create_settled, rule ballI)
  fix e assume e: "e \<in> set es"
  show "\<exists>x. lookup2 s' (knd e) (nam e) = Some x \<and> eql x e"
  proof (cases "lookup2 s (knd e) (nam e)")
    case None
    with e have "e \<in> set c" using to_create_Inr [OF l] c by auto
    from put_all_mem [OF put this] obtain x where
      x: "x \<in> set c" "lookup2 s' (knd e) (nam e) = Some x" "knd x = knd e" "nam x = nam e" by auto
    then have "x \<in> set es" using c to_create_Inr [OF l] by auto
    with uniq e x show ?thesis by blast
  next
    case (Some x)
    have "eql x e"
    proof (rule ccontr)
      assume "\<not> eql x e"
      with Some e have "\<exists>c. to_create knd nam eql s es = Inl c"
        using to_create_conflict_iff by blast
      with l show False by simp
    qed
    moreover have "lookup2 s' (knd e) (nam e) = Some x"
      using put_fresh_keeps [OF _ put Some] fresh c by auto
    ultimately show ?thesis by blast
  qed
qed

end

end
