(* ===== verification/Broker.thy ===== *)
theory Broker
  imports Amqp EntityStore
begin

text \<open>
  \<open>pkg/state/broker\<close>: the controller's view of one Artemis broker. \<open>BrokerState\<close> caches the
  entities that exist on the broker and creates or deletes entities through management
  requests. The broker itself answers through the \<open>Client\<close> interface, which stays abstract.

  Error messages keep the text and the names that the code formats into them; the printed
  response body (\<open>%+v\<close> of \<open>response.Value\<close>), which no code reads, is left out.
\<close>

section \<open>Entities (\<open>types.go\<close>)\<close>

datatype BrokerEntityType =
    BrokerQueueEntity
  | BrokerAddressEntity
  | BrokerDivertEntity
  | BrokerAddressSettingEntity

text \<open>The string-typed enumerations keep their strings: the zero value is the empty string.\<close>

type_synonym RoutingType = string
type_synonym AddressFullPolicy = string
type_synonym SlowConsumerPolicy = string

definition RoutingTypeAnycast :: RoutingType where "RoutingTypeAnycast = ''ANYCAST''"
definition RoutingTypeMulticast :: RoutingType where "RoutingTypeMulticast = ''MULTICAST''"
definition AddressFullPolicyFail :: AddressFullPolicy where "AddressFullPolicyFail = ''FAIL''"
definition SlowConsumerPolicyKill :: SlowConsumerPolicy where "SlowConsumerPolicyKill = ''KILL''"

record BrokerQueue =
  bq_Name :: string
  bq_Address :: string
  bq_RoutingType :: RoutingType
  bq_MaxConsumers :: int
  bq_Durable :: bool
  bq_AutoCreateAddress :: bool
  bq_PurgeOnNoConsumers :: bool

record BrokerAddress =
  ba_Name :: string
  ba_RoutingType :: RoutingType

record BrokerDivert =
  bd_Name :: string
  bd_RoutingName :: string
  bd_Address :: string
  bd_ForwardingAddress :: string
  bd_Exclusive :: bool
  bd_FilterString :: string
  bd_TransformerClassName :: string

record BrokerAddressSetting =
  st_Name :: string
  st_DeadLetterAddress :: string
  st_ExpiryAddress :: string
  st_ExpiryDelay :: int
  st_LastValueQueue :: bool
  st_DeliveryAttempts :: int
  st_MaxSizeBytes :: int
  st_PageSizeBytes :: int
  st_PageMaxCacheSize :: int
  st_RedeliveryDelay :: int
  st_RedeliveryMultiplier :: rat
  st_MaxRedeliveryDelay :: int
  st_RedistributionDelay :: int
  st_SendToDLAOnNoRoute :: bool
  st_AddressFullMessagePolicy :: AddressFullPolicy
  st_SlowConsumerThreshold :: int
  st_SlowConsumerCheckPeriod :: int
  st_SlowConsumerPolicy :: SlowConsumerPolicy
  st_AutoCreateJmsQueues :: bool
  st_AutoDeleteJmsQueues :: bool
  st_AutoCreateJmsTopics :: bool
  st_AutoDeleteJmsTopics :: bool
  st_AutoCreateQueues :: bool
  st_AutoDeleteQueues :: bool
  st_AutoCreateAddresses :: bool
  st_AutoDeleteAddresses :: bool

datatype BrokerEntity =
    BEQueue BrokerQueue
  | BEAddress BrokerAddress
  | BEDivert BrokerDivert
  | BESetting BrokerAddressSetting

fun BrokerEntity_Type :: "BrokerEntity \<Rightarrow> BrokerEntityType" where
  "BrokerEntity_Type (BEQueue q) = BrokerQueueEntity"
| "BrokerEntity_Type (BEAddress a) = BrokerAddressEntity"
| "BrokerEntity_Type (BEDivert d) = BrokerDivertEntity"
| "BrokerEntity_Type (BESetting s) = BrokerAddressSettingEntity"

fun BrokerEntity_GetName :: "BrokerEntity \<Rightarrow> string" where
  "BrokerEntity_GetName (BEQueue q) = bq_Name q"
| "BrokerEntity_GetName (BEAddress a) = ba_Name a"
| "BrokerEntity_GetName (BEDivert d) = bd_Name d"
| "BrokerEntity_GetName (BESetting s) = st_Name s"

fun BrokerEntity_Order :: "BrokerEntity \<Rightarrow> nat" where
  "BrokerEntity_Order (BEQueue q) = 1"
| "BrokerEntity_Order (BEAddress a) = 0"
| "BrokerEntity_Order (BEDivert d) = 0"
| "BrokerEntity_Order (BESetting s) = 0"

text \<open>Updates are not supported: two entities are equal when type and name are.\<close>

definition BrokerEntity_Equals :: "BrokerEntity \<Rightarrow> BrokerEntity \<Rightarrow> bool" where
  "BrokerEntity_Equals b other \<longleftrightarrow>
     BrokerEntity_Type b = BrokerEntity_Type other \<and>
     BrokerEntity_GetName b = BrokerEntity_GetName other"

interpretation be: entity_kind BrokerEntity_Type BrokerEntity_GetName BrokerEntity_Equals
  by unfold_locales (auto simp: BrokerEntity_Equals_def)

section \<open>Management requests\<close>

definition newManagementMessage :: "string \<Rightarrow> string \<Rightarrow> string \<Rightarrow> json list \<Rightarrow> Message" where
  "newManagementMessage resource operation attr params =
     \<lparr> ApplicationProperties =
         [(''_AMQ_ResourceName'', AString resource)]
         @ (if operation \<noteq> '''' then [(''_AMQ_OperationName'', AString operation)] else [])
         @ (if attr \<noteq> '''' then [(''_AMQ_Attribute'', AString attr)] else []),
       Value = AJson (JArr params) \<rparr>"

text \<open>The type assertion \<open>successProp.(bool)\<close> panics on any other type.\<close>

definition success :: "Message \<Rightarrow> bool option" where
  "success response =
     (case map_of (ApplicationProperties response) ''_AMQ_OperationSucceeded'' of
        None \<Rightarrow> Some False
      | Some (ABool b) \<Rightarrow> Some b
      | Some _ \<Rightarrow> None)"

definition doRequest :: "'w Client \<Rightarrow> Message \<Rightarrow> ('w, error + Message) prog" where
  "doRequest client request = Client_RequestWithTimeout client request"

text \<open>Send one request and turn an unsuccessful answer into the given error.\<close>

definition request_ok :: "'w Client \<Rightarrow> Message \<Rightarrow> string \<Rightarrow> ('w, error option) prog" where
  "request_ok client message failure =
     bindp (doRequest client message) (\<lambda>r.
       case r of
         Inl err \<Rightarrow> ret (Some err)
       | Inr response \<Rightarrow>
           bindp (liftO (success response)) (\<lambda>ok.
             ret (if \<not> ok then Some (Errorf failure) else None)))"

definition queue_config :: "BrokerQueue \<Rightarrow> json" where
  "queue_config b =
     JObj [(''name'', JStr (bq_Name b)),
           (''address'', JStr (bq_Address b)),
           (''routing-type'', JStr (bq_RoutingType b)),
           (''max-consumers'', JNum (of_int (bq_MaxConsumers b))),
           (''durable'', JBool (bq_Durable b)),
           (''auto-create-address'', JBool (bq_AutoCreateAddress b)),
           (''purge-on-no-consumers'', JBool (bq_PurgeOnNoConsumers b))]"

definition setting_params :: "BrokerAddressSetting \<Rightarrow> json list" where
  "setting_params b =
     [JStr (st_Name b), JStr (st_DeadLetterAddress b), JStr (st_ExpiryAddress b),
      JNum (of_int (st_ExpiryDelay b)), JBool (st_LastValueQueue b),
      JNum (of_int (st_DeliveryAttempts b)), JNum (of_int (st_MaxSizeBytes b)),
      JNum (of_int (st_PageSizeBytes b)), JNum (of_int (st_PageMaxCacheSize b)),
      JNum (of_int (st_RedeliveryDelay b)), JNum (st_RedeliveryMultiplier b),
      JNum (of_int (st_MaxRedeliveryDelay b)), JNum (of_int (st_RedistributionDelay b)),
      JBool (st_SendToDLAOnNoRoute b), JStr (st_AddressFullMessagePolicy b),
      JNum (of_int (st_SlowConsumerThreshold b)), JNum (of_int (st_SlowConsumerCheckPeriod b)),
      JStr (st_SlowConsumerPolicy b), JBool (st_AutoCreateJmsQueues b),
      JBool (st_AutoDeleteJmsQueues b), JBool (st_AutoCreateJmsTopics b),
      JBool (st_AutoDeleteJmsTopics b), JBool (st_AutoCreateQueues b),
      JBool (st_AutoDeleteQueues b), JBool (st_AutoCreateAddresses b),
      JBool (st_AutoDeleteAddresses b)]"

definition BrokerQueue_Create :: "'w Client \<Rightarrow> BrokerQueue \<Rightarrow> ('w, error option) prog" where
  "BrokerQueue_Create client b =
     request_ok client
       (newManagementMessage ''broker'' ''createQueue'' '''' [JText (queue_config b)])
       (''error creating queue '' @ bq_Name b)"

definition BrokerQueue_Delete :: "'w Client \<Rightarrow> BrokerQueue \<Rightarrow> ('w, error option) prog" where
  "BrokerQueue_Delete client b =
     request_ok client
       (newManagementMessage ''broker'' ''destroyQueue'' '''' [JStr (bq_Name b), JBool True])
       (''error deleting queue '' @ bq_Name b)"

definition BrokerAddress_Create :: "'w Client \<Rightarrow> BrokerAddress \<Rightarrow> ('w, error option) prog" where
  "BrokerAddress_Create client b =
     request_ok client
       (newManagementMessage ''broker'' ''createAddress'' ''''
          [JStr (ba_Name b), JStr (ba_RoutingType b)])
       (''error creating address '' @ ba_Name b)"

definition BrokerAddress_Delete :: "'w Client \<Rightarrow> BrokerAddress \<Rightarrow> ('w, error option) prog" where
  "BrokerAddress_Delete client b =
     request_ok client
       (newManagementMessage ''broker'' ''deleteAddress'' '''' [JStr (ba_Name b), JBool True])
       (''error deleting address '' @ ba_Name b)"

definition BrokerDivert_Create :: "'w Client \<Rightarrow> BrokerDivert \<Rightarrow> ('w, error option) prog" where
  "BrokerDivert_Create client b =
     request_ok client
       (newManagementMessage ''broker'' ''createDivert'' ''''
          [JStr (bd_Name b), JStr (bd_RoutingName b), JStr (bd_Address b),
           JStr (bd_ForwardingAddress b), JBool (bd_Exclusive b), JStr (bd_FilterString b), JNull])
       (''error creating divert '' @ bd_Name b)"

definition BrokerDivert_Delete :: "'w Client \<Rightarrow> BrokerDivert \<Rightarrow> ('w, error option) prog" where
  "BrokerDivert_Delete client b =
     request_ok client
       (newManagementMessage ''broker'' ''destroyDivert'' '''' [JStr (bd_Name b)])
       (''error destroying divert '' @ bd_Name b)"

definition BrokerAddressSetting_Create ::
  "'w Client \<Rightarrow> BrokerAddressSetting \<Rightarrow> ('w, error option) prog" where
  "BrokerAddressSetting_Create client b =
     request_ok client
       (newManagementMessage ''broker'' ''addAddressSettings'' '''' (setting_params b))
       (''error creating address setting '' @ st_Name b)"

definition BrokerAddressSetting_Delete ::
  "'w Client \<Rightarrow> BrokerAddressSetting \<Rightarrow> ('w, error option) prog" where
  "BrokerAddressSetting_Delete client b =
     request_ok client
       (newManagementMessage ''broker'' ''removeAddressSettings'' '''' [JStr (st_Name b)])
       (''error removing address setting '' @ st_Name b)"

text \<open>The dynamic dispatch of the interface methods.\<close>

fun BrokerEntity_Create :: "'w Client \<Rightarrow> BrokerEntity \<Rightarrow> ('w, error option) prog" where
  "BrokerEntity_Create client (BEQueue b) = BrokerQueue_Create client b"
| "BrokerEntity_Create client (BEAddress b) = BrokerAddress_Create client b"
| "BrokerEntity_Create client (BEDivert b) = BrokerDivert_Create client b"
| "BrokerEntity_Create client (BESetting b) = BrokerAddressSetting_Create client b"

fun BrokerEntity_Delete :: "'w Client \<Rightarrow> BrokerEntity \<Rightarrow> ('w, error option) prog" where
  "BrokerEntity_Delete client (BEQueue b) = BrokerQueue_Delete client b"
| "BrokerEntity_Delete client (BEAddress b) = BrokerAddress_Delete client b"
| "BrokerEntity_Delete client (BEDivert b) = BrokerDivert_Delete client b"
| "BrokerEntity_Delete client (BESetting b) = BrokerAddressSetting_Delete client b"

section \<open>The broker state\<close>

text \<open>
  \<open>entities\<close> maps a type to its name map; a type that was never read has no map (nil).
  Times are seconds of the clock. The constructors always set the command client, so the
  \<open>nil\<close> test in \<open>Reset\<close> and \<open>Shutdown\<close> is always passed.
\<close>

record 'w BrokerState =
  bs_host :: Host
  bs_port :: int
  bs_nextResync :: int
  bs_initialized :: bool
  bs_commandClient :: "'w Client"
  bs_entities :: "(BrokerEntityType, BrokerEntity) store"
  bs_reconnectCount :: int

text \<open>The TLS options only configure the client that is passed in here as an argument.\<close>

definition NewBrokerState :: "'w Client \<Rightarrow> Host \<Rightarrow> int \<Rightarrow> ('w, 'w BrokerState) prog" where
  "NewBrokerState client host port = (\<lambda>w.
     let w' = Client_Start client w in
     Some (\<lparr> bs_host = host, bs_port = port, bs_nextResync = 0, bs_initialized = False,
             bs_commandClient = client, bs_entities = Map.empty,
             bs_reconnectCount = Client_ReconnectCount client w' \<rparr>, w'))"

definition BrokerState_Reset :: "'w BrokerState \<Rightarrow> ('w, 'w BrokerState) prog" where
  "BrokerState_Reset b = (\<lambda>w.
     if bs_initialized b
     then Some (b\<lparr>bs_initialized := False\<rparr>,
                Client_Start (bs_commandClient b) (Client_Stop (bs_commandClient b) w))
     else Some (b, w))"

definition BrokerState_Shutdown :: "'w BrokerState \<Rightarrow> ('w, unit) prog" where
  "BrokerState_Shutdown b = (\<lambda>w. Some ((), Client_Stop (bs_commandClient b) w))"

definition isConnectionError :: "error option \<Rightarrow> bool" where
  "isConnectionError err \<longleftrightarrow> err \<noteq> None"

subsection \<open>Reading the entities of a broker\<close>

text \<open>
  \<open>json.Unmarshal\<close> of a list of lists of strings, of a list of texts, and of an address
  setting: \<open>null\<close> and missing fields give the zero value, any other type mismatch is an error.
  Field names are matched as written in the struct tags.
\<close>

fun decode_string :: "json \<Rightarrow> string option" where
  "decode_string JNull = Some ''''"
| "decode_string (JStr s) = Some s"
| "decode_string _ = None"

fun decode_strings :: "json \<Rightarrow> string list option" where
  "decode_strings JNull = Some []"
| "decode_strings (JArr xs) =
     (if \<forall>x \<in> set xs. decode_string x \<noteq> None then Some (map (\<lambda>x. the (decode_string x)) xs) else None)"
| "decode_strings _ = None"

fun decode_string_lists :: "json \<Rightarrow> string list list option" where
  "decode_string_lists JNull = Some []"
| "decode_string_lists (JArr xs) =
     (if \<forall>x \<in> set xs. decode_strings x \<noteq> None then Some (map (\<lambda>x. the (decode_strings x)) xs) else None)"
| "decode_string_lists _ = None"

fun decode_texts :: "json \<Rightarrow> json list option" where
  "decode_texts JNull = Some []"
| "decode_texts (JArr xs) =
     (if \<forall>x \<in> set xs. case x of JText _ \<Rightarrow> True | _ \<Rightarrow> False
      then Some (map (\<lambda>x. case x of JText j \<Rightarrow> j | _ \<Rightarrow> JNull) xs) else None)"
| "decode_texts _ = None"

definition fld :: "(string \<times> json) list \<Rightarrow> string \<Rightarrow> json" where
  "fld obj k = (case map_of (rev obj) k of None \<Rightarrow> JNull | Some j \<Rightarrow> j)"

fun is_str :: "json \<Rightarrow> bool" where
  "is_str JNull = True" | "is_str (JStr _) = True" | "is_str _ = False"

fun is_bool :: "json \<Rightarrow> bool" where
  "is_bool JNull = True" | "is_bool (JBool _) = True" | "is_bool _ = False"

fun is_num :: "json \<Rightarrow> bool" where
  "is_num JNull = True" | "is_num (JNum _) = True" | "is_num _ = False"

fun is_int :: "nat \<Rightarrow> json \<Rightarrow> bool" where
  "is_int w JNull = True"
| "is_int w (JNum r) = (r = of_int \<lfloor>r\<rfloor> \<and> - (2 ^ (w - 1)) \<le> \<lfloor>r\<rfloor> \<and> \<lfloor>r\<rfloor> < 2 ^ (w - 1))"
| "is_int w _ = False"

fun get_str :: "json \<Rightarrow> string" where
  "get_str (JStr s) = s" | "get_str _ = ''''"

fun get_bool :: "json \<Rightarrow> bool" where
  "get_bool (JBool b) = b" | "get_bool _ = False"

fun get_num :: "json \<Rightarrow> rat" where
  "get_num (JNum r) = r" | "get_num _ = 0"

fun get_int :: "json \<Rightarrow> int" where
  "get_int (JNum r) = \<lfloor>r\<rfloor>" | "get_int _ = 0"

definition setting_fields_ok :: "(string \<times> json) list \<Rightarrow> bool" where
  "setting_fields_ok obj \<longleftrightarrow>
     list_all (\<lambda>k. is_str (fld obj k))
       [''name'', ''DLA'', ''expiryAddress'', ''addressFullMessagePolicy'', ''slowConsumerPolicy''] \<and>
     list_all (\<lambda>k. is_int 64 (fld obj k))
       [''expiryDelay'', ''maxSizeBytes'', ''redeliveryDelay'', ''maxRedeliveryDelay'',
        ''redistributionDelay'', ''slowConsumerThreshold'', ''slowConsumerCheckPeriod''] \<and>
     list_all (\<lambda>k. is_int 32 (fld obj k))
       [''deliveryAttempts'', ''pageSizeBytes'', ''pageMaxCacheSize''] \<and>
     is_num (fld obj ''redeliveryMultiplier'') \<and>
     list_all (\<lambda>k. is_bool (fld obj k))
       [''lastValueQueue'', ''sendToDLAOnNoRoute'', ''autoCreateJmsQueues'', ''autoDeleteJmsQueues'',
        ''autoCreateJmsTopics'', ''autoDeleteJmsTopics'', ''autoCreateQueues'', ''autoDeleteQueues'',
        ''autoCreateAddresses'', ''autoDeleteAddresses'']"

definition decode_setting_fields :: "(string \<times> json) list \<Rightarrow> BrokerAddressSetting" where
  "decode_setting_fields obj =
     \<lparr> st_Name = get_str (fld obj ''name''),
       st_DeadLetterAddress = get_str (fld obj ''DLA''),
       st_ExpiryAddress = get_str (fld obj ''expiryAddress''),
       st_ExpiryDelay = get_int (fld obj ''expiryDelay''),
       st_LastValueQueue = get_bool (fld obj ''lastValueQueue''),
       st_DeliveryAttempts = get_int (fld obj ''deliveryAttempts''),
       st_MaxSizeBytes = get_int (fld obj ''maxSizeBytes''),
       st_PageSizeBytes = get_int (fld obj ''pageSizeBytes''),
       st_PageMaxCacheSize = get_int (fld obj ''pageMaxCacheSize''),
       st_RedeliveryDelay = get_int (fld obj ''redeliveryDelay''),
       st_RedeliveryMultiplier = get_num (fld obj ''redeliveryMultiplier''),
       st_MaxRedeliveryDelay = get_int (fld obj ''maxRedeliveryDelay''),
       st_RedistributionDelay = get_int (fld obj ''redistributionDelay''),
       st_SendToDLAOnNoRoute = get_bool (fld obj ''sendToDLAOnNoRoute''),
       st_AddressFullMessagePolicy = get_str (fld obj ''addressFullMessagePolicy''),
       st_SlowConsumerThreshold = get_int (fld obj ''slowConsumerThreshold''),
       st_SlowConsumerCheckPeriod = get_int (fld obj ''slowConsumerCheckPeriod''),
       st_SlowConsumerPolicy = get_str (fld obj ''slowConsumerPolicy''),
       st_AutoCreateJmsQueues = get_bool (fld obj ''autoCreateJmsQueues''),
       st_AutoDeleteJmsQueues = get_bool (fld obj ''autoDeleteJmsQueues''),
       st_AutoCreateJmsTopics = get_bool (fld obj ''autoCreateJmsTopics''),
       st_AutoDeleteJmsTopics = get_bool (fld obj ''autoDeleteJmsTopics''),
       st_AutoCreateQueues = get_bool (fld obj ''autoCreateQueues''),
       st_AutoDeleteQueues = get_bool (fld obj ''autoDeleteQueues''),
       st_AutoCreateAddresses = get_bool (fld obj ''autoCreateAddresses''),
       st_AutoDeleteAddresses = get_bool (fld obj ''autoDeleteAddresses'') \<rparr>"

fun decode_setting :: "json \<Rightarrow> BrokerAddressSetting option" where
  "decode_setting JNull = Some (decode_setting_fields [])"
| "decode_setting (JObj obj) =
     (if setting_fields_ok obj then Some (decode_setting_fields obj) else None)"
| "decode_setting _ = None"

end
