(* ===== verification/Broker_State.thy ===== *)
theory Broker_State
  imports Broker
begin

text \<open>
  \<open>pkg/state/broker/broker.go\<close>, the operations of \<open>BrokerState\<close>: \<open>readEntities\<close>,
  \<open>Initialize\<close>, \<open>EnsureEntities\<close> and \<open>DeleteEntities\<close>; the invariant of the state, and what
  the operations do to the cache and to the broker behind the client.
\<close>

section \<open>Operations\<close>

text \<open>The three listings that only differ in the operation and in the entity built per name.\<close>

definition read_names ::
  "'w Client \<Rightarrow> string \<Rightarrow> string \<Rightarrow> (string \<Rightarrow> BrokerEntity)
    \<Rightarrow> ('w, error + (string, BrokerEntity) gomap) prog" where
  "read_names client operation failure mk =
     bindE (doRequest client (newManagementMessage ''broker'' operation '''' [])) (\<lambda>result.
       bindp (liftO (success result)) (\<lambda>ok.
         if \<not> ok then ret (Inl (Errorf failure))
         else case Value result of
             AJson j \<Rightarrow>
               (case decode_string_lists j of
                  None \<Rightarrow> ret (Inl (Errorf ''json: cannot unmarshal''))
                | Some l \<Rightarrow> ret (Inr (fold (\<lambda>name m. gm_put name (mk name) m) (concat l) [])))
           | AString _ \<Rightarrow> ret (Inl (Errorf ''json: invalid text''))
           | _ \<Rightarrow> ret (Inl (Errorf ''unexpected value''))))"

text \<open>
  The settings of one queue: the last entry of the answer counts, and no entry leaves the
  name out.
\<close>

definition read_setting ::
  "'w Client \<Rightarrow> string \<Rightarrow> (string, BrokerEntity) gomap
    \<Rightarrow> ('w, error + (string, BrokerEntity) gomap) prog" where
  "read_setting client name m =
     bindE (doRequest client
              (newManagementMessage ''broker'' ''getAddressSettingsAsJSON'' '''' [JStr name])) (\<lambda>result.
       bindp (liftO (success result)) (\<lambda>ok.
         if \<not> ok then ret (Inl (Errorf ''error reading address setting''))
         else case Value result of
             AJson j \<Rightarrow>
               (case decode_texts j of
                  None \<Rightarrow> ret (Inl (Errorf ''json: cannot unmarshal''))
                | Some es \<Rightarrow>
                    if \<exists>e \<in> set es. decode_setting e = None
                    then ret (Inl (Errorf ''json: cannot unmarshal''))
                    else ret (Inr (fold (\<lambda>e m. gm_put name
                           (BESetting ((the (decode_setting e))\<lparr>st_Name := name\<rparr>)) m) es m)))
           | AString _ \<Rightarrow> ret (Inl (Errorf ''json: invalid text''))
           | _ \<Rightarrow> ret (Inl (Errorf ''unexpected value''))))"

fun read_settings ::
  "'w Client \<Rightarrow> string list \<Rightarrow> (string, BrokerEntity) gomap
    \<Rightarrow> ('w, error + (string, BrokerEntity) gomap) prog" where
  "read_settings client [] m = ret (Inr m)"
| "read_settings client (name # names) m =
     bindE (read_setting client name m) (\<lambda>m'. read_settings client names m')"

fun BrokerState_readEntities ::
  "BrokerEntityType \<Rightarrow> 'w BrokerState \<Rightarrow> ('w, error + (string, BrokerEntity) gomap) prog" where
  "BrokerState_readEntities BrokerQueueEntity b =
     read_names (bs_commandClient b) ''getQueueNames'' ''error reading queues''
       (\<lambda>name. BEQueue \<lparr> bq_Name = name, bq_Address = '''', bq_RoutingType = '''',
          bq_MaxConsumers = 0, bq_Durable = False, bq_AutoCreateAddress = False,
          bq_PurgeOnNoConsumers = False \<rparr>)"
| "BrokerState_readEntities BrokerAddressEntity b =
     read_names (bs_commandClient b) ''getAddressNames'' ''error reading addresses''
       (\<lambda>name. BEAddress \<lparr> ba_Name = name, ba_RoutingType = '''' \<rparr>)"
| "BrokerState_readEntities BrokerDivertEntity b =
     read_names (bs_commandClient b) ''getDivertNames'' ''error reading diverts''
       (\<lambda>name. BEDivert \<lparr> bd_Name = name, bd_RoutingName = '''', bd_Address = '''',
          bd_ForwardingAddress = '''', bd_Exclusive = False, bd_FilterString = '''',
          bd_TransformerClassName = '''' \<rparr>)"
| "BrokerState_readEntities BrokerAddressSettingEntity b =
     read_settings (bs_commandClient b)
       (case bs_entities b BrokerQueueEntity of None \<Rightarrow> [] | Some m \<Rightarrow> map fst m) []"

fun init_types ::
  "BrokerEntityType list \<Rightarrow> 'w BrokerState \<Rightarrow> ('w, error option \<times> 'w BrokerState) prog" where
  "init_types [] b = ret (None, b\<lparr>bs_initialized := True\<rparr>)"
| "init_types (t # ts) b =
     bindp (BrokerState_readEntities t b) (\<lambda>r.
       case r of
         Inl err \<Rightarrow> ret (Some err, b)
       | Inr l \<Rightarrow> init_types ts (b\<lparr>bs_entities := (bs_entities b)(t \<mapsto> l)\<rparr>))"

definition entityTypes :: "BrokerEntityType list" where
  "entityTypes =
     [BrokerQueueEntity, BrokerAddressEntity, BrokerDivertEntity, BrokerAddressSettingEntity]"

definition BrokerState_Initialize ::
  "int \<Rightarrow> 'w BrokerState \<Rightarrow> ('w, error option \<times> 'w BrokerState) prog" where
  "BrokerState_Initialize nextResync b = (\<lambda>w.
     let count = Client_ReconnectCount (bs_commandClient b) w;
         b1 = (if bs_reconnectCount b \<noteq> count then b\<lparr>bs_initialized := False\<rparr> else b)
     in if bs_initialized b1 then Some ((None, b1), w)
        else init_types entityTypes
               (b1\<lparr>bs_nextResync := nextResync, bs_reconnectCount := count\<rparr>) w)"

definition maxOrder :: nat where
  "maxOrder = 2"

abbreviation bs_lookup :: "'w BrokerState \<Rightarrow> BrokerEntity \<Rightarrow> BrokerEntity option" where
  "bs_lookup b e \<equiv> lookup2 (bs_entities b) (BrokerEntity_Type e) (BrokerEntity_GetName e)"

definition BrokerState_EnsureEntities ::
  "'w sched \<Rightarrow> BrokerEntity list \<Rightarrow> 'w BrokerState \<Rightarrow> ('w, error option \<times> 'w BrokerState) prog" where
  "BrokerState_EnsureEntities sched entities b =
     (if \<not> bs_initialized b then ret (Some NotInitializedError, b)
      else case to_create BrokerEntity_Type BrokerEntity_GetName BrokerEntity_Equals
                  (bs_entities b) entities of
          Inl (existing, entity) \<Rightarrow>
            ret (Some (Errorf (''broker entity '' @ BrokerEntity_GetName existing
                   @ '' was updated - updates are not supported'')), b)
        | Inr toCreate \<Rightarrow>
            bindp (run_orders sched (BrokerEntity_Create (bs_commandClient b))
                     (\<lambda>order e. BrokerEntity_Order e = order \<and> bs_lookup b e = None)
                     [0..<maxOrder] toCreate) (\<lambda>(err, fin).
            bindp (if isConnectionError err then BrokerState_Reset b else ret b) (\<lambda>b'.
            bindp (liftO (put_all BrokerEntity_Type BrokerEntity_GetName fin (bs_entities b'))) (\<lambda>s.
            ret (err, b'\<lparr>bs_entities := s\<rparr>)))))"

definition BrokerState_DeleteEntities ::
  "'w sched \<Rightarrow> BrokerEntity list \<Rightarrow> 'w BrokerState \<Rightarrow> ('w, error option \<times> 'w BrokerState) prog" where
  "BrokerState_DeleteEntities sched entities b =
     (if \<not> bs_initialized b then ret (Some NotInitializedError, b)
      else bindp (run_orders sched (BrokerEntity_Delete (bs_commandClient b))
                    (\<lambda>order e. BrokerEntity_Order e = order \<and> bs_lookup b e \<noteq> None)
                    (rev [0..<maxOrder]) entities) (\<lambda>(err, fin).
           bindp (if isConnectionError err then BrokerState_Reset b else ret b) (\<lambda>b'.
           ret (err, b'\<lparr>bs_entities :=
             del_all BrokerEntity_Type BrokerEntity_GetName fin (bs_entities b')\<rparr>))))"

section \<open>The invariant\<close>

text \<open>
  Every cached entity is filed under its type and name, and an initialized state has a name map
  for every type, so that writing back a created entity never hits a nil map.
\<close>

definition broker_ok :: "'w BrokerState \<Rightarrow> bool" where
  "broker_ok b \<longleftrightarrow>
     store_ok BrokerEntity_Type BrokerEntity_GetName (bs_entities b) \<and>
     (bs_initialized b \<longrightarrow> dom (bs_entities b) = UNIV)"

lemma UNIV_entityTypes: "set entityTypes = UNIV"
proof -
  have "t \<in> set entityTypes" for t by (cases t) (auto simp: entityTypes_def)
  then show ?thesis by blast
qed

lemma Reset_result:
  "BrokerState_Reset b w = Some (b', w') \<Longrightarrow> b' = b\<lparr>bs_initialized := False\<rparr>"
  by (auto simp: BrokerState_Reset_def split: if_splits)

lemma Reset_total: "\<exists>b' w'. BrokerState_Reset b w = Some (b', w')"
  by (simp add: BrokerState_Reset_def)

lemma NewBrokerState_ok: "NewBrokerState c h p w = Some (b, w') \<Longrightarrow> broker_ok b"
  by (auto simp: NewBrokerState_def broker_ok_def store_ok_def Let_def)

lemma Reset_ok: "broker_ok b \<Longrightarrow> BrokerState_Reset b w = Some (b', w') \<Longrightarrow> broker_ok b'"
  by (auto simp: broker_ok_def dest!: Reset_result)

text \<open>One inversion rule for each of the two cache operations carries the proofs below.\<close>

lemma Ensure_cases:
  assumes "BrokerState_EnsureEntities sched es b w = Some ((err, b'), w')"
  obtains (uninit) "\<not> bs_initialized b" "err = Some NotInitializedError" "b' = b" "w' = w"
  | (conflict) x e where "bs_initialized b"
      "to_create BrokerEntity_Type BrokerEntity_GetName BrokerEntity_Equals (bs_entities b) es = Inl (x, e)"
      "err \<noteq> None" "b' = b" "w' = w"
  | (run) l fin w1 s where "bs_initialized b"
      "to_create BrokerEntity_Type BrokerEntity_GetName BrokerEntity_Equals (bs_entities b) es = Inr l"
      "run_orders sched (BrokerEntity_Create (bs_commandClient b))
         (\<lambda>order e. BrokerEntity_Order e = order \<and> bs_lookup b e = None) [0..<maxOrder] l w
         = Some ((err, fin), w1)"
      "put_all BrokerEntity_Type BrokerEntity_GetName fin (bs_entities b) = Some s"
      "b' = b\<lparr>bs_initialized := (err = None), bs_entities := s\<rparr>"
      "w' = (if err = None then w1
             else Client_Start (bs_commandClient b) (Client_Stop (bs_commandClient b) w1))"
proof (cases "bs_initialized b")
  case False
  with assms show ?thesis by (intro uninit) (simp_all add: BrokerState_EnsureEntities_def)
next
  case init: True
  show ?thesis
  proof (cases "to_create BrokerEntity_Type BrokerEntity_GetName BrokerEntity_Equals (bs_entities b) es")
    case (Inl c)
    obtain x e where "c = (x, e)" by (cases c)
    with init assms Inl show ?thesis
      by (intro conflict [of x e]) (auto simp: BrokerState_EnsureEntities_def)
  next
    case (Inr l)
    from assms init Inr obtain fin w1 where
      r: "run_orders sched (BrokerEntity_Create (bs_commandClient b))
         (\<lambda>order e. BrokerEntity_Order e = order \<and> bs_lookup b e = None) [0..<maxOrder] l w
         = Some ((err, fin), w1)" and
      k: "bindp (if isConnectionError err then BrokerState_Reset b else ret b) (\<lambda>b'.
            bindp (liftO (put_all BrokerEntity_Type BrokerEntity_GetName fin (bs_entities b'))) (\<lambda>s.
            ret (err, b'\<lparr>bs_entities := s\<rparr>))) w1 = Some ((err, b'), w')"
      by (auto simp: BrokerState_EnsureEntities_def bindp_eq_Some)
    from k init have "\<exists>s. put_all BrokerEntity_Type BrokerEntity_GetName fin (bs_entities b) = Some s \<and>
        b' = b\<lparr>bs_initialized := (err = None), bs_entities := s\<rparr> \<and>
        w' = (if err = None then w1
              else Client_Start (bs_commandClient b) (Client_Stop (bs_commandClient b) w1))"
      by (cases err)
        (auto simp: bindp_eq_Some isConnectionError_def BrokerState_Reset_def liftO_def
          split: option.splits)
    with run [OF init Inr r] show ?thesis by blast
  qed
qed

lemma Delete_cases:
  assumes "BrokerState_DeleteEntities sched es b w = Some ((err, b'), w')"
  obtains (uninit) "\<not> bs_initialized b" "err = Some NotInitializedError" "b' = b" "w' = w"
  | (run) fin w1 where "bs_initialized b"
      "run_orders sched (BrokerEntity_Delete (bs_commandClient b))
         (\<lambda>order e. BrokerEntity_Order e = order \<and> bs_lookup b e \<noteq> None) (rev [0..<maxOrder]) es w
         = Some ((err, fin), w1)"
      "b' = b\<lparr>bs_initialized := (err = None),
              bs_entities := del_all BrokerEntity_Type BrokerEntity_GetName fin (bs_entities b)\<rparr>"
      "w' = (if err = None then w1
             else Client_Start (bs_commandClient b) (Client_Stop (bs_commandClient b) w1))"
proof (cases "bs_initialized b")
  case False
  with assms show ?thesis by (intro uninit) (simp_all add: BrokerState_DeleteEntities_def)
next
  case init: True
  from assms init obtain fin w1 where
    r: "run_orders sched (BrokerEntity_Delete (bs_commandClient b))
       (\<lambda>order e. BrokerEntity_Order e = order \<and> bs_lookup b e \<noteq> None) (rev [0..<maxOrder]) es w
       = Some ((err, fin), w1)" and
    k: "bindp (if isConnectionError err then BrokerState_Reset b else ret b) (\<lambda>b'.
          ret (err, b'\<lparr>bs_entities :=
             del_all BrokerEntity_Type BrokerEntity_GetName fin (bs_entities b')\<rparr>)) w1
        = Some ((err, b'), w')"
    by (auto simp: BrokerState_DeleteEntities_def bindp_eq_Some)
  from k init have "b' = b\<lparr>bs_initialized := (err = None),
      bs_entities := del_all BrokerEntity_Type BrokerEntity_GetName fin (bs_entities b)\<rparr> \<and>
      w' = (if err = None then w1
            else Client_Start (bs_commandClient b) (Client_Stop (bs_commandClient b) w1))"
    by (cases err) (auto simp: bindp_eq_Some isConnectionError_def BrokerState_Reset_def)
  with run [OF init r] show ?thesis by blast
qed

lemma Order_by_Type:
  "BrokerEntity_Type x = BrokerEntity_Type e \<Longrightarrow> BrokerEntity_Order x = BrokerEntity_Order e"
  by (cases x; cases e) auto

lemma orders_all: "e \<in> set l \<Longrightarrow> \<exists>n \<in> set [0..<maxOrder]. BrokerEntity_Order e = n"
  by (cases e) (auto simp: maxOrder_def)

lemma Ensure_fin:
  assumes "to_create BrokerEntity_Type BrokerEntity_GetName BrokerEntity_Equals (bs_entities b) es = Inr l"
    and "run_orders sched (BrokerEntity_Create (bs_commandClient b))
         (\<lambda>order e. BrokerEntity_Order e = order \<and> bs_lookup b e = None) [0..<maxOrder] l w
         = Some ((err, fin), w1)"
  shows "set fin \<subseteq> set l" and "err = None \<Longrightarrow> set fin = set l"
    and "\<forall>e \<in> set l. e \<in> set es \<and> bs_lookup b e = None"
proof -
  show l: "\<forall>e \<in> set l. e \<in> set es \<and> bs_lookup b e = None"
    using be.to_create_fresh [OF assms(1)] by blast
  show sub: "set fin \<subseteq> set l" using run_orders_subset [OF assms(2)] by auto
  show "set fin = set l" if "err = None"
  proof -
    have "set l \<subseteq> {e \<in> set l. \<exists>n \<in> set [0..<maxOrder]. BrokerEntity_Order e = n \<and> bs_lookup b e = None}"
      using orders_all [of _ l] l by auto
    also have "\<dots> \<subseteq> set fin"
      using run_orders_all [OF assms(2) [unfolded that]] .
    finally show ?thesis using sub by blast
  qed
qed

section \<open>What the operations do to the cache\<close>

lemma Ensure_keeps:
  assumes "BrokerState_EnsureEntities sched es b w = Some ((err, b'), w')"
    and "lookup2 (bs_entities b) t n = Some x"
  shows "lookup2 (bs_entities b') t n = Some x"
  using assms(1)
proof (cases rule: Ensure_cases)
  case (run l fin w1 s)
  note f = Ensure_fin [OF run(2,3)]
  have "\<forall>e \<in> set fin. bs_lookup b e = None" using f(1,3) by blast
  from be.put_fresh_keeps [OF this run(4) assms(2)] run(5) show ?thesis by simp
qed (use assms(2) in simp_all)

lemma Ensure_asked:
  assumes "BrokerState_EnsureEntities sched es b w = Some ((err, b'), w')"
    and "lookup2 (bs_entities b') t n = Some x"
  shows "lookup2 (bs_entities b) t n = Some x \<or> x \<in> set es"
  using assms(1)
proof (cases rule: Ensure_cases)
  case (run l fin w1 s)
  note f = Ensure_fin [OF run(2,3)]
  show ?thesis
    using be.put_only_asked [OF run(4), of t n x] assms(2) run(5) f(1,3) by auto
qed (use assms(2) in simp_all)

lemma Ensure_present:
  assumes "BrokerState_EnsureEntities sched es b w = Some ((None, b'), w')" and "e \<in> set es"
  shows "\<exists>x. bs_lookup b' e = Some x \<and> BrokerEntity_Equals x e"
  using assms(1)
proof (cases rule: Ensure_cases)
  case (run l fin w1 s)
  note f = Ensure_fin [OF run(2,3)]
  show ?thesis
  proof (cases "bs_lookup b e")
    case None
    then have "e \<in> set fin" using assms(2) f(2) be.to_create_Inr [OF run(2)] by auto
    from put_all_mem [OF run(4) this] run(5) show ?thesis by (auto simp: BrokerEntity_Equals_def)
  next
    case (Some x)
    then have "BrokerEntity_Equals x e"
      using be.to_create_conflict_iff [of "bs_entities b" es] run(2) assms(2) by fastforce
    with Ensure_keeps [OF assms(1) Some] show ?thesis by blast
  qed
qed simp_all

lemma Ensure_initialized:
  "BrokerState_EnsureEntities sched es b w = Some ((None, b'), w') \<Longrightarrow> bs_initialized b \<and> bs_initialized b'"
  by (auto elim: Ensure_cases)

text \<open>When \<open>EnsureEntities\<close> reports success, every requested entity is in the
  cache of the broker, everything cached before is still there unchanged, and nothing else has
  been added.\<close>

theorem EnsureEntities_success:
  assumes "BrokerState_EnsureEntities sched es b w = Some ((None, b'), w')"
  shows "(\<forall>e \<in> set es. \<exists>x. bs_lookup b' e = Some x \<and> BrokerEntity_Equals x e) \<and>
    (\<forall>t n x. lookup2 (bs_entities b) t n = Some x \<longrightarrow> lookup2 (bs_entities b') t n = Some x) \<and>
    (\<forall>t n x. lookup2 (bs_entities b') t n = Some x \<longrightarrow>
       lookup2 (bs_entities b) t n = Some x \<or> x \<in> set es)"
  using Ensure_present [OF assms] Ensure_keeps [OF assms] Ensure_asked [OF assms] by blast

text \<open>A second \<open>EnsureEntities\<close> for the same entities is a no-op: it sends no
  request, whatever the world and the schedule, and leaves the state as it is.\<close>

theorem EnsureEntities_idempotent:
  assumes "BrokerState_EnsureEntities sched es b w = Some ((None, b'), w')"
  shows "BrokerState_EnsureEntities sched' es b' w2 = Some ((None, b'), w2)"
  using assms
proof (cases rule: Ensure_cases)
  case (run l fin w1 s)
  note f = Ensure_fin [OF run(2,3)]
  have "to_create BrokerEntity_Type BrokerEntity_GetName BrokerEntity_Equals s es = Inr []"
    by (rule be.put_settled [OF _ run(2) run(4)])
      (use f in \<open>auto simp: BrokerEntity_Equals_def\<close>)
  moreover have "run_orders sched' (BrokerEntity_Create c) sel [0..<maxOrder] [] = ret (None, [])"
    for c :: "'a Client" and sel by (rule run_orders_none) simp
  ultimately show ?thesis using run(5)
    by (simp add: BrokerState_EnsureEntities_def isConnectionError_def liftO_def)
qed simp_all

lemma maxOrder_upt: "[0..<maxOrder] = [0, 1]" "rev [0..<maxOrder] = [1, 0]"
  by (simp_all add: maxOrder_def upt_rec)

text \<open>C18 (safety): \<open>EnsureEntities\<close> creates a queue only after the entities it depends on. If a
  queue has become known to the cache during the call, then every requested address, divert and
  address setting is known too, even when the call as a whole fails.\<close>

theorem EnsureEntities_order:
  assumes "BrokerState_EnsureEntities sched es b w = Some ((err, b'), w')"
    and "bs_lookup b (BEQueue q) = None" and "bs_lookup b' (BEQueue q) \<noteq> None"
    and "e \<in> set es" and "BrokerEntity_Order e = 0"
  shows "bs_lookup b' e \<noteq> None"
  using assms(1)
proof (cases rule: Ensure_cases)
  case (run l fin w1 s)
  note f = Ensure_fin [OF run(2,3)]
  show ?thesis
  proof (cases "bs_lookup b e")
    case None
    then have e: "e \<in> set l" using assms(4) be.to_create_Inr [OF run(2)] by auto
    obtain x where x: "bs_lookup b' (BEQueue q) = Some x" using assms(3) by auto
    have "x \<in> set fin" using be.put_only_asked [OF run(4)] x run(5) assms(2) by simp
    moreover have "BrokerEntity_Order x = 1"
    proof -
      have "find (\<lambda>e. BrokerEntity_Type e = BrokerQueueEntity \<and> BrokerEntity_GetName e = bq_Name q) (rev fin) = Some x"
        using lookup2_put_all [OF run(4), of BrokerQueueEntity "bq_Name q"] x run(5) assms(2)
        by (auto split: option.splits)
      then have "BrokerEntity_Type x = BrokerQueueEntity" by (auto simp: find_Some_iff)
      then show ?thesis by (cases x) auto
    qed
    ultimately have "{y \<in> set l. BrokerEntity_Order y = 0 \<and> bs_lookup b y = None} \<subseteq> set fin"
      by (intro run_orders_second [OF run(3) [unfolded maxOrder_upt]]) auto
    then have "e \<in> set fin" using e None assms(5) by blast
    from put_all_mem [OF run(4) this] run(5) show ?thesis by auto
  next
    case (Some y)
    from Ensure_keeps [OF assms(1) Some] show ?thesis by simp
  qed
qed (use assms in simp_all)

section \<open>Deletion\<close>

lemma Delete_fin:
  assumes "run_orders sched (BrokerEntity_Delete (bs_commandClient b))
       (\<lambda>order e. BrokerEntity_Order e = order \<and> bs_lookup b e \<noteq> None) (rev [0..<maxOrder]) es w
       = Some ((err, fin), w1)"
  shows "set fin \<subseteq> {e \<in> set es. bs_lookup b e \<noteq> None}"
    and "err = None \<Longrightarrow> set fin = {e \<in> set es. bs_lookup b e \<noteq> None}"
proof -
  show sub: "set fin \<subseteq> {e \<in> set es. bs_lookup b e \<noteq> None}"
    using run_orders_subset [OF assms] by auto
  show "set fin = {e \<in> set es. bs_lookup b e \<noteq> None}" if "err = None"
  proof -
    have "{e \<in> set es. \<exists>n \<in> set (rev [0..<maxOrder]). BrokerEntity_Order e = n \<and> bs_lookup b e \<noteq> None} \<subseteq> set fin"
      using run_orders_all [OF assms [unfolded that]] .
    then show ?thesis using sub orders_all [of _ es] by auto
  qed
qed

text \<open>When \<open>DeleteEntities\<close> reports success, none of the given entities is in
  the cache any more and every other cached entity is untouched.\<close>

theorem DeleteEntities_success:
  assumes "BrokerState_DeleteEntities sched es b w = Some ((None, b'), w')"
  shows "lookup2 (bs_entities b') t n =
    (if \<exists>e \<in> set es. BrokerEntity_Type e = t \<and> BrokerEntity_GetName e = n then None
     else lookup2 (bs_entities b) t n)"
  using assms
proof (cases rule: Delete_cases)
  case (run fin w1)
  note f = Delete_fin [OF run(2)]
  have e: "lookup2 (bs_entities b') t n =
      (if \<exists>e \<in> set fin. BrokerEntity_Type e = t \<and> BrokerEntity_GetName e = n then None
       else lookup2 (bs_entities b) t n)"
    using run(3) by (simp add: lookup2_del_all)
  have "set fin = {e \<in> set es. bs_lookup b e \<noteq> None}" using f(2) by simp
  with e show ?thesis by auto
qed simp

text \<open>The deletion order is the reverse of the creation order. If an entity of order 0
  has left the cache during \<open>DeleteEntities\<close>, then every queue that was to be deleted has left it
  too, so an address is never deleted while a queue of the same call is still in place.\<close>

theorem DeleteEntities_order:
  assumes "BrokerState_DeleteEntities sched es b w = Some ((err, b'), w')"
    and "BrokerEntity_Order e = 0" and "bs_lookup b e \<noteq> None" and "bs_lookup b' e = None"
    and "BEQueue q \<in> set es"
  shows "bs_lookup b' (BEQueue q) = None"
  using assms(1)
proof (cases rule: Delete_cases)
  case (run fin w1)
  note f = Delete_fin [OF run(2)]
  have look: "lookup2 (bs_entities b') t n =
      (if \<exists>e \<in> set fin. BrokerEntity_Type e = t \<and> BrokerEntity_GetName e = n then None
       else lookup2 (bs_entities b) t n)" for t n
    using run(3) by (simp add: lookup2_del_all)
  obtain x where x: "x \<in> set fin" "BrokerEntity_Type x = BrokerEntity_Type e"
    using look [of "BrokerEntity_Type e" "BrokerEntity_GetName e"] assms(3,4) by (auto split: if_splits)
  then have "BrokerEntity_Order x = 0" using assms(2) Order_by_Type by metis
  then have all: "{y \<in> set es. BrokerEntity_Order y = 1 \<and> bs_lookup b y \<noteq> None} \<subseteq> set fin"
    by (intro run_orders_second [OF run(2) [unfolded maxOrder_upt(2)] x(1)]) auto
  show ?thesis
  proof (cases "bs_lookup b (BEQueue q)")
    case None
    then show ?thesis using look [of BrokerQueueEntity "bq_Name q"] by simp
  next
    case Some
    then have "BEQueue q \<in> set fin" using all assms(5) by auto
    then show ?thesis using look [of BrokerQueueEntity "bq_Name q"] by force
  qed
qed (use assms in simp)

section \<open>No panic, and the invariant is kept\<close>

text \<open>
  What is assumed of the client: a request returns, and the success flag of an answer is a
  boolean, as the management protocol has it.
\<close>

definition client_total :: "'w Client \<Rightarrow> bool" where
  "client_total c \<longleftrightarrow>
     (\<forall>m w. \<exists>r w'. Client_RequestWithTimeout c m w = Some (r, w') \<and>
        (\<forall>resp. r = Inr resp \<longrightarrow> success resp \<noteq> None))"

lemma client_totalE:
  assumes "client_total c"
  obtains (err) e w' where "Client_RequestWithTimeout c m w = Some (Inl e, w')"
  | (resp) r ok w' where "Client_RequestWithTimeout c m w = Some (Inr r, w')" "success r = Some ok"
proof -
  from assms obtain r w' where "Client_RequestWithTimeout c m w = Some (r, w')"
    "\<forall>resp. r = Inr resp \<longrightarrow> success resp \<noteq> None"
    unfolding client_total_def by blast
  with that show thesis by (cases r) auto
qed

lemma request_ok_total: "client_total c \<Longrightarrow> request_ok c m f w \<noteq> None"
  by (erule client_totalE [of c m w]) (auto simp: request_ok_def doRequest_def bindp_def liftO_def)

lemma Create_total: "client_total c \<Longrightarrow> BrokerEntity_Create c e w \<noteq> None"
  by (cases e)
    (simp_all add: request_ok_total BrokerQueue_Create_def BrokerAddress_Create_def
      BrokerDivert_Create_def BrokerAddressSetting_Create_def)

lemma Delete_total: "client_total c \<Longrightarrow> BrokerEntity_Delete c e w \<noteq> None"
  by (cases e)
    (simp_all add: request_ok_total BrokerQueue_Delete_def BrokerAddress_Delete_def
      BrokerDivert_Delete_def BrokerAddressSetting_Delete_def)

lemma read_names_total: "client_total c \<Longrightarrow> read_names c op f mk w \<noteq> None"
  by (erule client_totalE [of c "newManagementMessage ''broker'' op '''' []" w])
    (auto simp: read_names_def bindE_def doRequest_def bindp_def liftO_def
      split: avalue.splits option.splits)

lemma read_setting_total: "client_total c \<Longrightarrow> read_setting c n m w \<noteq> None"
  by (erule client_totalE
        [of c "newManagementMessage ''broker'' ''getAddressSettingsAsJSON'' '''' [JStr n]" w])
    (auto simp: read_setting_def bindE_def doRequest_def bindp_def liftO_def
      split: avalue.splits option.splits)

lemma read_settings_total: "client_total c \<Longrightarrow> read_settings c ns m w \<noteq> None"
proof (induction ns arbitrary: m w)
  case (Cons n ns)
  obtain r w' where "read_setting c n m w = Some (r, w')"
    using prog_returns [OF read_setting_total [OF Cons.prems]] by blast
  with Cons show ?case by (cases r) (auto simp: bindE_def bindp_def)
qed simp

lemma readEntities_total:
  "client_total (bs_commandClient b) \<Longrightarrow> BrokerState_readEntities t b w \<noteq> None"
  by (cases t) (simp_all add: read_names_total read_settings_total)

text \<open>The maps that are read are well formed: each entity is listed under its own name.\<close>

definition entries_ok :: "BrokerEntityType \<Rightarrow> (string, BrokerEntity) gomap \<Rightarrow> bool" where
  "entries_ok t m \<longleftrightarrow> gm_ok m \<and> (\<forall>(n, e) \<in> set m. BrokerEntity_Type e = t \<and> BrokerEntity_GetName e = n)"

lemma entries_ok_Nil [simp]: "entries_ok t []"
  by (simp add: entries_ok_def)

lemma entries_ok_put:
  "entries_ok t m \<Longrightarrow> BrokerEntity_Type e = t \<Longrightarrow> BrokerEntity_GetName e = n \<Longrightarrow> entries_ok t (gm_put n e m)"
  by (fastforce simp: entries_ok_def dest: gm_put_entries)

lemma fold_put_ok:
  "entries_ok t m \<Longrightarrow> (\<And>x. BrokerEntity_Type (g x) = t \<and> BrokerEntity_GetName (g x) = k x) \<Longrightarrow>
     entries_ok t (fold (\<lambda>x m. gm_put (k x) (g x) m) xs m)"
  by (induction xs arbitrary: m) (auto intro: entries_ok_put)

lemma read_names_ok:
  assumes "read_names c op f mk w = Some (Inr m, w')"
    and "\<And>n. BrokerEntity_Type (mk n) = t \<and> BrokerEntity_GetName (mk n) = n"
  shows "entries_ok t m"
proof -
  have "\<exists>xs. m = fold (\<lambda>n m. gm_put n (mk n) m) xs []"
    using assms(1) by (auto simp: read_names_def prog_simps split: if_splits avalue.splits option.splits)
  then show ?thesis
    using fold_put_ok [OF entries_ok_Nil, of mk t "\<lambda>n. n"] assms(2) by blast
qed

lemma read_setting_ok:
  assumes "read_setting c n m w = Some (Inr m', w')" and "entries_ok BrokerAddressSettingEntity m"
  shows "entries_ok BrokerAddressSettingEntity m'"
proof -
  have "\<exists>es. m' = fold (\<lambda>e m. gm_put n (BESetting ((the (decode_setting e))\<lparr>st_Name := n\<rparr>)) m) es m"
    using assms(1) by (auto simp: read_setting_def prog_simps split: if_splits avalue.splits option.splits)
  then show ?thesis
    using fold_put_ok [OF assms(2), of "\<lambda>e. BESetting ((the (decode_setting e))\<lparr>st_Name := n\<rparr>)" "\<lambda>_. n"]
    by auto
qed

lemma read_settings_ok:
  "read_settings c ns m w = Some (Inr m', w') \<Longrightarrow> entries_ok BrokerAddressSettingEntity m \<Longrightarrow>
     entries_ok BrokerAddressSettingEntity m'"
proof (induction ns arbitrary: m w)
  case (Cons n ns)
  from Cons.prems(1) obtain m1 w1 where 1: "read_setting c n m w = Some (Inr m1, w1)"
    and 2: "read_settings c ns m1 w1 = Some (Inr m', w')"
    by (auto simp: bindE_eq_Inr)
  show ?case by (rule Cons.IH [OF 2 read_setting_ok [OF 1 Cons.prems(2)]])
qed simp

lemma readEntities_ok:
  assumes "BrokerState_readEntities t b w = Some (Inr m, w')"
  shows "entries_ok t m"
proof (cases t)
  case BrokerAddressSettingEntity
  with assms read_settings_ok [OF _ entries_ok_Nil] show ?thesis by simp
qed (use assms in \<open>auto intro: read_names_ok\<close>)

lemma init_types_ok:
  "init_types ts b w = Some ((err, b'), w') \<Longrightarrow>
     store_ok BrokerEntity_Type BrokerEntity_GetName (bs_entities b) \<Longrightarrow>
     store_ok BrokerEntity_Type BrokerEntity_GetName (bs_entities b') \<and>
     (err = None \<longrightarrow> set ts \<union> dom (bs_entities b) = dom (bs_entities b') \<and> bs_initialized b') \<and>
     (err \<noteq> None \<longrightarrow> bs_initialized b' = bs_initialized b)"
proof (induction ts arbitrary: b w)
  case (Cons t ts)
  from Cons.prems(1) obtain r w1 where r: "BrokerState_readEntities t b w = Some (r, w1)"
    and k: "(case r of Inl err \<Rightarrow> ret (Some err, b)
       | Inr l \<Rightarrow> init_types ts (b\<lparr>bs_entities := (bs_entities b)(t \<mapsto> l)\<rparr>)) w1 = Some ((err, b'), w')"
    by (auto simp: bindp_eq_Some)
  show ?case
  proof (cases r)
    case (Inl e)
    with k Cons.prems(2) show ?thesis by auto
  next
    case (Inr l)
    have "store_ok BrokerEntity_Type BrokerEntity_GetName ((bs_entities b)(t \<mapsto> l))"
      using Cons.prems(2) readEntities_ok [of t b w l w1] r Inr
      by (auto simp: store_ok_def entries_ok_def)
    then have "store_ok BrokerEntity_Type BrokerEntity_GetName
        (bs_entities (b\<lparr>bs_entities := (bs_entities b)(t \<mapsto> l)\<rparr>))" by simp
    from Cons.IH [OF _ this, of w1] k Inr show ?thesis by (simp del: fun_upd_apply)
  qed
qed auto

lemma init_types_total:
  "client_total (bs_commandClient b) \<Longrightarrow> init_types ts b w \<noteq> None"
proof (induction ts arbitrary: b w)
  case (Cons t ts)
  obtain r w' where "BrokerState_readEntities t b w = Some (r, w')"
    using prog_returns [OF readEntities_total [OF Cons.prems]] by blast
  with Cons show ?case by (cases r) (auto simp: bindp_def)
qed simp

lemma Initialize_run:
  "BrokerState_Initialize nr b w =
     (if bs_initialized b \<and> bs_reconnectCount b = Client_ReconnectCount (bs_commandClient b) w
      then Some ((None, b), w)
      else init_types entityTypes
             (b\<lparr>bs_initialized := False, bs_nextResync := nr,
                bs_reconnectCount := Client_ReconnectCount (bs_commandClient b) w\<rparr>) w)"
  by (cases b) (auto simp: BrokerState_Initialize_def Let_def)

lemma Initialize_ok:
  assumes "broker_ok b" and "BrokerState_Initialize nr b w = Some ((err, b'), w')"
  shows "broker_ok b' \<and> (err = None \<longleftrightarrow> bs_initialized b')"
proof (cases "bs_initialized b \<and> bs_reconnectCount b = Client_ReconnectCount (bs_commandClient b) w")
  case True
  with assms show ?thesis by (simp add: Initialize_run)
next
  case False
  define b2 where "b2 = b\<lparr>bs_initialized := False, bs_nextResync := nr,
    bs_reconnectCount := Client_ReconnectCount (bs_commandClient b) w\<rparr>"
  from False assms(2) have i: "init_types entityTypes b2 w = Some ((err, b'), w')"
    by (simp add: Initialize_run b2_def split: if_splits)
  have "store_ok BrokerEntity_Type BrokerEntity_GetName (bs_entities b2)"
    using assms(1) by (simp add: b2_def broker_ok_def)
  from init_types_ok [OF i this] show ?thesis
    by (cases err) (auto simp: broker_ok_def UNIV_entityTypes b2_def)
qed

lemma Initialize_total:
  "client_total (bs_commandClient b) \<Longrightarrow> BrokerState_Initialize nr b w \<noteq> None"
  unfolding Initialize_run by (split if_split) (intro conjI impI init_types_total, simp_all)

lemma Ensure_ok:
  assumes "broker_ok b" and "BrokerState_EnsureEntities sched es b w = Some ((err, b'), w')"
  shows "broker_ok b'"
  using assms(2)
proof (cases rule: Ensure_cases)
  case (run l fin w1 s)
  then show ?thesis
    using assms(1) store_ok_put [OF _ run(4)] dom_put_all [OF run(4)] by (auto simp: broker_ok_def)
qed (use assms(1) in simp_all)

lemma Delete_ok:
  assumes "broker_ok b" and "BrokerState_DeleteEntities sched es b w = Some ((err, b'), w')"
  shows "broker_ok b'"
  using assms(2)
proof (cases rule: Delete_cases)
  case (run fin w1)
  then show ?thesis using assms(1) by (auto simp: broker_ok_def store_ok_del)
qed (use assms(1) in simp_all)

lemma Ensure_total:
  assumes "broker_ok b" and "client_total (bs_commandClient b)"
  shows "BrokerState_EnsureEntities sched es b w \<noteq> None"
proof (cases "bs_initialized b")
  case init: True
  show ?thesis
  proof (cases "to_create BrokerEntity_Type BrokerEntity_GetName BrokerEntity_Equals (bs_entities b) es")
    case (Inl c)
    with init show ?thesis by (cases c) (simp add: BrokerState_EnsureEntities_def)
  next
    case (Inr l)
    obtain err fin w1 where r: "run_orders sched (BrokerEntity_Create (bs_commandClient b))
         (\<lambda>order e. BrokerEntity_Order e = order \<and> bs_lookup b e = None) [0..<maxOrder] l w
         = Some ((err, fin), w1)"
      using prog_returns2 [OF run_orders_total [of "BrokerEntity_Create (bs_commandClient b)",
        OF Create_total [OF assms(2)]]] by blast
    obtain s where "put_all BrokerEntity_Type BrokerEntity_GetName fin (bs_entities b) = Some s"
      using put_all_defined [of BrokerEntity_Type fin "bs_entities b" BrokerEntity_GetName]
        assms(1) init by (auto simp: broker_ok_def)
    with init Inr r show ?thesis
      by (simp add: BrokerState_EnsureEntities_def bindp_def BrokerState_Reset_def liftO_def)
  qed
qed (simp add: BrokerState_EnsureEntities_def)

lemma Delete_total_state:
  assumes "client_total (bs_commandClient b)"
  shows "BrokerState_DeleteEntities sched es b w \<noteq> None"
proof -
  obtain r w1 where "run_orders sched (BrokerEntity_Delete (bs_commandClient b))
       (\<lambda>order e. BrokerEntity_Order e = order \<and> bs_lookup b e \<noteq> None) (rev [0..<maxOrder]) es w
       = Some (r, w1)"
    using prog_returns [OF run_orders_total [of "BrokerEntity_Delete (bs_commandClient b)",
      OF Delete_total [OF assms]]] by blast
  then show ?thesis
    by (auto simp: BrokerState_DeleteEntities_def bindp_def BrokerState_Reset_def split: prod.splits)
qed

text \<open>C28 (invariant): every operation of a broker state returns without a panic (in particular no
  created entity is written into a missing name map) and keeps the invariant: each entity is cached
  under its own type and name, and an initialized state has a name map for every entity type.\<close>

theorem BrokerState_invariant:
  assumes "broker_ok b" and "client_total (bs_commandClient b)"
  shows "(\<exists>err b' w'. BrokerState_Initialize nr b w = Some ((err, b'), w') \<and> broker_ok b') \<and>
    (\<exists>err b' w'. BrokerState_EnsureEntities sched es b w = Some ((err, b'), w') \<and> broker_ok b') \<and>
    (\<exists>err b' w'. BrokerState_DeleteEntities sched es b w = Some ((err, b'), w') \<and> broker_ok b') \<and>
    (\<exists>b' w'. BrokerState_Reset b w = Some (b', w') \<and> broker_ok b')"
proof (intro conjI)
  show "\<exists>err b' w'. BrokerState_Initialize nr b w = Some ((err, b'), w') \<and> broker_ok b'"
    using prog_returns2 [OF Initialize_total [OF assms(2)]] Initialize_ok [OF assms(1)] by blast
  show "\<exists>err b' w'. BrokerState_EnsureEntities sched es b w = Some ((err, b'), w') \<and> broker_ok b'"
    using prog_returns2 [OF Ensure_total [OF assms]] Ensure_ok [OF assms(1)] by blast
  show "\<exists>err b' w'. BrokerState_DeleteEntities sched es b w = Some ((err, b'), w') \<and> broker_ok b'"
    using prog_returns2 [OF Delete_total_state [OF assms(2)]] Delete_ok [OF assms(1)] by blast
  show "\<exists>b' w'. BrokerState_Reset b w = Some (b', w') \<and> broker_ok b'"
    using Reset_total [of b w] Reset_ok [OF assms(1)] by blast
qed

section \<open>The cache and the broker\<close>

text \<open>
  The broker is outside the repository. \<open>remote w\<close> is the set of entities it holds in world
  \<open>w\<close>; what the code relies on is the documented effect of the management operations: a
  successful creation adds the entity, a failed one removes nothing (it may have taken effect
  before the answer was lost), a successful deletion removes the entity and a failed one removes
  at most that entity, and reconnecting changes nothing.
\<close>

definition entity_key :: "BrokerEntity \<Rightarrow> BrokerEntityType \<times> string" where
  "entity_key e = (BrokerEntity_Type e, BrokerEntity_GetName e)"

definition broker_node ::
  "'w Client \<Rightarrow> ('w \<Rightarrow> (BrokerEntityType \<times> string) set) \<Rightarrow> bool" where
  "broker_node c remote \<longleftrightarrow>
     (\<forall>e r w w'. BrokerEntity_Create c e w = Some (r, w') \<longrightarrow>
        remote w \<subseteq> remote w' \<and> (r = None \<longrightarrow> entity_key e \<in> remote w')) \<and>
     (\<forall>e r w w'. BrokerEntity_Delete c e w = Some (r, w') \<longrightarrow>
        remote w' \<subseteq> remote w \<and> remote w - {entity_key e} \<subseteq> remote w' \<and>
        (r = None \<longrightarrow> entity_key e \<notin> remote w')) \<and>
     (\<forall>w. remote (Client_Start c w) = remote w \<and> remote (Client_Stop c w) = remote w)"

text \<open>While a state is initialized, everything it caches exists on the broker.\<close>

definition cache_sound ::
  "('w \<Rightarrow> (BrokerEntityType \<times> string) set) \<Rightarrow> 'w BrokerState \<Rightarrow> 'w \<Rightarrow> bool" where
  "cache_sound remote b w \<longleftrightarrow>
     (bs_initialized b \<longrightarrow> (\<forall>t n. lookup2 (bs_entities b) t n \<noteq> None \<longrightarrow> (t, n) \<in> remote w))"

lemma Ensure_sound:
  assumes node: "broker_node (bs_commandClient b) remote" and sound: "cache_sound remote b w"
    and ens: "BrokerState_EnsureEntities sched es b w = Some ((err, b'), w')"
  shows "cache_sound remote b' w' \<and> (err = None \<longrightarrow> (\<forall>e \<in> set es. entity_key e \<in> remote w'))"
  using ens
proof (cases rule: Ensure_cases)
  case (run l fin w1 s)
  note f = Ensure_fin [OF run(2,3)]
  have rel: "remote w \<subseteq> remote w1"
    by (rule run_orders_rel [of "\<lambda>a b. remote a \<subseteq> remote b", OF _ _ _ run(3)])
      (use node in \<open>auto simp: broker_node_def\<close>)
  have post: "entity_key x \<in> remote w1" if "x \<in> set fin" for x
    by (rule run_orders_post [of "\<lambda>a b. remote a \<subseteq> remote b" _ _ _ _ "\<lambda>x w. entity_key x \<in> remote w",
          OF _ _ _ _ _ run(3) that])
      (use node in \<open>auto simp: broker_node_def\<close>)
  show ?thesis
  proof (cases err)
    case None
    have key: "(t, n) \<in> remote w1" if "lookup2 s t n = Some x" for t n x
    proof (cases "lookup2 (bs_entities b) t n")
      case Some
      then show ?thesis using sound run(1) rel by (auto simp: cache_sound_def)
    next
      case None
      with that have "x \<in> set fin" "BrokerEntity_Type x = t \<and> BrokerEntity_GetName x = n"
        using be.put_only_asked [OF run(4) that] lookup2_put_all [OF run(4), of t n]
        by (auto split: option.splits simp: find_Some_iff)
      with post show ?thesis by (auto simp: entity_key_def)
    qed
    have "entity_key e \<in> remote w1" if e: "e \<in> set es" for e
      using Ensure_present [OF ens [unfolded None] e] run(5) key by (auto simp: entity_key_def)
    with None key run(5,6) show ?thesis by (auto simp: cache_sound_def)
  next
    case Some
    with run(5) show ?thesis by (simp add: cache_sound_def)
  qed
qed (use sound in auto)

lemma Delete_sound:
  assumes node: "broker_node (bs_commandClient b) remote" and sound: "cache_sound remote b w"
    and del: "BrokerState_DeleteEntities sched es b w = Some ((err, b'), w')"
  shows "cache_sound remote b' w' \<and>
    (err = None \<longrightarrow> (\<forall>e \<in> set es. bs_lookup b e \<noteq> None \<longrightarrow> entity_key e \<notin> remote w'))"
  using del
proof (cases rule: Delete_cases)
  case (run fin w1)
  note f = Delete_fin [OF run(2)]
  have post: "entity_key x \<notin> remote w1" if "x \<in> set fin" for x
    by (rule run_orders_post [of "\<lambda>a b. remote b \<subseteq> remote a" _ _ _ _ "\<lambda>x w. entity_key x \<notin> remote w",
          OF _ _ _ _ _ run(2) that])
      (use node in \<open>auto simp: broker_node_def\<close>)
  show ?thesis
  proof (cases err)
    case None
    with f(2) have fin: "set fin = {e \<in> set es. bs_lookup b e \<noteq> None}" by simp
    have keep: "k \<in> remote w \<longrightarrow> k \<in> remote w1" if "\<forall>e \<in> set fin. entity_key e \<noteq> k" for k
    proof (rule run_orders_rel [of "\<lambda>a b. k \<in> remote a \<longrightarrow> k \<in> remote b", OF _ _ _ run(2)])
      fix x r v v'
      assume "x \<in> set es" "BrokerEntity_Delete (bs_commandClient b) x v = Some (r, v')"
        "\<exists>n \<in> set (rev [0..<maxOrder]). BrokerEntity_Order x = n \<and> bs_lookup b x \<noteq> None"
      then have "entity_key x \<noteq> k" "remote v - {entity_key x} \<subseteq> remote v'"
        using that fin node by (auto simp: broker_node_def)
      then show "k \<in> remote v \<longrightarrow> k \<in> remote v'" by blast
    qed auto
    have "(t, n) \<in> remote w1" if "lookup2 (bs_entities b') t n \<noteq> None" for t n
    proof -
      from that run(3) have "\<forall>e \<in> set fin. entity_key e \<noteq> (t, n)"
        and "lookup2 (bs_entities b) t n \<noteq> None"
        by (auto simp: lookup2_del_all entity_key_def split: if_splits)
      with keep sound run(1) show ?thesis by (auto simp: cache_sound_def)
    qed
    with None fin post run(4) show ?thesis by (auto simp: cache_sound_def)
  next
    case Some
    with run(3) show ?thesis by (simp add: cache_sound_def)
  qed
qed (use sound in simp_all)


end
