(* ===== verification/Router.thy ===== *)
theory Router
  imports Amqp EntityStore
begin

text \<open>
  \<open>pkg/state/router\<close>, the data part: the entities of a Qpid Dispatch router with their
  interface methods, and their encoding as attribute maps of the management protocol.
\<close>

section \<open>Entities (\<open>types.go\<close>)\<close>

datatype RouterEntityType =
    RouterAddressEntity
  | RouterListenerEntity
  | RouterConnectorEntity
  | RouterAutoLinkEntity
  | RouterLinkRouteEntity
  | RouterSslProfileEntity

fun RouterEntityType_string :: "RouterEntityType \<Rightarrow> string" where
  "RouterEntityType_string RouterAddressEntity = ''org.apache.qpid.dispatch.router.config.address''"
| "RouterEntityType_string RouterListenerEntity = ''org.apache.qpid.dispatch.listener''"
| "RouterEntityType_string RouterConnectorEntity = ''org.apache.qpid.dispatch.connector''"
| "RouterEntityType_string RouterAutoLinkEntity = ''org.apache.qpid.dispatch.router.config.autoLink''"
| "RouterEntityType_string RouterLinkRouteEntity = ''org.apache.qpid.dispatch.router.config.linkRoute''"
| "RouterEntityType_string RouterSslProfileEntity = ''org.apache.qpid.dispatch.sslProfile''"

record NamedEntity =
  ne_EntityType :: RouterEntityType
  ne_Name :: string

record RouterConnector =
  rc_Name :: string
  rc_Host :: string
  rc_Port :: string
  rc_Role :: string
  rc_SslProfile :: string
  rc_SaslMechanisms :: string
  rc_SaslUsername :: string
  rc_SaslPassword :: string
  rc_LinkCapacity :: int
  rc_IdleTimeoutSeconds :: int
  rc_VerifyHostname :: bool
  rc_PolicyVhost :: string
  rc_ConnectionStatus :: string
  rc_ConnectionMsg :: string

record RouterListener =
  rl_Name :: string
  rl_Host :: string
  rl_Port :: string
  rl_Role :: string
  rl_SslProfile :: string
  rl_SaslMechanisms :: string
  rl_LinkCapacity :: int
  rl_IdleTimeoutSeconds :: int
  rl_InitialHandshakeTimeoutSeconds :: int
  rl_PolicyVhost :: string
  rl_AuthenticatePeer :: bool
  rl_MultiTenant :: bool
  rl_RequireSsl :: bool
  rl_Http :: bool
  rl_Metrics :: bool
  rl_Healthz :: bool
  rl_Websockets :: bool
  rl_HttpRootDir :: string

record RouterAddress =
  ra_Name :: string
  ra_Prefix :: string
  ra_Waypoint :: bool
  ra_Distribution :: string

record RouterAutoLink =
  al_Name :: string
  al_Address :: string
  al_Direction :: string
  al_Connection :: string
  al_ExternalAddress :: string

record RouterLinkRoute =
  lr_Name :: string
  lr_Prefix :: string
  lr_Direction :: string
  lr_Connection :: string

record RouterSslProfile =
  sp_Name :: string
  sp_Ciphers :: string
  sp_Protocols :: string
  sp_CaCertFile :: string
  sp_CertFile :: string
  sp_PrivateKeyFile :: string

datatype RouterEntity =
    REConnector RouterConnector
  | REListener RouterListener
  | REAddress RouterAddress
  | REAutoLink RouterAutoLink
  | RELinkRoute RouterLinkRoute
  | RESslProfile RouterSslProfile
  | RENamed NamedEntity

fun RouterEntity_Type :: "RouterEntity \<Rightarrow> RouterEntityType" where
  "RouterEntity_Type (REConnector e) = RouterConnectorEntity"
| "RouterEntity_Type (REListener e) = RouterListenerEntity"
| "RouterEntity_Type (REAddress e) = RouterAddressEntity"
| "RouterEntity_Type (REAutoLink e) = RouterAutoLinkEntity"
| "RouterEntity_Type (RELinkRoute e) = RouterLinkRouteEntity"
| "RouterEntity_Type (RESslProfile e) = RouterSslProfileEntity"
| "RouterEntity_Type (RENamed e) = ne_EntityType e"

fun RouterEntity_GetName :: "RouterEntity \<Rightarrow> string" where
  "RouterEntity_GetName (REConnector e) = rc_Name e"
| "RouterEntity_GetName (REListener e) = rl_Name e"
| "RouterEntity_GetName (REAddress e) = ra_Name e"
| "RouterEntity_GetName (REAutoLink e) = al_Name e"
| "RouterEntity_GetName (RELinkRoute e) = lr_Name e"
| "RouterEntity_GetName (RESslProfile e) = sp_Name e"
| "RouterEntity_GetName (RENamed e) = ne_Name e"

fun RouterEntity_Order :: "RouterEntity \<Rightarrow> nat" where
  "RouterEntity_Order (REConnector e) = 1"
| "RouterEntity_Order (REListener e) = 1"
| "RouterEntity_Order _ = 0"

text \<open>
  Connectors are compared field by field, without the link capacity and without the connection
  status that the router fills in. All other kinds are compared as a whole.
\<close>

definition RouterConnector_Equals :: "RouterConnector \<Rightarrow> RouterConnector \<Rightarrow> bool" where
  "RouterConnector_Equals e v \<longleftrightarrow>
     rc_Name v = rc_Name e \<and> rc_Host v = rc_Host e \<and> rc_Port v = rc_Port e \<and>
     rc_Role v = rc_Role e \<and> rc_SslProfile v = rc_SslProfile e \<and>
     rc_SaslMechanisms v = rc_SaslMechanisms e \<and> rc_SaslUsername v = rc_SaslUsername e \<and>
     rc_SaslPassword v = rc_SaslPassword e \<and> rc_IdleTimeoutSeconds v = rc_IdleTimeoutSeconds e \<and>
     rc_VerifyHostname v = rc_VerifyHostname e \<and> rc_PolicyVhost v = rc_PolicyVhost e"

fun RouterEntity_Equals :: "RouterEntity \<Rightarrow> RouterEntity \<Rightarrow> bool" where
  "RouterEntity_Equals (REConnector e) (REConnector v) = RouterConnector_Equals e v"
| "RouterEntity_Equals (REConnector e) _ = False"
| "RouterEntity_Equals e other = (e = other)"

lemma RouterEntity_Equals_refl: "RouterEntity_Equals e e"
  by (cases e) (auto simp: RouterConnector_Equals_def)

lemma RouterEntity_Equals_key:
  "RouterEntity_Equals x e \<Longrightarrow>
     RouterEntity_Type x = RouterEntity_Type e \<and> RouterEntity_GetName x = RouterEntity_GetName e"
  by (cases x; cases e) (auto simp: RouterConnector_Equals_def)

interpretation re: entity_kind RouterEntity_Type RouterEntity_GetName RouterEntity_Equals
  by unfold_locales (auto simp: RouterEntity_Equals_refl dest: RouterEntity_Equals_key)

section \<open>Attribute maps\<close>

text \<open>
  \<open>entityToMap\<close>: the struct goes through its JSON form, so that fields tagged \<open>omitempty\<close> are
  left out when they hold the zero value, and numbers come back as integers.
\<close>

definition opt_str :: "string \<Rightarrow> string \<Rightarrow> (string \<times> avalue) list" where
  "opt_str k s = (if s = '''' then [] else [(k, AString s)])"

text \<open>
  A number passes through \<open>float64\<close>: integers of more than 53 bits are rounded to the nearest
  representable value, ties to even.
\<close>

function excess_bits :: "nat \<Rightarrow> nat" where
  "excess_bits n = (if n < 2 ^ 53 then 0 else Suc (excess_bits (n div 2)))"
  by auto
termination by (relation "measure id") auto

declare excess_bits.simps [simp del]

definition float_nat :: "nat \<Rightarrow> nat" where
  "float_nat n =
     (let k = excess_bits n; q = n div 2 ^ k; r = n mod 2 ^ k
      in (if 2 ^ k < 2 * r \<or> (2 ^ k = 2 * r \<and> odd q) then q + 1 else q) * 2 ^ k)"

definition via_float64 :: "int \<Rightarrow> int" where
  "via_float64 i = sgn i * int (float_nat (nat \<bar>i\<bar>))"

lemma via_float64_exact: "\<bar>i\<bar> < 2 ^ 53 \<Longrightarrow> via_float64 i = i"
  by (simp add: via_float64_def float_nat_def excess_bits.simps nat_less_iff sgn_if)

definition opt_int :: "string \<Rightarrow> int \<Rightarrow> (string \<times> avalue) list" where
  "opt_int k i = (if i = 0 then [] else [(k, AInt (via_float64 i))])"

definition encode_connector :: "RouterConnector \<Rightarrow> (string \<times> avalue) list" where
  "encode_connector e =
     [(''name'', AString (rc_Name e)), (''host'', AString (rc_Host e)), (''port'', AString (rc_Port e))]
     @ opt_str ''role'' (rc_Role e) @ opt_str ''sslProfile'' (rc_SslProfile e)
     @ opt_str ''saslMechanisms'' (rc_SaslMechanisms e) @ opt_str ''saslUsername'' (rc_SaslUsername e)
     @ opt_str ''saslPassword'' (rc_SaslPassword e) @ opt_int ''linkCapacity'' (rc_LinkCapacity e)
     @ opt_int ''idleTimeoutSeconds'' (rc_IdleTimeoutSeconds e)
     @ [(''verifyHostname'', ABool (rc_VerifyHostname e))]
     @ opt_str ''policyVhost'' (rc_PolicyVhost e) @ opt_str ''connectionStatus'' (rc_ConnectionStatus e)
     @ opt_str ''connectionMsg'' (rc_ConnectionMsg e)"

definition encode_listener :: "RouterListener \<Rightarrow> (string \<times> avalue) list" where
  "encode_listener e =
     [(''name'', AString (rl_Name e)), (''host'', AString (rl_Host e)), (''port'', AString (rl_Port e))]
     @ opt_str ''role'' (rl_Role e) @ opt_str ''sslProfile'' (rl_SslProfile e)
     @ opt_str ''saslMechanisms'' (rl_SaslMechanisms e) @ opt_int ''linkCapacity'' (rl_LinkCapacity e)
     @ opt_int ''idleTimeoutSeconds'' (rl_IdleTimeoutSeconds e)
     @ opt_int ''initialHandshakeTimeoutSeconds'' (rl_InitialHandshakeTimeoutSeconds e)
     @ opt_str ''policyVhost'' (rl_PolicyVhost e)
     @ [(''authenticatePeer'', ABool (rl_AuthenticatePeer e)), (''multiTenant'', ABool (rl_MultiTenant e)),
        (''requireSsl'', ABool (rl_RequireSsl e)), (''http'', ABool (rl_Http e)),
        (''metrics'', ABool (rl_Metrics e)), (''healthz'', ABool (rl_Healthz e)),
        (''websockets'', ABool (rl_Websockets e))]
     @ opt_str ''httpRootDir'' (rl_HttpRootDir e)"

fun RouterEntityType_Encode :: "RouterEntity \<Rightarrow> (string \<times> avalue) list" where
  "RouterEntityType_Encode (REConnector e) = encode_connector e"
| "RouterEntityType_Encode (REListener e) = encode_listener e"
| "RouterEntityType_Encode (REAddress e) =
     [(''name'', AString (ra_Name e)), (''prefix'', AString (ra_Prefix e)),
      (''waypoint'', ABool (ra_Waypoint e)), (''distribution'', AString (ra_Distribution e))]"
| "RouterEntityType_Encode (REAutoLink e) =
     [(''name'', AString (al_Name e)), (''address'', AString (al_Address e)),
      (''direction'', AString (al_Direction e))]
     @ opt_str ''connection'' (al_Connection e) @ opt_str ''externalAddress'' (al_ExternalAddress e)"
| "RouterEntityType_Encode (RELinkRoute e) =
     [(''name'', AString (lr_Name e)), (''prefix'', AString (lr_Prefix e)),
      (''direction'', AString (lr_Direction e))]
     @ opt_str ''connection'' (lr_Connection e)"
| "RouterEntityType_Encode (RESslProfile e) =
     [(''name'', AString (sp_Name e))]
     @ opt_str ''ciphers'' (sp_Ciphers e) @ opt_str ''protocols'' (sp_Protocols e)
     @ opt_str ''caCertFile'' (sp_CaCertFile e) @ opt_str ''certFile'' (sp_CertFile e)
     @ opt_str ''privateKeyFile'' (sp_PrivateKeyFile e)"
| "RouterEntityType_Encode (RENamed e) =
     [(''EntityType'', AString (RouterEntityType_string (ne_EntityType e))), (''Name'', AString (ne_Name e))]"

text \<open>
  \<open>mapToEntity\<close>: an absent or null attribute gives the zero value, an attribute of another type
  is an error. The attribute names are spelled as the struct tags have them (Go would also accept
  a name in another case, which no router sends).
\<close>

definition attr :: "(string \<times> avalue) list \<Rightarrow> string \<Rightarrow> avalue" where
  "attr data k = (case map_of data k of None \<Rightarrow> ANull | Some v \<Rightarrow> v)"

fun at_str :: "avalue \<Rightarrow> string" where
  "at_str (AString s) = s" | "at_str _ = ''''"

fun at_int :: "avalue \<Rightarrow> int" where
  "at_int (AInt i) = i" | "at_int _ = 0"

fun at_bool :: "avalue \<Rightarrow> bool" where
  "at_bool (ABool b) = b" | "at_bool _ = False"

fun ok_str :: "avalue \<Rightarrow> bool" where
  "ok_str ANull = True" | "ok_str (AString _) = True" | "ok_str _ = False"

fun ok_int :: "avalue \<Rightarrow> bool" where
  "ok_int ANull = True" | "ok_int (AInt i) = (- (2 ^ 63) \<le> i \<and> i < 2 ^ 63)" | "ok_int _ = False"

fun ok_bool :: "avalue \<Rightarrow> bool" where
  "ok_bool ANull = True" | "ok_bool (ABool _) = True" | "ok_bool _ = False"

definition fields_ok ::
  "(string \<times> avalue) list \<Rightarrow> string list \<Rightarrow> string list \<Rightarrow> string list \<Rightarrow> bool" where
  "fields_ok data strs ints bools \<longleftrightarrow>
     list_all (\<lambda>k. ok_str (attr data k)) strs \<and> list_all (\<lambda>k. ok_int (attr data k)) ints \<and>
     list_all (\<lambda>k. ok_bool (attr data k)) bools"

definition checked :: "bool \<Rightarrow> RouterEntity \<Rightarrow> error + RouterEntity" where
  "checked ok e = (if ok then Inr e else Inl (Errorf ''json: cannot unmarshal''))"

definition decode_connector :: "(string \<times> avalue) list \<Rightarrow> error + RouterEntity" where
  "decode_connector d =
     checked (fields_ok d
       [''name'', ''host'', ''port'', ''role'', ''sslProfile'', ''saslMechanisms'', ''saslUsername'',
        ''saslPassword'', ''policyVhost'', ''connectionStatus'', ''connectionMsg'']
       [''linkCapacity'', ''idleTimeoutSeconds''] [''verifyHostname''])
     (REConnector \<lparr> rc_Name = at_str (attr d ''name''), rc_Host = at_str (attr d ''host''),
        rc_Port = at_str (attr d ''port''), rc_Role = at_str (attr d ''role''),
        rc_SslProfile = at_str (attr d ''sslProfile''),
        rc_SaslMechanisms = at_str (attr d ''saslMechanisms''),
        rc_SaslUsername = at_str (attr d ''saslUsername''),
        rc_SaslPassword = at_str (attr d ''saslPassword''),
        rc_LinkCapacity = at_int (attr d ''linkCapacity''),
        rc_IdleTimeoutSeconds = at_int (attr d ''idleTimeoutSeconds''),
        rc_VerifyHostname = at_bool (attr d ''verifyHostname''),
        rc_PolicyVhost = at_str (attr d ''policyVhost''),
        rc_ConnectionStatus = at_str (attr d ''connectionStatus''),
        rc_ConnectionMsg = at_str (attr d ''connectionMsg'') \<rparr>)"

definition decode_listener :: "(string \<times> avalue) list \<Rightarrow> error + RouterEntity" where
  "decode_listener d =
     checked (fields_ok d
       [''name'', ''host'', ''port'', ''role'', ''sslProfile'', ''saslMechanisms'', ''policyVhost'',
        ''httpRootDir'']
       [''linkCapacity'', ''idleTimeoutSeconds'', ''initialHandshakeTimeoutSeconds'']
       [''authenticatePeer'', ''multiTenant'', ''requireSsl'', ''http'', ''metrics'', ''healthz'',
        ''websockets''])
     (REListener \<lparr> rl_Name = at_str (attr d ''name''), rl_Host = at_str (attr d ''host''),
        rl_Port = at_str (attr d ''port''), rl_Role = at_str (attr d ''role''),
        rl_SslProfile = at_str (attr d ''sslProfile''),
        rl_SaslMechanisms = at_str (attr d ''saslMechanisms''),
        rl_LinkCapacity = at_int (attr d ''linkCapacity''),
        rl_IdleTimeoutSeconds = at_int (attr d ''idleTimeoutSeconds''),
        rl_InitialHandshakeTimeoutSeconds = at_int (attr d ''initialHandshakeTimeoutSeconds''),
        rl_PolicyVhost = at_str (attr d ''policyVhost''),
        rl_AuthenticatePeer = at_bool (attr d ''authenticatePeer''),
        rl_MultiTenant = at_bool (attr d ''multiTenant''),
        rl_RequireSsl = at_bool (attr d ''requireSsl''), rl_Http = at_bool (attr d ''http''),
        rl_Metrics = at_bool (attr d ''metrics''), rl_Healthz = at_bool (attr d ''healthz''),
        rl_Websockets = at_bool (attr d ''websockets''),
        rl_HttpRootDir = at_str (attr d ''httpRootDir'') \<rparr>)"

fun RouterEntityType_Decode ::
  "RouterEntityType \<Rightarrow> (string \<times> avalue) list \<Rightarrow> error + RouterEntity" where
  "RouterEntityType_Decode RouterConnectorEntity d = decode_connector d"
| "RouterEntityType_Decode RouterListenerEntity d = decode_listener d"
| "RouterEntityType_Decode RouterAddressEntity d =
     checked (fields_ok d [''name'', ''prefix'', ''distribution''] [] [''waypoint''])
     (REAddress \<lparr> ra_Name = at_str (attr d ''name''), ra_Prefix = at_str (attr d ''prefix''),
        ra_Waypoint = at_bool (attr d ''waypoint''), ra_Distribution = at_str (attr d ''distribution'') \<rparr>)"
| "RouterEntityType_Decode RouterAutoLinkEntity d =
     checked (fields_ok d [''name'', ''address'', ''direction'', ''connection'', ''externalAddress''] [] [])
     (REAutoLink \<lparr> al_Name = at_str (attr d ''name''), al_Address = at_str (attr d ''address''),
        al_Direction = at_str (attr d ''direction''), al_Connection = at_str (attr d ''connection''),
        al_ExternalAddress = at_str (attr d ''externalAddress'') \<rparr>)"
| "RouterEntityType_Decode RouterLinkRouteEntity d =
     checked (fields_ok d [''name'', ''prefix'', ''direction'', ''connection''] [] [])
     (RELinkRoute \<lparr> lr_Name = at_str (attr d ''name''), lr_Prefix = at_str (attr d ''prefix''),
        lr_Direction = at_str (attr d ''direction''), lr_Connection = at_str (attr d ''connection'') \<rparr>)"
| "RouterEntityType_Decode RouterSslProfileEntity d =
     checked (fields_ok d
       [''name'', ''ciphers'', ''protocols'', ''caCertFile'', ''certFile'', ''privateKeyFile''] [] [])
     (RESslProfile \<lparr> sp_Name = at_str (attr d ''name''), sp_Ciphers = at_str (attr d ''ciphers''),
        sp_Protocols = at_str (attr d ''protocols''), sp_CaCertFile = at_str (attr d ''caCertFile''),
        sp_CertFile = at_str (attr d ''certFile''), sp_PrivateKeyFile = at_str (attr d ''privateKeyFile'') \<rparr>)"

lemma Decode_Type: "RouterEntityType_Decode t d = Inr e \<Longrightarrow> RouterEntity_Type e = t"
  by (cases t) (auto simp: checked_def decode_connector_def decode_listener_def split: if_splits)

text \<open>The integers that \<open>float64\<close> represents exactly.\<close>

definition int53 :: "int \<Rightarrow> bool" where
  "int53 i \<longleftrightarrow> \<bar>i\<bar> < 2 ^ 53"

lemma int53D:
  "int53 i \<Longrightarrow> via_float64 i = i"
  "int53 i \<Longrightarrow> - 9223372036854775808 \<le> i"
  "int53 i \<Longrightarrow> i < 9223372036854775808"
  by (simp_all add: int53_def via_float64_exact)

fun entity_ints :: "RouterEntity \<Rightarrow> int list" where
  "entity_ints (REConnector e) = [rc_LinkCapacity e, rc_IdleTimeoutSeconds e]"
| "entity_ints (REListener e) =
     [rl_LinkCapacity e, rl_IdleTimeoutSeconds e, rl_InitialHandshakeTimeoutSeconds e]"
| "entity_ints _ = []"

text \<open>
  The lookup of one attribute in a list of mandatory and optional attributes. The two case
  distinctions on zero values are kept folded, so that no proof ever splits on all of them.
\<close>

definition or_str :: "string \<Rightarrow> avalue \<Rightarrow> avalue" where
  "or_str s v = (if s = [] then v else AString s)"

definition or_int :: "int \<Rightarrow> avalue \<Rightarrow> avalue" where
  "or_int i v = (if i = 0 then v else AInt (via_float64 i))"

lemma attr_simps [simp]:
  "attr [] k = ANull"
  "attr ((k', v) # d) k = (if k' = k then v else attr d k)"
  by (auto simp: attr_def)

lemma attr_opt [simp]:
  "attr (opt_str k s @ d) k = or_str s (attr d k)"
  "attr (opt_int k i @ d) k = or_int i (attr d k)"
  "attr (opt_str k s) k = or_str s ANull"
  by (auto simp: attr_def opt_str_def opt_int_def or_str_def or_int_def)

lemma attr_opt_other [simp]:
  "k' \<noteq> k \<Longrightarrow> attr (opt_str k' s @ d) k = attr d k"
  "k' \<noteq> k \<Longrightarrow> attr (opt_int k' i @ d) k = attr d k"
  "k' \<noteq> k \<Longrightarrow> attr (opt_str k' s) k = ANull"
  by (auto simp: attr_def opt_str_def opt_int_def)

lemma or_str_simps [simp]: "at_str (or_str s ANull) = s" "ok_str (or_str s ANull)"
  by (simp_all add: or_str_def)

lemma or_int_simps [simp]:
  "int53 i \<Longrightarrow> at_int (or_int i ANull) = i" "int53 i \<Longrightarrow> ok_int (or_int i ANull)"
  by (simp_all add: or_int_def int53D)

text \<open>C17 (roundtrip): decoding the attribute map that \<open>Encode\<close> produces for an entity gives the
  entity back, for every kind of entity that is ever created on a router: dropping empty
  attributes and passing numbers through \<open>float64\<close> loses nothing, as long as the numbers have
  at most 53 bits.\<close>

theorem Encode_Decode:
  assumes "\<forall>n. e \<noteq> RENamed n" and "list_all int53 (entity_ints e)"
  shows "RouterEntityType_Decode (RouterEntity_Type e) (RouterEntityType_Encode e) = Inr e"
  using assms
  by (cases e)
    (simp_all add: checked_def fields_ok_def decode_connector_def encode_connector_def
      decode_listener_def encode_listener_def)

definition example_connector :: RouterConnector where
  "example_connector = \<lparr> rc_Name = ''c'', rc_Host = ''h'', rc_Port = ''5671'', rc_Role = '''',
     rc_SslProfile = ''infra_tls'', rc_SaslMechanisms = '''', rc_SaslUsername = '''', rc_SaslPassword = '''',
     rc_LinkCapacity = 0, rc_IdleTimeoutSeconds = 16, rc_VerifyHostname = True, rc_PolicyVhost = '''',
     rc_ConnectionStatus = '''', rc_ConnectionMsg = '''' \<rparr>"

theorem Encode_Decode_witness:
  "RouterEntityType_Decode RouterConnectorEntity (RouterEntityType_Encode (REConnector example_connector)) =
     Inr (REConnector example_connector)"
  using Encode_Decode [of "REConnector example_connector"]
  by (simp add: example_connector_def int53_def)

end
