(* ===== verification/Router_State.thy ===== *)
theory Router_State
  imports Router
begin

text \<open>
  \<open>pkg/state/router/router.go\<close>, the operations of \<open>RouterState\<close>: management requests,
  \<open>Initialize\<close>, \<open>ReadEntities\<close>, \<open>EnsureEntities\<close> and \<open>DeleteEntities\<close>; the invariant of
  the state, and what the operations do to the cache.
\<close>

section \<open>Management requests\<close>

record 'w RouterState =
  rs_host :: Host
  rs_port :: int
  rs_nextResync :: int
  rs_initialized :: bool
  rs_commandClient :: "'w Client"
  rs_entities :: "(RouterEntityType, RouterEntity) store"
  rs_reconnectCount :: int

definition NewRouterState :: "'w Client \<Rightarrow> Host \<Rightarrow> int \<Rightarrow> ('w, 'w RouterState) prog" where
  "NewRouterState client host port = (\<lambda>w.
     let w' = Client_Start client w in
     Some (\<lparr> rs_host = host, rs_port = port, rs_nextResync = 0, rs_initialized = False,
             rs_commandClient = client, rs_entities = (\<lambda>t. Some []),
             rs_reconnectCount = Client_ReconnectCount client w' \<rparr>, w'))"

definition RouterState_Reset :: "'w RouterState \<Rightarrow> ('w, 'w RouterState) prog" where
  "RouterState_Reset r = (\<lambda>w.
     if rs_initialized r
     then Some (r\<lparr>rs_initialized := False\<rparr>,
                Client_Start (rs_commandClient r) (Client_Stop (rs_commandClient r) w))
     else Some (r, w))"

definition RouterState_Shutdown :: "'w RouterState \<Rightarrow> ('w, unit) prog" where
  "RouterState_Shutdown r = (\<lambda>w. Some ((), Client_Stop (rs_commandClient r) w))"

definition getStatusCode :: "Message \<Rightarrow> error + int" where
  "getStatusCode response =
     (case map_of (ApplicationProperties response) ''statusCode'' of
        Some (AInt v) \<Rightarrow> Inr v
      | _ \<Rightarrow> Inl (Errorf ''unexpected value with type''))"

definition getStatusDescription :: "Message \<Rightarrow> avalue" where
  "getStatusDescription response =
     (case map_of (ApplicationProperties response) ''statusDescription'' of
        None \<Rightarrow> ANull | Some v \<Rightarrow> v)"

definition status_error :: "Message \<Rightarrow> int \<Rightarrow> error" where
  "status_error response code =
     Errorf (''response with status code '' @ show_int code @ '': '' @
       show_avalue (getStatusDescription response))"

definition RouterState_doRequest :: "'w Client \<Rightarrow> Message \<Rightarrow> ('w, error + Message) prog" where
  "RouterState_doRequest client request = Client_RequestWithTimeout client request"

definition router_request ::
  "string \<Rightarrow> RouterEntityType \<Rightarrow> string \<Rightarrow> avalue \<Rightarrow> Message" where
  "router_request operation t name body =
     \<lparr> ApplicationProperties =
         [(''operation'', AString operation), (''type'', AString (RouterEntityType_string t)),
          (''name'', AString name)],
       Value = body \<rparr>"

definition RouterState_deleteEntity ::
  "'w Client \<Rightarrow> RouterEntityType \<Rightarrow> string \<Rightarrow> ('w, error option) prog" where
  "RouterState_deleteEntity client t name =
     bindp (RouterState_doRequest client (router_request ''DELETE'' t name ANull)) (\<lambda>r.
       case r of
         Inl err \<Rightarrow> ret (Some err)
       | Inr response \<Rightarrow>
           (case getStatusCode response of
              Inl err \<Rightarrow> ret (Some err)
            | Inr code \<Rightarrow>
                if (code < 200 \<or> code \<ge> 300) \<and> code \<noteq> 404
                then ret (Some (status_error response code))
                else ret None))"

definition RouterState_createEntity ::
  "'w Client \<Rightarrow> RouterEntityType \<Rightarrow> string \<Rightarrow> (string \<times> avalue) list \<Rightarrow> ('w, error option) prog" where
  "RouterState_createEntity client t name data =
     bindp (RouterState_doRequest client (router_request ''CREATE'' t name (AMap data))) (\<lambda>r.
       case r of
         Inl err \<Rightarrow> ret (Some err)
       | Inr response \<Rightarrow>
           (case getStatusCode response of
              Inl err \<Rightarrow> ret (Some err)
            | Inr code \<Rightarrow>
                if (code < 200 \<or> code \<ge> 300) \<and> code \<noteq> 404
                then ret (Some (status_error response code))
                else ret None))"

text \<open>The answers to \<open>READ\<close> and \<open>QUERY\<close> must carry a map.\<close>

definition answer_map :: "Message \<Rightarrow> error + (string \<times> avalue) list" where
  "answer_map response =
     (case getStatusCode response of
        Inl err \<Rightarrow> Inl err
      | Inr code \<Rightarrow>
          if code < 200 \<or> code \<ge> 300 then Inl (status_error response code)
          else (case Value response of
                  AMap v \<Rightarrow> Inr v
                | _ \<Rightarrow> Inl (Errorf ''unexpected value with type'')))"

definition RouterState_readEntity ::
  "'w Client \<Rightarrow> RouterEntityType \<Rightarrow> string \<Rightarrow> ('w, error + RouterEntity) prog" where
  "RouterState_readEntity client t name =
     bindE (RouterState_doRequest client (router_request ''READ'' t name ANull)) (\<lambda>response.
       case answer_map response of
         Inl err \<Rightarrow> ret (Inl err)
       | Inr v \<Rightarrow> ret (RouterEntityType_Decode t v))"

definition query_request :: "RouterEntityType \<Rightarrow> Message" where
  "query_request t =
     \<lparr> ApplicationProperties =
         [(''operation'', AString ''QUERY''), (''entityType'', AString (RouterEntityType_string t))],
       Value = AMap [(''attributeNames'', AList [])] \<rparr>"

definition RouterState_queryEntities ::
  "'w Client \<Rightarrow> RouterEntityType \<Rightarrow> ('w, error + (string \<times> avalue) list) prog" where
  "RouterState_queryEntities client t =
     bindE (RouterState_doRequest client (query_request t)) (\<lambda>response. ret (answer_map response))"

text \<open>
  \<open>createMapData\<close>: the type assertions and the indexing \<open>r[i]\<close> panic on an answer of another
  shape.
\<close>

fun row_data :: "avalue list \<Rightarrow> avalue list \<Rightarrow> (string \<times> avalue) list \<Rightarrow> (string \<times> avalue) list option" where
  "row_data [] r m = Some m"
| "row_data (AString a # names) (v # r) m =
     row_data names r (if v \<noteq> ANull then gm_put a v m else m)"
| "row_data _ _ m = None"

fun createMapData :: "avalue list \<Rightarrow> avalue list \<Rightarrow> (string \<times> avalue) list list option" where
  "createMapData names [] = Some []"
| "createMapData names (AList r # results) =
     (case row_data names r [] of
        None \<Rightarrow> None
      | Some m \<Rightarrow> map_option ((#) m) (createMapData names results))"
| "createMapData names (_ # results) = None"

fun as_list :: "avalue \<Rightarrow> avalue list option" where
  "as_list (AList l) = Some l"
| "as_list _ = None"

fun decode_all ::
  "RouterEntityType \<Rightarrow> (string \<times> avalue) list list \<Rightarrow> (string, RouterEntity) gomap
    \<Rightarrow> error + (string, RouterEntity) gomap" where
  "decode_all t [] m = Inr m"
| "decode_all t (entry # data) m =
     (case RouterEntityType_Decode t entry of
        Inl err \<Rightarrow> Inl err
      | Inr e \<Rightarrow> decode_all t data (gm_put (RouterEntity_GetName e) e m))"

definition RouterState_readEntities ::
  "'w Client \<Rightarrow> RouterEntityType \<Rightarrow> ('w, error + (string, RouterEntity) gomap) prog" where
  "RouterState_readEntities client t =
     bindE (RouterState_queryEntities client t) (\<lambda>v.
       bindp (liftO (as_list (attr v ''attributeNames''))) (\<lambda>attributeNames.
       bindp (liftO (as_list (attr v ''results''))) (\<lambda>results.
       bindp (liftO (createMapData attributeNames results)) (\<lambda>data.
       ret (decode_all t data [])))))"

section \<open>Operations\<close>

fun router_init_types ::
  "RouterEntityType list \<Rightarrow> 'w RouterState \<Rightarrow> ('w, error option \<times> 'w RouterState) prog" where
  "router_init_types [] r = ret (None, r\<lparr>rs_initialized := True\<rparr>)"
| "router_init_types (t # ts) r =
     bindp (RouterState_readEntities (rs_commandClient r) t) (\<lambda>l.
       case l of
         Inl err \<Rightarrow> ret (Some err, r)
       | Inr list \<Rightarrow> router_init_types ts (r\<lparr>rs_entities := (rs_entities r)(t \<mapsto> list)\<rparr>))"

definition router_entityTypes :: "RouterEntityType list" where
  "router_entityTypes =
     [RouterConnectorEntity, RouterListenerEntity, RouterAddressEntity, RouterAutoLinkEntity,
      RouterLinkRouteEntity, RouterSslProfileEntity]"

definition RouterState_Initialize ::
  "int \<Rightarrow> 'w RouterState \<Rightarrow> ('w, error option \<times> 'w RouterState) prog" where
  "RouterState_Initialize nextResync r = (\<lambda>w.
     let count = Client_ReconnectCount (rs_commandClient r) w;
         r1 = (if rs_reconnectCount r \<noteq> count then r\<lparr>rs_initialized := False\<rparr> else r)
     in if rs_initialized r1 then Some ((None, r1), w)
        else router_init_types router_entityTypes
               (r1\<lparr>rs_nextResync := nextResync, rs_reconnectCount := count\<rparr>) w)"

definition router_isConnectionError :: "error option \<Rightarrow> bool" where
  "router_isConnectionError err \<longleftrightarrow> err \<noteq> None"

definition router_maxOrder :: nat where
  "router_maxOrder = 2"

abbreviation rs_lookup :: "'w RouterState \<Rightarrow> RouterEntity \<Rightarrow> RouterEntity option" where
  "rs_lookup r e \<equiv> lookup2 (rs_entities r) (RouterEntity_Type e) (RouterEntity_GetName e)"

text \<open>The results of the readings, in the order in which the goroutines delivered them.\<close>

fun read_err :: "('a \<times> (error + 'b)) list \<Rightarrow> error option" where
  "read_err [] = None"
| "read_err ((x, Inl err) # rs) = Some err"
| "read_err ((x, Inr v) # rs) = read_err rs"

fun read_values :: "('a \<times> (error + 'b)) list \<Rightarrow> 'b list" where
  "read_values [] = []"
| "read_values ((x, Inl err) # rs) = read_values rs"
| "read_values ((x, Inr v) # rs) = v # read_values rs"

definition RouterState_ReadEntities ::
  "'w sched \<Rightarrow> RouterEntity list \<Rightarrow> 'w RouterState
    \<Rightarrow> ('w, (RouterEntity list \<times> error option) \<times> 'w RouterState) prog" where
  "RouterState_ReadEntities sched entities r =
     (if \<not> rs_initialized r then ret (([], Some NotInitializedError), r)
      else bindp (go_group sched
                   (\<lambda>e. RouterState_readEntity (rs_commandClient r) (RouterEntity_Type e)
                          (RouterEntity_GetName e)) entities) (\<lambda>rs.
           bindp (if router_isConnectionError (read_err rs) then RouterState_Reset r else ret r) (\<lambda>r'.
           ret ((read_values rs, read_err rs), r'))))"

definition create_task :: "'w Client \<Rightarrow> RouterEntity \<Rightarrow> ('w, error option) prog" where
  "create_task client e =
     RouterState_createEntity client (RouterEntity_Type e) (RouterEntity_GetName e)
       (RouterEntityType_Encode e)"

definition RouterState_EnsureEntities ::
  "'w sched \<Rightarrow> RouterEntity list \<Rightarrow> 'w RouterState \<Rightarrow> ('w, error option \<times> 'w RouterState) prog" where
  "RouterState_EnsureEntities sched entities r =
     (if \<not> rs_initialized r then ret (Some NotInitializedError, r)
      else case to_create RouterEntity_Type RouterEntity_GetName RouterEntity_Equals
                  (rs_entities r) entities of
          Inl (existing, entity) \<Rightarrow>
            ret (Some (Errorf (''router entity '' @ RouterEntityType_string (RouterEntity_Type entity)
                   @ '' '' @ RouterEntity_GetName existing
                   @ '' was updated - updates are not supported'')), r)
        | Inr toCreate \<Rightarrow>
            bindp (run_orders sched (create_task (rs_commandClient r))
                     (\<lambda>order e. RouterEntity_Order e = order) [0..<router_maxOrder] toCreate) (\<lambda>(err, fin).
            bindp (if router_isConnectionError err then RouterState_Reset r else ret r) (\<lambda>r'.
            bindp (liftO (put_all RouterEntity_Type RouterEntity_GetName fin (rs_entities r'))) (\<lambda>s.
            ret (err, r'\<lparr>rs_entities := s\<rparr>)))))"

fun strings_Contains :: "string \<Rightarrow> string \<Rightarrow> bool" where
  "strings_Contains [] sub = (sub = [])"
| "strings_Contains (c # cs) sub =
     (take (length sub) (c # cs) = sub \<or> strings_Contains cs sub)"

text \<open>
  The result of one deletion: the error for the group, and whether the entity is reported as
  completed. HTTP listeners cannot be deleted from a router; that error is ignored and the
  entity is kept.
\<close>

definition delete_task :: "'w Client \<Rightarrow> RouterEntity \<Rightarrow> ('w, error option \<times> bool) prog" where
  "delete_task client n =
     bindp (RouterState_deleteEntity client (RouterEntity_Type n) (RouterEntity_GetName n)) (\<lambda>err.
       case err of
         None \<Rightarrow> ret (None, True)
       | Some e \<Rightarrow>
           if strings_Contains (error_string e) ''HTTP listeners cannot be deleted''
           then ret (None, False) else ret (Some e, False))"

definition delete_err :: "(RouterEntity \<times> error option \<times> bool) list \<Rightarrow> error option" where
  "delete_err rs = first_err (map (\<lambda>(n, err, c). (n, err)) rs)"

definition delete_completed :: "(RouterEntity \<times> error option \<times> bool) list \<Rightarrow> RouterEntity list" where
  "delete_completed rs = map fst (filter (\<lambda>(n, err, c). c) rs)"

definition RouterState_DeleteEntities ::
  "'w sched \<Rightarrow> RouterEntity list \<Rightarrow> 'w RouterState \<Rightarrow> ('w, error option \<times> 'w RouterState) prog" where
  "RouterState_DeleteEntities sched names r =
     (if \<not> rs_initialized r then ret (Some NotInitializedError, r)
      else bindp (go_group sched (delete_task (rs_commandClient r)) names) (\<lambda>rs.
           bindp (if router_isConnectionError (delete_err rs) then RouterState_Reset r else ret r) (\<lambda>r'.
           ret (delete_err rs, r'\<lparr>rs_entities :=
             del_all RouterEntity_Type RouterEntity_GetName (delete_completed rs) (rs_entities r')\<rparr>))))"

section \<open>The invariant\<close>

text \<open>
  Every cached entity is filed under its type and name, and there is a name map for every type:
  unlike a broker state, a router state has them from the start.
\<close>

definition router_ok :: "'w RouterState \<Rightarrow> bool" where
  "router_ok r \<longleftrightarrow>
     store_ok RouterEntity_Type RouterEntity_GetName (rs_entities r) \<and> dom (rs_entities r) = UNIV"

lemma NewRouterState_ok: "NewRouterState c h p w = Some (r, w') \<Longrightarrow> router_ok r"
  by (auto simp: NewRouterState_def router_ok_def store_ok_def Let_def)

lemma Router_Reset_ok: "router_ok r \<Longrightarrow> RouterState_Reset r w = Some (r', w') \<Longrightarrow> router_ok r'"
  unfolding RouterState_Reset_def router_ok_def by (cases "rs_initialized r") (simp, elim conjE, hypsubst, simp, simp)

text \<open>One inversion rule for each of the two cache operations.\<close>

lemma Router_Ensure_cases:
  assumes "RouterState_EnsureEntities sched es r w = Some ((err, r'), w')"
  obtains (uninit) "\<not> rs_initialized r" "err = Some NotInitializedError" "r' = r" "w' = w"
  | (conflict) x e where "rs_initialized r"
      "to_create RouterEntity_Type RouterEntity_GetName RouterEntity_Equals (rs_entities r) es = Inl (x, e)"
      "err \<noteq> None" "r' = r" "w' = w"
  | (run) l fin w1 s where "rs_initialized r"
      "to_create RouterEntity_Type RouterEntity_GetName RouterEntity_Equals (rs_entities r) es = Inr l"
      "run_orders sched (create_task (rs_commandClient r))
         (\<lambda>order e. RouterEntity_Order e = order) [0..<router_maxOrder] l w = Some ((err, fin), w1)"
      "put_all RouterEntity_Type RouterEntity_GetName fin (rs_entities r) = Some s"
      "r' = r\<lparr>rs_initialized := (err = None), rs_entities := s\<rparr>"
      "w' = (if err = None then w1
             else Client_Start (rs_commandClient r) (Client_Stop (rs_commandClient r) w1))"
proof (cases "rs_initialized r")
  case False
  with assms show ?thesis by (intro uninit) (simp_all add: RouterState_EnsureEntities_def)
next
  case init: True
  show ?thesis
  proof (cases "to_create RouterEntity_Type RouterEntity_GetName RouterEntity_Equals (rs_entities r) es")
    case (Inl c)
    obtain x e where "c = (x, e)" by (cases c)
    with init assms Inl show ?thesis
      by (intro conflict [of x e]) (auto simp: RouterState_EnsureEntities_def)
  next
    case (Inr l)
    from assms init Inr obtain fin w1 where
      g: "run_orders sched (create_task (rs_commandClient r))
         (\<lambda>order e. RouterEntity_Order e = order) [0..<router_maxOrder] l w = Some ((err, fin), w1)" and
      k: "bindp (if router_isConnectionError err then RouterState_Reset r else ret r) (\<lambda>r'.
            bindp (liftO (put_all RouterEntity_Type RouterEntity_GetName fin (rs_entities r'))) (\<lambda>s.
            ret (err, r'\<lparr>rs_entities := s\<rparr>))) w1 = Some ((err, r'), w')"
      by (auto simp: RouterState_EnsureEntities_def bindp_eq_Some)
    from k init have "\<exists>s. put_all RouterEntity_Type RouterEntity_GetName fin (rs_entities r) = Some s \<and>
        r' = r\<lparr>rs_initialized := (err = None), rs_entities := s\<rparr> \<and>
        w' = (if err = None then w1
              else Client_Start (rs_commandClient r) (Client_Stop (rs_commandClient r) w1))"
      by (cases err)
        (auto simp: bindp_eq_Some router_isConnectionError_def RouterState_Reset_def liftO_def
          split: option.splits)
    with run [OF init Inr g] show ?thesis by blast
  qed
qed

lemma Router_Delete_cases:
  assumes "RouterState_DeleteEntities sched es r w = Some ((err, r'), w')"
  obtains (uninit) "\<not> rs_initialized r" "err = Some NotInitializedError" "r' = r" "w' = w"
  | (run) rs w1 where "rs_initialized r"
      "go_group sched (delete_task (rs_commandClient r)) es w = Some (rs, w1)"
      "err = delete_err rs"
      "r' = r\<lparr>rs_initialized := (err = None), rs_entities :=
         del_all RouterEntity_Type RouterEntity_GetName (delete_completed rs) (rs_entities r)\<rparr>"
      "w' = (if err = None then w1
             else Client_Start (rs_commandClient r) (Client_Stop (rs_commandClient r) w1))"
proof (cases "rs_initialized r")
  case False
  with assms show ?thesis by (intro uninit) (simp_all add: RouterState_DeleteEntities_def)
next
  case init: True
  from assms init obtain rs w1 where
    g: "go_group sched (delete_task (rs_commandClient r)) es w = Some (rs, w1)" and
    k: "bindp (if router_isConnectionError (delete_err rs) then RouterState_Reset r else ret r) (\<lambda>r'.
          ret (delete_err rs, r'\<lparr>rs_entities :=
             del_all RouterEntity_Type RouterEntity_GetName (delete_completed rs) (rs_entities r')\<rparr>)) w1
        = Some ((err, r'), w')"
    by (auto simp: RouterState_DeleteEntities_def bindp_eq_Some)
  from k init have "err = delete_err rs \<and> r' = r\<lparr>rs_initialized := (err = None), rs_entities :=
         del_all RouterEntity_Type RouterEntity_GetName (delete_completed rs) (rs_entities r)\<rparr> \<and>
      w' = (if err = None then w1
            else Client_Start (rs_commandClient r) (Client_Stop (rs_commandClient r) w1))"
    by (cases "delete_err rs") (auto simp: bindp_eq_Some router_isConnectionError_def RouterState_Reset_def)
  with run [OF init g] show ?thesis by blast
qed

section \<open>What the operations do to the cache\<close>

lemma router_orders: "RouterEntity_Order e \<in> set [0..<router_maxOrder]"
  by (cases e) (auto simp: router_maxOrder_def)

lemma router_upt: "[0..<router_maxOrder] = [0, 1]"
  by (simp add: router_maxOrder_def upt_rec)

lemma Router_Ensure_fin:
  assumes "to_create RouterEntity_Type RouterEntity_GetName RouterEntity_Equals (rs_entities r) es = Inr l"
    and "run_orders sched (create_task (rs_commandClient r))
         (\<lambda>order e. RouterEntity_Order e = order) [0..<router_maxOrder] l w = Some ((err, fin), w1)"
  shows "set fin \<subseteq> set l" and "err = None \<Longrightarrow> set fin = set l"
    and "\<forall>e \<in> set l. e \<in> set es \<and> rs_lookup r e = None"
proof -
  show "\<forall>e \<in> set l. e \<in> set es \<and> rs_lookup r e = None"
    using re.to_create_fresh [OF assms(1)] by blast
  show sub: "set fin \<subseteq> set l" using run_orders_subset [OF assms(2)] by auto
  show "set fin = set l" if "err = None"
    using run_orders_all [OF assms(2) [unfolded that]] sub router_orders by auto
qed

lemma Router_Ensure_keeps:
  assumes "RouterState_EnsureEntities sched es r w = Some ((err, r'), w')"
    and "lookup2 (rs_entities r) t n = Some x"
  shows "lookup2 (rs_entities r') t n = Some x"
  using assms(1)
proof (cases rule: Router_Ensure_cases)
  case (run l fin w1 s)
  note f = Router_Ensure_fin [OF run(2,3)]
  have "\<forall>e \<in> set fin. rs_lookup r e = None" using f(1,3) by blast
  from re.put_fresh_keeps [OF this run(4) assms(2)] run(5) show ?thesis by simp
qed (use assms(2) in simp_all)

lemma Router_Ensure_asked:
  assumes "RouterState_EnsureEntities sched es r w = Some ((err, r'), w')"
    and "lookup2 (rs_entities r') t n = Some x"
  shows "lookup2 (rs_entities r) t n = Some x \<or> x \<in> set es"
  using assms(1)
proof (cases rule: Router_Ensure_cases)
  case (run l fin w1 s)
  note f = Router_Ensure_fin [OF run(2,3)]
  show ?thesis
    using re.put_only_asked [OF run(4), of t n x] assms(2) run(5) f(1,3) by auto
qed (use assms(2) in simp_all)

text \<open>
  A request that names the same type and name twice with different contents is ambiguous: the
  goroutine that completes last wins. Callers build their lists from distinct names.
\<close>

definition consistent :: "RouterEntity list \<Rightarrow> bool" where
  "consistent es \<longleftrightarrow>
     (\<forall>e \<in> set es. \<forall>x \<in> set es. RouterEntity_Type x = RouterEntity_Type e \<longrightarrow>
        RouterEntity_GetName x = RouterEntity_GetName e \<longrightarrow> RouterEntity_Equals x e)"

lemma Router_Ensure_settled:
  assumes "RouterState_EnsureEntities sched es r w = Some ((None, r'), w')" and "consistent es"
  shows "rs_initialized r' \<and>
    to_create RouterEntity_Type RouterEntity_GetName RouterEntity_Equals (rs_entities r') es = Inr []"
  using assms(1)
proof (cases rule: Router_Ensure_cases)
  case (run l fin w1 s)
  note f = Router_Ensure_fin [OF run(2,3)]
  have "to_create RouterEntity_Type RouterEntity_GetName RouterEntity_Equals s es = Inr []"
    by (rule re.put_settled [OF _ run(2) run(4)])
      (use f assms(2) in \<open>auto simp: consistent_def\<close>)
  then show ?thesis using run(1,5) by simp
qed simp_all

lemma Router_Ensure_present:
  assumes "RouterState_EnsureEntities sched es r w = Some ((None, r'), w')" and "consistent es"
    and "e \<in> set es"
  shows "\<exists>x. rs_lookup r' e = Some x \<and> RouterEntity_Equals x e"
proof -
  have t: "to_create RouterEntity_Type RouterEntity_GetName RouterEntity_Equals (rs_entities r') es = Inr []"
    using Router_Ensure_settled [OF assms(1,2)] by simp
  have "rs_lookup r' e \<noteq> None"
    using re.to_create_Inr [OF t, symmetric] assms(3) unfolding filter_empty_conv by blast
  then obtain x where x: "rs_lookup r' e = Some x" by blast
  have "RouterEntity_Equals x e"
  proof (rule ccontr)
    assume "\<not> RouterEntity_Equals x e"
    then have "\<exists>c. to_create RouterEntity_Type RouterEntity_GetName RouterEntity_Equals (rs_entities r') es = Inl c"
      using re.to_create_conflict_iff assms(3) x by blast
    with t show False by simp
  qed
  with x show ?thesis by blast
qed

text \<open>When \<open>EnsureEntities\<close> reports success for a consistent list, the cache of
  the router holds an entity equal to each requested one, everything cached before is unchanged,
  nothing else has been added, and repeating the call sends no request and changes nothing.\<close>

theorem Router_EnsureEntities_success:
  assumes "RouterState_EnsureEntities sched es r w = Some ((None, r'), w')" and "consistent es"
  shows "(\<forall>e \<in> set es. \<exists>x. rs_lookup r' e = Some x \<and> RouterEntity_Equals x e) \<and>
    (\<forall>t n x. lookup2 (rs_entities r) t n = Some x \<longrightarrow> lookup2 (rs_entities r') t n = Some x) \<and>
    (\<forall>t n x. lookup2 (rs_entities r') t n = Some x \<longrightarrow>
       lookup2 (rs_entities r) t n = Some x \<or> x \<in> set es) \<and>
    RouterState_EnsureEntities sched' es r' w2 = Some ((None, r'), w2)"
proof (intro conjI)
  have "run_orders sched' (create_task c) sel [0..<router_maxOrder] [] = ret (None, [])"
    for c :: "'a Client" and sel by (rule run_orders_none) simp
  then show "RouterState_EnsureEntities sched' es r' w2 = Some ((None, r'), w2)"
    using Router_Ensure_settled [OF assms]
    by (simp add: RouterState_EnsureEntities_def router_isConnectionError_def liftO_def)
qed (use Router_Ensure_present [OF assms] Router_Ensure_keeps [OF assms(1)]
      Router_Ensure_asked [OF assms(1)] in blast)+

text \<open>Updates are refused. If a requested entity is cached with different contents,
  \<open>EnsureEntities\<close> fails without sending any request and without changing the state.\<close>

theorem Router_EnsureEntities_no_update:
  assumes "rs_initialized r" and "e \<in> set es" and "rs_lookup r e = Some x"
    and "\<not> RouterEntity_Equals x e"
  shows "\<exists>err. RouterState_EnsureEntities sched es r w = Some ((Some err, r), w)"
proof -
  obtain c where c: "to_create RouterEntity_Type RouterEntity_GetName RouterEntity_Equals
      (rs_entities r) es = Inl c"
    using re.to_create_conflict_iff assms(2-4) by blast
  show ?thesis using assms(1) c by (cases c) (simp add: RouterState_EnsureEntities_def)
qed

text \<open>Listeners and connectors are created last. If a call of \<open>EnsureEntities\<close> has
  made a listener or a connector known to the cache, then every requested entity of order 0 (the
  SSL profile it refers to among them) is known too, even when the call fails.\<close>

theorem Router_EnsureEntities_order:
  assumes "RouterState_EnsureEntities sched es r w = Some ((err, r'), w')"
    and "lookup2 (rs_entities r) t n = None" and "lookup2 (rs_entities r') t n = Some x"
    and "RouterEntity_Order x = 1"
    and "e \<in> set es" and "RouterEntity_Order e = 0"
  shows "rs_lookup r' e \<noteq> None"
  using assms(1)
proof (cases rule: Router_Ensure_cases)
  case (run l fin w1 s)
  show ?thesis
  proof (cases "rs_lookup r e")
    case None
    then have e: "e \<in> set l" using assms(5) re.to_create_Inr [OF run(2)] by auto
    have "x \<in> set fin" using re.put_only_asked [OF run(4)] assms(2,3) run(5) by simp
    then have "{y \<in> set l. RouterEntity_Order y = 0} \<subseteq> set fin"
      by (rule run_orders_second [OF run(3) [unfolded router_upt]]) (use assms(4) in simp)
    then have "e \<in> set fin" using e assms(6) by blast
    from put_all_mem [OF run(4) this] run(5) show ?thesis by auto
  next
    case (Some y)
    from Router_Ensure_keeps [OF assms(1) Some] show ?thesis by simp
  qed
qed (use assms in simp_all)

section \<open>Deletion\<close>

lemma delete_task_result:
  assumes "delete_task c n w = Some ((err, fin), w')"
  shows "(fin \<longrightarrow> err = None) \<and>
    (\<not> fin \<longrightarrow> err = None \<longrightarrow>
       (\<exists>e. RouterState_deleteEntity c (RouterEntity_Type n) (RouterEntity_GetName n) w = Some (Some e, w') \<and>
          strings_Contains (error_string e) ''HTTP listeners cannot be deleted''))"
  using assms by (auto simp: delete_task_def prog_simps split: option.splits if_splits)

text \<open>When \<open>DeleteEntities\<close> reports success, an entity outside the request is
  untouched, and a requested one has left the cache unless the router refused its deletion because
  it is an HTTP listener, in which case it is kept.\<close>

theorem Router_DeleteEntities_success:
  assumes "RouterState_DeleteEntities sched es r w = Some ((None, r'), w')"
  shows "((\<forall>e \<in> set es. (RouterEntity_Type e, RouterEntity_GetName e) \<noteq> (t, n)) \<longrightarrow>
      lookup2 (rs_entities r') t n = lookup2 (rs_entities r) t n) \<and>
    (\<forall>e \<in> set es. rs_lookup r' e = None \<or>
      (rs_lookup r' e = rs_lookup r e \<and>
       (\<exists>err v v'. RouterState_deleteEntity (rs_commandClient r) (RouterEntity_Type e)
            (RouterEntity_GetName e) v = Some (Some err, v') \<and>
          strings_Contains (error_string err) ''HTTP listeners cannot be deleted'')))"
  using assms
proof (cases rule: Router_Delete_cases)
  case (run rs w1)
  have look: "lookup2 (rs_entities r') t n =
      (if \<exists>e \<in> set (delete_completed rs). RouterEntity_Type e = t \<and> RouterEntity_GetName e = n then None
       else lookup2 (rs_entities r) t n)" for t n
    using run(4) by (simp add: lookup2_del_all)
  have sub: "set (delete_completed rs) \<subseteq> set es"
    using go_group_set [OF run(2)] by (force simp: delete_completed_def)
  have each: "rs_lookup r' e = None \<or>
      (rs_lookup r' e = rs_lookup r e \<and>
       (\<exists>err v v'. RouterState_deleteEntity (rs_commandClient r) (RouterEntity_Type e)
            (RouterEntity_GetName e) v = Some (Some err, v') \<and>
          strings_Contains (error_string err) ''HTTP listeners cannot be deleted''))"
    if "e \<in> set es" for e
  proof -
    from that go_group_set [OF run(2)] obtain a where a: "(e, a) \<in> set rs" by force
    obtain err fin where af: "a = (err, fin)" by (cases a)
    have "\<forall>(n, err, c) \<in> set rs. err = None"
      using run(3) [symmetric] by (auto simp: delete_err_def first_err_None_iff)
    then have "err = None" using a af by auto
    obtain v v' where "delete_task (rs_commandClient r) e v = Some ((err, fin), v')"
      using go_group_mem [OF run(2) a] af by blast
    note res = delete_task_result [OF this]
    show ?thesis
    proof (cases fin)
      case True
      then have "e \<in> set (delete_completed rs)" using a af by (force simp: delete_completed_def)
      then show ?thesis using look by auto
    next
      case False
      with res \<open>err = None\<close> have "\<exists>err v v'. RouterState_deleteEntity (rs_commandClient r)
          (RouterEntity_Type e) (RouterEntity_GetName e) v = Some (Some err, v') \<and>
          strings_Contains (error_string err) ''HTTP listeners cannot be deleted''" by blast
      moreover have "rs_lookup r' e = None \<or> rs_lookup r' e = rs_lookup r e" using look by simp
      ultimately show ?thesis by blast
    qed
  qed
  show ?thesis using each look sub by (auto split: if_splits)
qed simp

section \<open>No panic\<close>

text \<open>
  What is assumed of the client: a request returns, and the answer to a query is a table as the
  management protocol has it, with string column names and rows that are long enough.
\<close>

definition table_ok :: "(string \<times> avalue) list \<Rightarrow> bool" where
  "table_ok v \<longleftrightarrow>
     (case (attr v ''attributeNames'', attr v ''results'') of
        (AList names, AList rows) \<Rightarrow>
          list_all (\<lambda>a. case a of AString _ \<Rightarrow> True | _ \<Rightarrow> False) names \<and>
          list_all (\<lambda>row. case row of AList r \<Rightarrow> length names \<le> length r | _ \<Rightarrow> False) rows
      | _ \<Rightarrow> False)"

definition router_client_total :: "'w Client \<Rightarrow> bool" where
  "router_client_total c \<longleftrightarrow>
     (\<forall>m w. Client_RequestWithTimeout c m w \<noteq> None) \<and>
     (\<forall>t w resp v w'. Client_RequestWithTimeout c (query_request t) w = Some (Inr resp, w') \<longrightarrow>
        Value resp = AMap v \<longrightarrow> table_ok v)"

lemma request_total: "router_client_total c \<Longrightarrow> \<exists>r w'. Client_RequestWithTimeout c m w = Some (r, w')"
  unfolding router_client_total_def by (intro prog_returns) blast

lemma create_task_total: "router_client_total c \<Longrightarrow> create_task c e w \<noteq> None"
  using request_total [of c "router_request ''CREATE'' (RouterEntity_Type e) (RouterEntity_GetName e)
    (AMap (RouterEntityType_Encode e))" w]
  by (auto simp: create_task_def RouterState_createEntity_def RouterState_doRequest_def bindp_def
      split: sum.splits)

lemma delete_task_total: "router_client_total c \<Longrightarrow> delete_task c e w \<noteq> None"
  using request_total [of c "router_request ''DELETE'' (RouterEntity_Type e) (RouterEntity_GetName e) ANull" w]
  by (auto simp: delete_task_def RouterState_deleteEntity_def RouterState_doRequest_def bindp_def
      split: sum.splits option.splits)

lemma row_data_total:
  "list_all (\<lambda>a. case a of AString _ \<Rightarrow> True | _ \<Rightarrow> False) names \<Longrightarrow> length names \<le> length r \<Longrightarrow>
     row_data names r m \<noteq> None"
  by (induction names r m rule: row_data.induct) auto

lemma createMapData_total:
  "list_all (\<lambda>a. case a of AString _ \<Rightarrow> True | _ \<Rightarrow> False) names \<Longrightarrow>
     list_all (\<lambda>row. case row of AList r \<Rightarrow> length names \<le> length r | _ \<Rightarrow> False) rows \<Longrightarrow>
     createMapData names rows \<noteq> None"
proof (induction names rows rule: createMapData.induct)
  case (2 names r results)
  obtain m where "row_data names r [] = Some m" using row_data_total [of names r "[]"] 2 by auto
  with 2 show ?case by auto
qed auto

lemma table_total:
  assumes "table_ok v"
  obtains names rows data where "as_list (attr v ''attributeNames'') = Some names"
    "as_list (attr v ''results'') = Some rows" "createMapData names rows = Some data"
proof -
  from assms obtain names rows where
    s: "attr v ''attributeNames'' = AList names" "attr v ''results'' = AList rows" and
    "list_all (\<lambda>a. case a of AString _ \<Rightarrow> True | _ \<Rightarrow> False) names"
    "list_all (\<lambda>row. case row of AList r \<Rightarrow> length names \<le> length r | _ \<Rightarrow> False) rows"
    by (auto simp: table_ok_def split: avalue.splits)
  from createMapData_total [OF this(3,4)] s that show thesis by auto
qed

lemma answer_map_Inr: "answer_map resp = Inr v \<Longrightarrow> Value resp = AMap v"
  by (auto simp: answer_map_def split: sum.splits if_splits avalue.splits)

lemma Router_readEntities_total:
  assumes "router_client_total c"
  shows "RouterState_readEntities c t w \<noteq> None"
proof -
  obtain r w' where r: "Client_RequestWithTimeout c (query_request t) w = Some (r, w')"
    using request_total [OF assms] by blast
  show ?thesis
  proof (cases r)
    case (Inl e)
    with r show ?thesis
      by (simp add: RouterState_readEntities_def RouterState_queryEntities_def RouterState_doRequest_def
          bindE_def bindp_def)
  next
    case (Inr resp)
    show ?thesis
    proof (cases "answer_map resp")
      case (Inl e)
      with r Inr show ?thesis
        by (simp add: RouterState_readEntities_def RouterState_queryEntities_def RouterState_doRequest_def
            bindE_def bindp_def)
    next
      case v: (Inr v)
      have "table_ok v"
        using assms r Inr answer_map_Inr [OF v] unfolding router_client_total_def by blast
      then show ?thesis
        by (rule table_total) (use r Inr v in \<open>simp add: RouterState_readEntities_def liftO_def
          RouterState_queryEntities_def RouterState_doRequest_def bindE_def bindp_def\<close>)
    qed
  qed
qed

lemma decode_all_ok:
  "decode_all t data m = Inr m' \<Longrightarrow>
     gm_ok m \<and> (\<forall>(n, e) \<in> set m. RouterEntity_Type e = t \<and> RouterEntity_GetName e = n) \<Longrightarrow>
     gm_ok m' \<and> (\<forall>(n, e) \<in> set m'. RouterEntity_Type e = t \<and> RouterEntity_GetName e = n)"
proof (induction t data m rule: decode_all.induct)
  case (2 t entry data m)
  then obtain e where e: "RouterEntityType_Decode t entry = Inr e"
    and k: "decode_all t data (gm_put (RouterEntity_GetName e) e m) = Inr m'"
    by (auto split: sum.splits)
  have "gm_ok (gm_put (RouterEntity_GetName e) e m) \<and>
      (\<forall>(n, x) \<in> set (gm_put (RouterEntity_GetName e) e m). RouterEntity_Type x = t \<and> RouterEntity_GetName x = n)"
    using 2(3) Decode_Type [OF e] by (fastforce dest: gm_put_entries)
  from 2(1) [OF e k this] show ?case .
qed simp

lemma Router_readEntities_ok:
  assumes "RouterState_readEntities c t w = Some (Inr m, w')"
  shows "gm_ok m \<and> (\<forall>(n, e) \<in> set m. RouterEntity_Type e = t \<and> RouterEntity_GetName e = n)"
proof -
  obtain data where "decode_all t data [] = Inr m"
    using assms by (auto simp: RouterState_readEntities_def prog_simps)
  from decode_all_ok [OF this] show ?thesis by simp
qed

lemma router_init_ok:
  "router_client_total (rs_commandClient r) \<Longrightarrow> router_ok r \<Longrightarrow>
     \<exists>err r' w'. router_init_types ts r w = Some ((err, r'), w') \<and> router_ok r' \<and>
       (err = None \<longrightarrow> rs_initialized r') \<and> (err \<noteq> None \<longrightarrow> rs_initialized r' = rs_initialized r)"
proof (induction ts arbitrary: r w)
  case Nil
  then show ?case by (simp add: router_ok_def)
next
  case (Cons t ts)
  obtain l w1 where l: "RouterState_readEntities (rs_commandClient r) t w = Some (l, w1)"
    using prog_returns [OF Router_readEntities_total [OF Cons.prems(1)]] by blast
  show ?case
  proof (cases l)
    case (Inl e)
    with l Cons.prems show ?thesis by (simp add: bindp_def)
  next
    case (Inr m)
    have "store_ok RouterEntity_Type RouterEntity_GetName ((rs_entities r)(t \<mapsto> m))"
      using Cons.prems(2) Router_readEntities_ok [OF l [unfolded Inr]]
      by (simp add: router_ok_def store_ok_def)
    then have ok: "router_ok (r\<lparr>rs_entities := (rs_entities r)(t \<mapsto> m)\<rparr>)"
      using Cons.prems(2) by (simp add: router_ok_def)
    have "router_client_total (rs_commandClient (r\<lparr>rs_entities := (rs_entities r)(t \<mapsto> m)\<rparr>))"
      using Cons.prems(1) by simp
    from Cons.IH [OF this ok, of w1] l Inr show ?thesis by (simp add: bindp_def)
  qed
qed

lemma Router_Initialize_ok:
  assumes "router_client_total (rs_commandClient r)" and "router_ok r"
  shows "\<exists>err r' w'. RouterState_Initialize nr r w = Some ((err, r'), w') \<and> router_ok r' \<and>
    (err = None \<longleftrightarrow> rs_initialized r')"
proof (cases "rs_initialized r \<and> rs_reconnectCount r = Client_ReconnectCount (rs_commandClient r) w")
  case True
  with assms(2) show ?thesis by (simp add: RouterState_Initialize_def)
next
  case False
  define r2 where "r2 = r\<lparr>rs_initialized := False, rs_nextResync := nr,
    rs_reconnectCount := Client_ReconnectCount (rs_commandClient r) w\<rparr>"
  have "RouterState_Initialize nr r w = router_init_types router_entityTypes r2 w"
    using False by (cases r) (auto simp: RouterState_Initialize_def r2_def Let_def)
  moreover have "router_ok r2" "router_client_total (rs_commandClient r2)" "\<not> rs_initialized r2"
    using assms by (simp_all add: r2_def router_ok_def)
  ultimately show ?thesis using router_init_ok [of r2 router_entityTypes w] by fastforce
qed

lemma Router_Ensure_ok:
  assumes "router_client_total (rs_commandClient r)" and "router_ok r"
  shows "\<exists>err r' w'. RouterState_EnsureEntities sched es r w = Some ((err, r'), w') \<and> router_ok r'"
proof -
  have "RouterState_EnsureEntities sched es r w \<noteq> None"
  proof (cases "to_create RouterEntity_Type RouterEntity_GetName RouterEntity_Equals (rs_entities r) es")
    case (Inl c)
    then show ?thesis by (cases c) (simp add: RouterState_EnsureEntities_def)
  next
    case (Inr l)
    obtain err fin w1 where r: "run_orders sched (create_task (rs_commandClient r))
         (\<lambda>order e. RouterEntity_Order e = order) [0..<router_maxOrder] l w = Some ((err, fin), w1)"
      using prog_returns2 [OF run_orders_total [of "create_task (rs_commandClient r)",
        OF create_task_total [OF assms(1)]]] by blast
    obtain s where "put_all RouterEntity_Type RouterEntity_GetName fin (rs_entities r) = Some s"
      using put_all_defined [of RouterEntity_Type fin "rs_entities r" RouterEntity_GetName]
        assms(2) by (auto simp: router_ok_def)
    with Inr r show ?thesis
      by (simp add: RouterState_EnsureEntities_def bindp_def RouterState_Reset_def liftO_def)
  qed
  then obtain err r' w' where e: "RouterState_EnsureEntities sched es r w = Some ((err, r'), w')"
    using prog_returns2 by blast
  then have "router_ok r'"
  proof (cases rule: Router_Ensure_cases)
    case (run l fin w1 s)
    then show ?thesis
      using assms(2) store_ok_put [OF _ run(4)] dom_put_all [OF run(4)] by (simp add: router_ok_def)
  qed (use assms(2) in simp_all)
  with e show ?thesis by blast
qed

lemma Router_Delete_ok:
  assumes "router_client_total (rs_commandClient r)" and "router_ok r"
  shows "\<exists>err r' w'. RouterState_DeleteEntities sched es r w = Some ((err, r'), w') \<and> router_ok r'"
proof -
  have "go_group sched (delete_task (rs_commandClient r)) es w \<noteq> None"
    unfolding go_group_def by (rule run_tasks_total) (rule delete_task_total [OF assms(1)])
  then have "RouterState_DeleteEntities sched es r w \<noteq> None"
    by (auto simp: RouterState_DeleteEntities_def bindp_def RouterState_Reset_def split: prod.splits)
  then obtain err r' w' where e: "RouterState_DeleteEntities sched es r w = Some ((err, r'), w')"
    using prog_returns2 by blast
  then have "router_ok r'"
    by (cases rule: Router_Delete_cases) (use assms(2) in \<open>simp_all add: router_ok_def store_ok_del\<close>)
  with e show ?thesis by blast
qed

text \<open>Every operation of a router state returns without a panic when queries are
  answered by tables, and keeps the invariant; initialization succeeds exactly when the state ends up
  initialized.\<close>

theorem RouterState_invariant:
  assumes "router_client_total (rs_commandClient r)" and "router_ok r"
  shows "(\<exists>err r' w'. RouterState_Initialize nr r w = Some ((err, r'), w') \<and> router_ok r' \<and>
      (err = None \<longleftrightarrow> rs_initialized r')) \<and>
    (\<exists>err r' w'. RouterState_EnsureEntities sched es r w = Some ((err, r'), w') \<and> router_ok r') \<and>
    (\<exists>err r' w'. RouterState_DeleteEntities sched es r w = Some ((err, r'), w') \<and> router_ok r')"
  using Router_Initialize_ok [OF assms] Router_Ensure_ok [OF assms] Router_Delete_ok [OF assms] by simp

end
