(* ===== verification/Resources.thy ===== *)
theory Resources
  imports Prelude
begin

text \<open>
  The custom resources of \<open>pkg/apis/enmasse/v1\<close>: projects, endpoints, addresses and the
  messaging infrastructure, with their condition lists. Of the Kubernetes metadata the name, the
  namespace and, where the code reads them, the labels are kept. Go strings with named constants
  (phases, protocols, condition types) are strings, so that the empty zero value is one of them.
  A pointer to a struct is an option.
\<close>

section \<open>Conditions\<close>

type_synonym time = int

record Condition =
  cond_Type :: string
  cond_Status :: string
  cond_LastTransitionTime :: time
  cond_Reason :: string
  cond_Message :: string

definition ConditionTrue :: string where "ConditionTrue = ''True''"
definition ConditionFalse :: string where "ConditionFalse = ''False''"
definition ConditionUnknown :: string where "ConditionUnknown = ''Unknown''"

fun cond_index :: "string \<Rightarrow> Condition list \<Rightarrow> nat option" where
  "cond_index t [] = None"
| "cond_index t (c # cs) = (if cond_Type c = t then Some 0 else map_option Suc (cond_index t cs))"

text \<open>
  The lookup of a condition, the same for all resources: it returns the place of the condition,
  which is appended when it is missing.
\<close>

definition getCondition :: "time \<Rightarrow> string \<Rightarrow> Condition list \<Rightarrow> nat \<times> Condition list" where
  "getCondition now t cs =
     (case cond_index t cs of
        Some i \<Rightarrow> (i, cs)
      | None \<Rightarrow>
          (length cs, cs @ [\<lparr> cond_Type = t, cond_Status = ConditionUnknown,
             cond_LastTransitionTime = now, cond_Reason = '''', cond_Message = '''' \<rparr>]))"

definition Condition_SetStatus :: "time \<Rightarrow> string \<Rightarrow> string \<Rightarrow> string \<Rightarrow> Condition \<Rightarrow> Condition" where
  "Condition_SetStatus now status reason message c =
     (if cond_Status c \<noteq> status then c\<lparr>cond_Status := status, cond_LastTransitionTime := now\<rparr> else c)
       \<lparr>cond_Reason := reason, cond_Message := message\<rparr>"

section \<open>Addresses\<close>

record MessagingAddressSpecQueue =
  DeadLetterAddress :: string
  ExpiryAddress :: string

record MessagingAddressSpec =
  as_Address :: "string option"
  as_Anycast :: "unit option"
  as_Multicast :: "unit option"
  as_Queue :: "MessagingAddressSpecQueue option"
  as_Topic :: "unit option"
  as_Subscription :: "string option"
  as_DeadLetter :: "unit option"

record MessagingAddressBroker =
  mb_State :: string
  mb_Host :: string

definition MessagingAddressBrokerScheduled :: string where "MessagingAddressBrokerScheduled = ''Scheduled''"
definition MessagingAddressBrokerActive :: string where "MessagingAddressBrokerActive = ''Active''"

record MessagingAddressStatus =
  ast_Phase :: string
  ast_Message :: string
  ast_Conditions :: "Condition list"
  ast_Brokers :: "MessagingAddressBroker list"
  ast_Type :: string

record MessagingAddress =
  ma_Name :: string
  ma_Namespace :: string
  ma_DeletionTimestamp :: "time option"
  ma_Finalizers :: "string list"
  ma_Spec :: MessagingAddressSpec
  ma_Status :: MessagingAddressStatus

definition MessagingAddress_GetAddress :: "MessagingAddress \<Rightarrow> string" where
  "MessagingAddress_GetAddress m =
     (case as_Address (ma_Spec m) of Some a \<Rightarrow> a | None \<Rightarrow> ma_Name m)"

definition GetMessagingAddressCondition ::
  "time \<Rightarrow> string \<Rightarrow> MessagingAddressStatus \<Rightarrow> nat \<times> MessagingAddressStatus" where
  "GetMessagingAddressCondition now t m =
     (let (i, cs) = getCondition now t (ast_Conditions m) in (i, m\<lparr>ast_Conditions := cs\<rparr>))"

section \<open>Endpoints\<close>

type_synonym MessagingEndpointProtocol = string

definition MessagingProtocolAMQP :: MessagingEndpointProtocol where "MessagingProtocolAMQP = ''AMQP''"
definition MessagingProtocolAMQPS :: MessagingEndpointProtocol where "MessagingProtocolAMQPS = ''AMQPS''"
definition MessagingProtocolAMQPWS :: MessagingEndpointProtocol where "MessagingProtocolAMQPWS = ''AMQP-WS''"
definition MessagingProtocolAMQPWSS :: MessagingEndpointProtocol where "MessagingProtocolAMQPWSS = ''AMQP-WSS''"

lemmas protocol_defs = MessagingProtocolAMQP_def MessagingProtocolAMQPS_def
  MessagingProtocolAMQPWS_def MessagingProtocolAMQPWSS_def

record InputValue =
  iv_Value :: string
  iv_ValueFromSecret :: "(string \<times> string) option"

record MessagingEndpointSpecTls =
  tls_Protocols :: "string option"
  tls_Ciphers :: "string option"
  tls_Selfsigned :: "unit option"
  tls_Openshift :: "unit option"
  tls_External :: "(InputValue \<times> InputValue) option"

record MessagingEndpointSpec =
  es_Tls :: "MessagingEndpointSpecTls option"
  es_Annotations :: "(string, string) gomap"
  es_Protocols :: "MessagingEndpointProtocol list"
  es_Host :: "string option"
  es_Cluster :: "unit option"
  es_Ingress :: "unit option"
  es_Route :: "string option option"
  es_NodePort :: "unit option"
  es_LoadBalancer :: "unit option"

record MessagingEndpointPort =
  ep_Name :: string
  ep_Protocol :: MessagingEndpointProtocol
  ep_Port :: int

record MessagingEndpointStatusTls =
  tst_CertificateValidity :: "(time \<times> time) option"
  tst_CaCertificate :: string

record MessagingEndpointStatus =
  est_Phase :: string
  est_Type :: string
  est_Message :: string
  est_Conditions :: "Condition list"
  est_Host :: string
  est_Ports :: "MessagingEndpointPort list"
  est_Tls :: "MessagingEndpointStatusTls option"
  est_InternalPorts :: "MessagingEndpointPort list"

definition MessagingEndpointActive :: string where "MessagingEndpointActive = ''Active''"

record MessagingEndpoint =
  me_Name :: string
  me_Namespace :: string
  me_DeletionTimestamp :: "time option"
  me_Finalizers :: "string list"
  me_Spec :: MessagingEndpointSpec
  me_Status :: MessagingEndpointStatus

definition GetMessagingEndpointCondition ::
  "time \<Rightarrow> string \<Rightarrow> MessagingEndpointStatus \<Rightarrow> nat \<times> MessagingEndpointStatus" where
  "GetMessagingEndpointCondition now t m =
     (let (i, cs) = getCondition now t (est_Conditions m) in (i, m\<lparr>est_Conditions := cs\<rparr>))"

definition TLSTerminationEdge :: string where "TLSTerminationEdge = ''edge''"

definition MessagingEndpoint_IsEdgeTerminated :: "MessagingEndpoint \<Rightarrow> bool" where
  "MessagingEndpoint_IsEdgeTerminated e \<longleftrightarrow>
     es_Tls (me_Spec e) = None \<and>
     (es_Ingress (me_Spec e) \<noteq> None \<or>
      (case es_Route (me_Spec e) of
         None \<Rightarrow> False
       | Some termination \<Rightarrow> termination = None \<or> termination = Some TLSTerminationEdge))"

section \<open>Projects\<close>

record MessagingInfrastructureReference =
  ref_Name :: string
  ref_Namespace :: string

record MessagingProjectStatus =
  pst_Phase :: string
  pst_Message :: string
  pst_MessagingInfrastructureRef :: MessagingInfrastructureReference
  pst_Conditions :: "Condition list"
  pst_Capabilities :: "string list"
  pst_Broker :: "MessagingAddressBroker option"

record MessagingProjectSpec =
  ps_MessagingInfrastructureRef :: "MessagingInfrastructureReference option"
  ps_Capabilities :: "string list"

record MessagingProject =
  mp_Name :: string
  mp_Namespace :: string
  mp_DeletionTimestamp :: "time option"
  mp_Finalizers :: "string list"
  mp_Spec :: MessagingProjectSpec
  mp_Status :: MessagingProjectStatus

definition GetMessagingProjectCondition ::
  "time \<Rightarrow> string \<Rightarrow> MessagingProjectStatus \<Rightarrow> nat \<times> MessagingProjectStatus" where
  "GetMessagingProjectCondition now t m =
     (let (i, cs) = getCondition now t (pst_Conditions m) in (i, m\<lparr>pst_Conditions := cs\<rparr>))"

definition MessagingProject_IsBound :: "MessagingProject \<Rightarrow> bool" where
  "MessagingProject_IsBound t \<longleftrightarrow>
     ref_Name (pst_MessagingInfrastructureRef (mp_Status t)) \<noteq> '''' \<and>
     ref_Namespace (pst_MessagingInfrastructureRef (mp_Status t)) \<noteq> ''''"

section \<open>Infrastructures\<close>

record MessagingInfrastructureStatus =
  ist_Phase :: string
  ist_Message :: string
  ist_Conditions :: "Condition list"
  ist_Routers :: "string list"
  ist_Brokers :: "string list"

text \<open>Of the specification only the namespaces of the selector are kept: the images and the scaling strategies are read
  by the controllers that create the pods.\<close>

record MessagingInfrastructure =
  mi_Name :: string
  mi_Namespace :: string
  mi_DeletionTimestamp :: "time option"
  mi_Finalizers :: "string list"
  mi_NamespaceSelector :: "string list option"
  mi_Status :: MessagingInfrastructureStatus

definition GetMessagingInfrastructureCondition ::
  "time \<Rightarrow> string \<Rightarrow> MessagingInfrastructureStatus \<Rightarrow> nat \<times> MessagingInfrastructureStatus" where
  "GetMessagingInfrastructureCondition now t m =
     (let (i, cs) = getCondition now t (ist_Conditions m) in (i, m\<lparr>ist_Conditions := cs\<rparr>))"

section \<open>What a condition list does\<close>

text \<open>A list with at most one condition of each type.\<close>

definition conds_ok :: "Condition list \<Rightarrow> bool" where
  "conds_ok cs \<longleftrightarrow> distinct (map cond_Type cs)"

lemma cond_index_None: "cond_index t cs = None \<longleftrightarrow> t \<notin> cond_Type ` set cs"
  by (induction cs) auto

lemma cond_index_Some: "cond_index t cs = Some i \<Longrightarrow> i < length cs \<and> cond_Type (cs ! i) = t"
  by (induction cs arbitrary: i) (auto split: if_splits)

lemma cond_index_found:
  assumes "conds_ok cs" and "i < length cs" and "cond_Type (cs ! i) = t"
  shows "cond_index t cs = Some i"
proof (cases "cond_index t cs")
  case None
  with assms show ?thesis by (auto simp: cond_index_None)
next
  case (Some j)
  with cond_index_Some [OF this] assms show ?thesis
    by (auto simp: conds_ok_def distinct_conv_nth)
qed

text \<open>The condition getters return the place of the one condition of the asked type,
  keep every other condition and the uniqueness of types, and asking again returns the same place
  and changes nothing; setting the status of that place is visible to the next lookup and leaves all
  other places alone.\<close>

theorem getCondition_spec:
  assumes "conds_ok cs" and "getCondition now t cs = (i, cs')"
  shows "conds_ok cs' \<and> i < length cs' \<and> cond_Type (cs' ! i) = t \<and> (\<exists>ext. cs' = cs @ ext) \<and>
    getCondition now2 t (cs'[i := Condition_SetStatus now3 st re msg (cs' ! i)]) =
      (i, cs'[i := Condition_SetStatus now3 st re msg (cs' ! i)])"
proof -
  have ok: "conds_ok cs' \<and> i < length cs' \<and> cond_Type (cs' ! i) = t \<and> (\<exists>ext. cs' = cs @ ext)"
    using assms cond_index_Some [of t cs]
    by (auto simp: getCondition_def conds_ok_def cond_index_None split: option.splits)
  let ?ds = "cs'[i := Condition_SetStatus now3 st re msg (cs' ! i)]"
  have "map cond_Type ?ds = map cond_Type cs'"
    using ok by (intro nth_equalityI) (auto simp: nth_list_update Condition_SetStatus_def)
  with ok have "cond_index t ?ds = Some i"
    by (intro cond_index_found) (auto simp: conds_ok_def Condition_SetStatus_def)
  with ok show ?thesis by (simp add: getCondition_def)
qed

definition example_conditions :: "Condition list" where
  "example_conditions = [\<lparr> cond_Type = ''Ready'', cond_Status = ''True'', cond_LastTransitionTime = 1,
     cond_Reason = '''', cond_Message = '''' \<rparr>]"

theorem getCondition_spec_witness:
  "conds_ok (snd (getCondition 5 ''Created'' example_conditions)) \<and>
   fst (getCondition 5 ''Created'' example_conditions) = 1"
  using getCondition_spec [of example_conditions 5 "''Created''" 1
      "snd (getCondition 5 ''Created'' example_conditions)"]
  by (simp add: getCondition_def example_conditions_def conds_ok_def)

end
