(* ===== verification/Infra.thy ===== *)
theory Infra
  imports Broker_State Router_State Resources
begin

text \<open>
  \<open>pkg/state/infra.go\<close>: the client of one messaging infrastructure. This theory holds its state
  (\<open>infraClient\<close>), the names it derives for router entities, and the helpers that run an
  operation on all routers or all brokers. Every method takes the lock of the client, so methods
  are run one after another; the goroutines inside a method are the goroutine groups.
\<close>

section \<open>State\<close>

record resourceKey =
  rk_Name :: string
  rk_Namespace :: string

datatype resource =
    RAddress MessagingAddress
  | REndpoint MessagingEndpoint
  | RProject MessagingProject
  | ROther string string

fun GetName :: "resource \<Rightarrow> string" where
  "GetName (RAddress a) = ma_Name a"
| "GetName (REndpoint e) = me_Name e"
| "GetName (RProject p) = mp_Name p"
| "GetName (ROther n ns) = n"

fun GetNamespace :: "resource \<Rightarrow> string" where
  "GetNamespace (RAddress a) = ma_Namespace a"
| "GetNamespace (REndpoint e) = me_Namespace e"
| "GetNamespace (RProject p) = mp_Namespace p"
| "GetNamespace (ROther n ns) = ns"

definition key_of :: "resource \<Rightarrow> resourceKey" where
  "key_of r = \<lparr> rk_Name = GetName r, rk_Namespace = GetNamespace r \<rparr>"

definition default_key :: "string \<Rightarrow> resourceKey" where
  "default_key ns = \<lparr> rk_Name = ''default'', rk_Namespace = ns \<rparr>"

text \<open>
  A request is known by the identity of its pointer. Its \<open>done\<close> channel is represented by the
  list of replies that a batch produces.
\<close>

record request =
  req_id :: nat
  req_resource :: resource

type_synonym replies = "(request \<times> error option) list"

record TlsConfig =
  Certificates :: string
  RootCAs :: string
  ServerName :: string

text \<open>The router ports: a port is bound to a name or free.\<close>

type_synonym portmap = "(int, string option) gomap"

record 'w infraClient =
  ic_routers :: "(Host, 'w RouterState) gomap"
  ic_brokers :: "(Host, 'w BrokerState) gomap"
  ic_hostMap :: "string \<rightharpoonup> Host"
  ic_initialized :: bool
  ic_tlsConfig :: "TlsConfig option"
  ic_ports :: portmap
  ic_addresses :: "(resourceKey, MessagingAddress) gomap"
  ic_endpoints :: "(resourceKey, MessagingEndpoint) gomap"
  ic_projects :: "(resourceKey, MessagingProject) gomap"
  ic_routerStateFactory :: "Host \<Rightarrow> int \<Rightarrow> TlsConfig option \<Rightarrow> ('w, 'w RouterState) prog"
  ic_brokerStateFactory :: "Host \<Rightarrow> int \<Rightarrow> TlsConfig option \<Rightarrow> ('w, 'w BrokerState) prog"
  ic_clock :: "'w \<Rightarrow> time"
  ic_resyncInterval :: time

definition second :: time where
  "second = 1000000000"

definition NewInfra ::
  "(Host \<Rightarrow> int \<Rightarrow> TlsConfig option \<Rightarrow> ('w, 'w RouterState) prog)
    \<Rightarrow> (Host \<Rightarrow> int \<Rightarrow> TlsConfig option \<Rightarrow> ('w, 'w BrokerState) prog)
    \<Rightarrow> ('w \<Rightarrow> time) \<Rightarrow> 'w infraClient" where
  "NewInfra routerFactory brokerFactory clock =
     \<lparr> ic_routers = [], ic_brokers = [], ic_hostMap = Map.empty, ic_initialized = False,
       ic_tlsConfig = None, ic_ports = map (\<lambda>i. (i, None)) [40000..40099],
       ic_addresses = [], ic_endpoints = [], ic_projects = [],
       ic_routerStateFactory = routerFactory, ic_brokerStateFactory = brokerFactory,
       ic_clock = clock, ic_resyncInterval = 1800 * second \<rparr>"

section \<open>Names\<close>

definition autoLinkName :: "string \<Rightarrow> MessagingAddress \<Rightarrow> string \<Rightarrow> string \<Rightarrow> string" where
  "autoLinkName projectId address host direction =
     ''autoLink-'' @ projectId @ ''-'' @ ma_Name address @ ''-'' @ host @ ''-'' @ direction"

definition globalLinkRouteName :: "string \<Rightarrow> string \<Rightarrow> string \<Rightarrow> string" where
  "globalLinkRouteName projectId host direction =
     ''linkRoute-'' @ projectId @ ''-'' @ host @ ''-'' @ direction"

definition linkRouteName :: "string \<Rightarrow> MessagingAddress \<Rightarrow> string \<Rightarrow> string \<Rightarrow> string" where
  "linkRouteName projectId address host direction =
     ''linkRoute-'' @ projectId @ ''-'' @ ma_Name address @ ''-'' @ host @ ''-'' @ direction"

definition addressName :: "string \<Rightarrow> MessagingAddress \<Rightarrow> string" where
  "addressName projectId address = ''address-'' @ projectId @ ''-'' @ ma_Name address"

definition qualifiedAddress :: "string \<Rightarrow> string \<Rightarrow> string" where
  "qualifiedAddress projectId address = projectId @ ''/'' @ address"

definition connectorName :: "'w BrokerState \<Rightarrow> string" where
  "connectorName broker = ''connector-'' @ Hostname (bs_host broker) @ ''-'' @ show_int (bs_port broker)"

definition portName :: "MessagingEndpoint \<Rightarrow> MessagingEndpointProtocol \<Rightarrow> string" where
  "portName endpoint protocol = me_Namespace endpoint @ ''-'' @ me_Name endpoint @ ''-'' @ protocol"

definition listenerName :: "string \<Rightarrow> string" where
  "listenerName port = ''listener-'' @ port"

definition sslProfileName :: "string \<Rightarrow> string" where
  "sslProfileName port = ''sslProfile-'' @ port"

section \<open>All routers, all brokers\<close>

fun first_some :: "'a option list \<Rightarrow> 'a option" where
  "first_some [] = None"
| "first_some (x # xs) = (case x of None \<Rightarrow> first_some xs | Some a \<Rightarrow> Some a)"

lemma first_some_None [simp]: "first_some xs = None \<longleftrightarrow> (\<forall>x \<in> set xs. x = None)"
  by (induction xs) (auto split: option.splits)

text \<open>
  One goroutine per node. A node's state is only touched by its own goroutine, so the group runs
  the calls in some order and collects the results in that order.
\<close>

definition apply_all ::
  "'w sched \<Rightarrow> ('s \<Rightarrow> ('w, 'r \<times> 's) prog) \<Rightarrow> (Host, 's) gomap \<Rightarrow> ('w, 'r list \<times> (Host, 's) gomap) prog" where
  "apply_all sched fn m =
     bindp (go_group sched (\<lambda>hs. fn (snd hs)) m) (\<lambda>rs.
       ret (map (\<lambda>x. fst (snd x)) rs, map (\<lambda>x. (fst (fst x), snd (snd x))) rs))"

definition applyRouters ::
  "'w sched \<Rightarrow> ('w RouterState \<Rightarrow> ('w, error option \<times> 'w RouterState) prog) \<Rightarrow> 'w infraClient
    \<Rightarrow> ('w, error option \<times> 'w infraClient) prog" where
  "applyRouters sched fn i =
     bindp (apply_all sched fn (ic_routers i)) (\<lambda>(errs, m). ret (first_some errs, i\<lparr>ic_routers := m\<rparr>))"

definition applyBrokers ::
  "'w sched \<Rightarrow> ('w BrokerState \<Rightarrow> ('w, error option \<times> 'w BrokerState) prog) \<Rightarrow> 'w infraClient
    \<Rightarrow> ('w, error option \<times> 'w infraClient) prog" where
  "applyBrokers sched fn i =
     bindp (apply_all sched fn (ic_brokers i)) (\<lambda>(errs, m). ret (first_some errs, i\<lparr>ic_brokers := m\<rparr>))"

section \<open>The contract of a node operation\<close>

text \<open>
  What the infrastructure client relies on when it calls an operation of a router or broker
  state: on a good state the operation returns, the state stays good, and the node keeps its
  host. The lemmas on running the operation on all nodes are proved once from it.
\<close>

definition nodes_ok :: "('s \<Rightarrow> bool) \<Rightarrow> ('s \<Rightarrow> Host) \<Rightarrow> (Host, 's) gomap \<Rightarrow> bool" where
  "nodes_ok good host m \<longleftrightarrow> gm_ok m \<and> (\<forall>(h, s) \<in> set m. good s \<and> host s = h)"

locale node_op =
  fixes good :: "'s \<Rightarrow> bool"
    and host :: "'s \<Rightarrow> Host"
    and op :: "'s \<Rightarrow> ('w, 'r \<times> 's) prog"
  assumes op_returns: "good s \<Longrightarrow> \<exists>err s' w'. op s w = Some ((err, s'), w')"
    and op_good: "good s \<Longrightarrow> op s w = Some ((err, s'), w') \<Longrightarrow> good s' \<and> host s' = host s"
begin

lemma run_tasks_nodes:
  "\<forall>(h, s) \<in> set m. good s \<and> host s = h \<Longrightarrow>
     \<exists>rs w'. run_tasks (\<lambda>hs. op (snd hs)) m w = Some (rs, w') \<and>
       (\<forall>((h, s), (err, s')) \<in> set rs. good s' \<and> host s' = h)"
proof (induction m arbitrary: w)
  case (Cons hs m)
  obtain h s where hs: "hs = (h, s)" by (cases hs)
  with Cons.prems have g: "good s" "host s = h" by auto
  obtain err s' w1 where 1: "op s w = Some ((err, s'), w1)" using op_returns [OF g(1)] by blast
  obtain rs w2 where 2: "run_tasks (\<lambda>hs. op (snd hs)) m w1 = Some (rs, w2)"
    and 3: "\<forall>((h, s), (err, s')) \<in> set rs. good s' \<and> host s' = h"
    using Cons.IH [of w1] Cons.prems by auto
  have "run_tasks (\<lambda>hs. op (snd hs)) (hs # m) w = Some ((hs, (err, s')) # rs, w2)"
    using 1 2 hs by (simp add: bindp_def)
  moreover have "good s' \<and> host s' = h" using op_good [OF g(1) 1] g(2) by simp
  ultimately show ?case using 3 hs by simp
qed simp

lemma apply_all_ok:
  assumes "nodes_ok good host m"
  shows "\<exists>errs m' w'. apply_all sched op m w = Some ((errs, m'), w') \<and> nodes_ok good host m' \<and>
    fst ` set m' = fst ` set m"
proof -
  let ?p = "schedule (sched w (length m)) m"
  have "\<forall>(h, s) \<in> set ?p. good s \<and> host s = h" using assms by (auto simp: nodes_ok_def)
  from run_tasks_nodes [OF this] obtain rs w' where
    1: "run_tasks (\<lambda>hs. op (snd hs)) ?p w = Some (rs, w')" and
    2: "\<forall>((h, s), (err, s')) \<in> set rs. good s' \<and> host s' = h" by blast
  let ?m = "map (\<lambda>x. (fst (fst x), snd (snd x))) rs"
  have fst: "map fst rs = ?p" by (rule run_tasks_fst [OF 1])
  have keys: "map fst ?m = map fst ?p"
    unfolding fst [symmetric] by simp
  have "mset (map fst ?m) = mset (map fst m)" unfolding keys by (metis mset_map mset_schedule)
  then have d: "distinct (map fst ?m)" and s: "set (map fst ?m) = set (map fst m)"
    using assms mset_eq_imp_distinct_iff mset_eq_setD unfolding nodes_ok_def gm_ok_def by blast+
  have "\<forall>x \<in> set rs. good (snd (snd x)) \<and> host (snd (snd x)) = fst (fst x)"
    using 2 by (simp add: split_beta)
  then have "nodes_ok good host ?m" using d unfolding nodes_ok_def gm_ok_def by simp
  with 1 s show ?thesis
    by (auto simp: apply_all_def go_group_def bindp_def image_image)
qed

end

text \<open>
  An operation whose result says something about the node afterwards: the results of the group say
  it about all nodes. A postcondition of successful calls is the special case used most.
\<close>

locale node_result = node_op good host op
  for good :: "'s \<Rightarrow> bool" and host :: "'s \<Rightarrow> Host" and op :: "'s \<Rightarrow> ('w, 'r \<times> 's) prog" +
  fixes says :: "'r \<Rightarrow> 's \<Rightarrow> bool"
  assumes op_says: "good s \<Longrightarrow> op s w = Some ((r, s'), w') \<Longrightarrow> says r s'"
begin

lemma apply_all_says:
  assumes "nodes_ok good host m" and "apply_all sched op m w = Some ((rs, m'), w')"
  shows "list_all2 (\<lambda>r hs. says r (snd hs)) rs m'" and "length rs = length m"
proof -
  obtain xs where xs: "go_group sched (\<lambda>hs. op (snd hs)) m w = Some (xs, w')"
    "rs = map (\<lambda>x. fst (snd x)) xs" "m' = map (\<lambda>x. (fst (fst x), snd (snd x))) xs"
    using assms(2) by (auto simp: apply_all_def bindp_eq_Some)
  have "says (fst (snd x)) (snd (snd x))" if x: "x \<in> set xs" for x
  proof -
    obtain hs r s' where hs: "x = (hs, (r, s'))" by (metis prod.collapse)
    obtain v v' where "op (snd hs) v = Some ((r, s'), v')" using go_group_mem [OF xs(1)] x hs by blast
    moreover have "hs \<in> set m" using go_group_set [OF xs(1)] x hs by force
    then have "good (snd hs)" using assms(1) by (auto simp: nodes_ok_def)
    ultimately show ?thesis using op_says hs by simp
  qed
  then show "list_all2 (\<lambda>r hs. says r (snd hs)) rs m'"
    unfolding xs(2,3) list_all2_map1 list_all2_map2 by (simp add: list.rel_refl_strong)
  have "length xs = length m" using go_group_mset [OF xs(1)] by (metis length_map size_mset)
  then show "length rs = length m" by (simp add: xs(2))
qed

end

locale node_post = node_op good host op
  for good :: "'s \<Rightarrow> bool" and host :: "'s \<Rightarrow> Host" and op :: "'s \<Rightarrow> ('w, error option \<times> 's) prog" +
  fixes post :: "'s \<Rightarrow> bool"
  assumes op_post: "good s \<Longrightarrow> op s w = Some ((None, s'), w') \<Longrightarrow> post s'"

sublocale node_post \<subseteq> outcome: node_result good host op "\<lambda>err s. err = None \<longrightarrow> post s"
  by unfold_locales (use op_post in blast)

context node_post
begin

lemma apply_all_post:
  assumes "nodes_ok good host m" and "apply_all sched op m w = Some ((errs, m'), w')"
    and "first_some errs = None" and "(h, s') \<in> set m'"
  shows "post s'"
proof -
  have "list_all2 (\<lambda>err hs. err = None \<longrightarrow> post (snd hs)) errs m'"
    by (rule outcome.apply_all_says(1) [OF assms(1,2)])
  moreover have "\<forall>err \<in> set errs. err = None" using assms(3) by simp
  ultimately show ?thesis using assms(4)
    by (induction rule: list_all2_induct) auto
qed

end

definition broker_good :: "'w BrokerState \<Rightarrow> bool" where
  "broker_good b \<longleftrightarrow> broker_ok b \<and> client_total (bs_commandClient b)"

definition router_good :: "'w RouterState \<Rightarrow> bool" where
  "router_good r \<longleftrightarrow> router_ok r \<and> router_client_total (rs_commandClient r)"

lemma Ensure_frame:
  "BrokerState_EnsureEntities sched es b w = Some ((err, b'), w') \<Longrightarrow>
     bs_host b' = bs_host b \<and> bs_port b' = bs_port b \<and> bs_commandClient b' = bs_commandClient b"
  by (erule Ensure_cases) simp_all

lemma Delete_frame:
  "BrokerState_DeleteEntities sched es b w = Some ((err, b'), w') \<Longrightarrow>
     bs_host b' = bs_host b \<and> bs_port b' = bs_port b \<and> bs_commandClient b' = bs_commandClient b"
  by (erule Delete_cases) simp_all

lemma init_types_frame:
  "init_types ts b w = Some ((err, b'), w') \<Longrightarrow>
     bs_host b' = bs_host b \<and> bs_port b' = bs_port b \<and> bs_commandClient b' = bs_commandClient b"
proof (induction ts arbitrary: b w)
  case (Cons t ts)
  from Cons.prems obtain r w1 where "BrokerState_readEntities t b w = Some (r, w1)"
    and k: "(case r of Inl err \<Rightarrow> ret (Some err, b)
      | Inr l \<Rightarrow> init_types ts (b\<lparr>bs_entities := (bs_entities b)(t \<mapsto> l)\<rparr>)) w1 = Some ((err, b'), w')"
    by (auto simp: bindp_eq_Some)
  show ?case
  proof (cases r)
    case (Inl e)
    with k show ?thesis by auto
  next
    case (Inr l)
    with k have "init_types ts (b\<lparr>bs_entities := (bs_entities b)(t \<mapsto> l)\<rparr>) w1 = Some ((err, b'), w')" by simp
    from Cons.IH [OF this] show ?thesis by simp
  qed
qed auto

lemma Initialize_frame:
  "BrokerState_Initialize nr b w = Some ((err, b'), w') \<Longrightarrow>
     bs_host b' = bs_host b \<and> bs_port b' = bs_port b \<and> bs_commandClient b' = bs_commandClient b"
  by (auto simp: Initialize_run split: if_splits dest: init_types_frame)

lemma Router_Ensure_frame:
  "RouterState_EnsureEntities sched es b w = Some ((err, b'), w') \<Longrightarrow>
     rs_host b' = rs_host b \<and> rs_commandClient b' = rs_commandClient b"
  by (erule Router_Ensure_cases) simp_all

lemma Router_Delete_frame:
  "RouterState_DeleteEntities sched es b w = Some ((err, b'), w') \<Longrightarrow>
     rs_host b' = rs_host b \<and> rs_commandClient b' = rs_commandClient b"
  by (erule Router_Delete_cases) simp_all

lemma router_init_frame:
  "router_init_types ts b w = Some ((err, b'), w') \<Longrightarrow>
     rs_host b' = rs_host b \<and> rs_commandClient b' = rs_commandClient b"
proof (induction ts arbitrary: b w)
  case (Cons t ts)
  from Cons.prems obtain r w1 where "RouterState_readEntities (rs_commandClient b) t w = Some (r, w1)"
    and k: "(case r of Inl err \<Rightarrow> ret (Some err, b)
      | Inr l \<Rightarrow> router_init_types ts (b\<lparr>rs_entities := (rs_entities b)(t \<mapsto> l)\<rparr>)) w1 = Some ((err, b'), w')"
    by (auto simp: bindp_eq_Some)
  show ?case
  proof (cases r)
    case (Inl e)
    with k show ?thesis by auto
  next
    case (Inr l)
    with k have "router_init_types ts (b\<lparr>rs_entities := (rs_entities b)(t \<mapsto> l)\<rparr>) w1 = Some ((err, b'), w')" by simp
    from Cons.IH [OF this] show ?thesis by simp
  qed
qed auto

lemma Router_Initialize_frame:
  "RouterState_Initialize nr b w = Some ((err, b'), w') \<Longrightarrow>
     rs_host b' = rs_host b \<and> rs_commandClient b' = rs_commandClient b"
  by (auto simp: RouterState_Initialize_def Let_def split: if_splits dest: router_init_frame)

interpretation be_ensure: node_op broker_good bs_host "BrokerState_EnsureEntities sched es" for sched es
  by unfold_locales
    (auto simp: broker_good_def dest: Ensure_frame Ensure_ok intro: prog_returns2 [OF Ensure_total])

interpretation be_delete: node_op broker_good bs_host "BrokerState_DeleteEntities sched es" for sched es
  by unfold_locales
    (auto simp: broker_good_def dest: Delete_frame Delete_ok intro: prog_returns2 [OF Delete_total_state])

lemma Router_Ensure_good:
  assumes "router_good s"
  shows "\<exists>err s' w'. RouterState_EnsureEntities sched es s w = Some ((err, s'), w')"
    and "RouterState_EnsureEntities sched es s w = Some ((err, s'), w') \<Longrightarrow>
      router_good s' \<and> rs_host s' = rs_host s"
  using assms Router_Ensure_ok [of s sched es w] Router_Ensure_frame [of sched es s w err s' w']
  by (auto simp: router_good_def)

lemma Router_Delete_good:
  assumes "router_good s"
  shows "\<exists>err s' w'. RouterState_DeleteEntities sched es s w = Some ((err, s'), w')"
    and "RouterState_DeleteEntities sched es s w = Some ((err, s'), w') \<Longrightarrow>
      router_good s' \<and> rs_host s' = rs_host s"
  using assms Router_Delete_ok [of s sched es w] Router_Delete_frame [of sched es s w err s' w']
  by (auto simp: router_good_def)

interpretation re_ensure: node_op router_good rs_host "RouterState_EnsureEntities sched es" for sched es
  by unfold_locales (fact Router_Ensure_good)+

interpretation re_delete: node_op router_good rs_host "RouterState_DeleteEntities sched es" for sched es
  by unfold_locales (fact Router_Delete_good)+

text \<open>What a successful operation leaves in the cache of each node.\<close>

definition broker_has :: "BrokerEntity list \<Rightarrow> 'w BrokerState \<Rightarrow> bool" where
  "broker_has es b \<longleftrightarrow> (\<forall>e \<in> set es. \<exists>x. bs_lookup b e = Some x \<and> BrokerEntity_Equals x e)"

definition broker_lacks :: "BrokerEntity list \<Rightarrow> 'w BrokerState \<Rightarrow> bool" where
  "broker_lacks es b \<longleftrightarrow> (\<forall>e \<in> set es. bs_lookup b e = None)"

definition router_has :: "RouterEntity list \<Rightarrow> 'w RouterState \<Rightarrow> bool" where
  "router_has es r \<longleftrightarrow>
     (\<forall>e \<in> set es. rs_lookup r e \<noteq> None) \<and>
     (consistent es \<longrightarrow> (\<forall>e \<in> set es. \<exists>x. rs_lookup r e = Some x \<and> RouterEntity_Equals x e))"

lemma Router_Ensure_cached:
  assumes "RouterState_EnsureEntities sched es r w = Some ((None, r'), w')" and "e \<in> set es"
  shows "rs_lookup r' e \<noteq> None"
  using assms(1)
proof (cases rule: Router_Ensure_cases)
  case (run l fin w1 s)
  show ?thesis
  proof (cases "rs_lookup r e")
    case None
    then have "e \<in> set fin"
      using assms(2) Router_Ensure_fin(2) [OF run(2,3)] re.to_create_Inr [OF run(2)] by auto
    from put_all_mem [OF run(4) this] run(5) show ?thesis by auto
  next
    case (Some x)
    from Router_Ensure_keeps [OF assms(1) this] show ?thesis by simp
  qed
qed simp_all

lemma Delete_gone:
  assumes "BrokerState_DeleteEntities sched es b w = Some ((None, b'), w')" and "e \<in> set es"
  shows "bs_lookup b' e = None"
  using assms(1)
proof (cases rule: Delete_cases)
  case (run fin w1)
  have "set fin = {e \<in> set es. bs_lookup b e \<noteq> None}" using Delete_fin(2) [OF run(2)] by simp
  with run(3) assms(2) show ?thesis by (auto simp: lookup2_del_all)
qed simp

interpretation be_ensured: node_post broker_good bs_host "BrokerState_EnsureEntities sched es" "broker_has es"
  for sched es
  by unfold_locales (auto simp: broker_has_def dest: Ensure_present)

interpretation be_deleted: node_post broker_good bs_host "BrokerState_DeleteEntities sched es" "broker_lacks es"
  for sched es
  by unfold_locales (auto simp: broker_lacks_def dest: Delete_gone)

interpretation re_ensured: node_post router_good rs_host "RouterState_EnsureEntities sched es" "router_has es"
  for sched es
  by unfold_locales (auto simp: router_has_def dest: Router_Ensure_cached Router_Ensure_present)

end
