(* ===== verification/Infra_Hosts.thy ===== *)
theory Infra_Hosts
  imports Infra
begin

text \<open>
  The nodes of an infrastructure: adding, removing and initializing the router and broker states
  when the set of hosts changes (\<open>updateRouters\<close>, \<open>updateBrokers\<close>, \<open>initialize\<close>,
  \<open>checkResync\<close>, \<open>DeleteBroker\<close>), and the placement of projects and addresses on brokers
  (\<open>ScheduleProject\<close>, \<open>ScheduleAddress\<close> and \<open>pkg/state/scheduler/dummy.go\<close>).
\<close>

section \<open>Updating the set of nodes\<close>

definition wanted_hosts :: "Host list \<Rightarrow> (string, Host) gomap" where
  "wanted_hosts hosts = fold (\<lambda>host. gm_put (Hostname host) host) hosts []"

text \<open>The comparison with the known hosts: what is to be added and what is to be removed.\<close>

fun host_diff ::
  "Host list \<Rightarrow> (string, Host) gomap \<Rightarrow> (string, Host) gomap \<Rightarrow> (string, Host) gomap \<times> (string, Host) gomap" where
  "host_diff [] toAdd toRemove = (toAdd, toRemove)"
| "host_diff (host # hosts) toAdd toRemove =
     (case map_of toAdd (Hostname host) of
        None \<Rightarrow> host_diff hosts toAdd (gm_put (Hostname host) host toRemove)
      | Some entry \<Rightarrow>
          if Ip entry \<noteq> Ip host
          then host_diff hosts toAdd (gm_put (Hostname host) host toRemove)
          else host_diff hosts (gm_del (Hostname host) toAdd) toRemove)"

definition node_tls :: "TlsConfig option \<Rightarrow> Host \<Rightarrow> TlsConfig option" where
  "node_tls tlsConfig host = map_option (\<lambda>t. t\<lparr>ServerName := Hostname host\<rparr>) tlsConfig"

fun remove_routers :: "(string, Host) gomap \<Rightarrow> 'w infraClient \<Rightarrow> ('w, 'w infraClient) prog" where
  "remove_routers [] i = ret i"
| "remove_routers ((hostname, host) # toRemove) i =
     bindp (liftO (map_of (ic_routers i) host)) (\<lambda>router.
     bindp (RouterState_Shutdown router) (\<lambda>_.
       remove_routers toRemove
         (i\<lparr>ic_hostMap := (ic_hostMap i)(hostname := None), ic_routers := gm_del host (ic_routers i)\<rparr>)))"

fun add_routers :: "(string, Host) gomap \<Rightarrow> 'w infraClient \<Rightarrow> ('w, 'w infraClient) prog" where
  "add_routers [] i = ret i"
| "add_routers ((hostname, host) # toAdd) i =
     bindp (ic_routerStateFactory i host 55671 (node_tls (ic_tlsConfig i) host)) (\<lambda>routerState.
       add_routers toAdd
         (i\<lparr>ic_routers := gm_put host routerState (ic_routers i),
            ic_hostMap := (ic_hostMap i)(hostname \<mapsto> host)\<rparr>))"

definition updateRouters :: "Host list \<Rightarrow> 'w infraClient \<Rightarrow> ('w, 'w infraClient) prog" where
  "updateRouters hosts i =
     (let (toAdd, toRemove) = host_diff (map fst (ic_routers i)) (wanted_hosts hosts) []
      in bindp (remove_routers toRemove i) (\<lambda>i'. add_routers toAdd i'))"

fun remove_brokers ::
  "'w sched \<Rightarrow> bool \<Rightarrow> (string, Host) gomap \<Rightarrow> (string, Host) gomap \<Rightarrow> 'w infraClient
    \<Rightarrow> ('w, error option \<times> 'w infraClient) prog" where
  "remove_brokers sched removeRouterConnectors toAdd [] i = ret (None, i)"
| "remove_brokers sched removeRouterConnectors toAdd ((hostname, host) # toRemove) i =
     bindp (liftO (map_of (ic_brokers i) host)) (\<lambda>broker.
     bindp (if map_of toAdd hostname = None \<and> removeRouterConnectors
            then applyRouters sched
                   (RouterState_DeleteEntities sched
                      [RENamed \<lparr> ne_EntityType = RouterConnectorEntity, ne_Name = connectorName broker \<rparr>]) i
            else ret (None, i)) (\<lambda>(err, i1).
       if err \<noteq> None then ret (err, i1)
       else bindp (BrokerState_Shutdown broker) (\<lambda>_.
         remove_brokers sched removeRouterConnectors toAdd toRemove
           (i1\<lparr>ic_hostMap := (ic_hostMap i1)(hostname := None), ic_brokers := gm_del host (ic_brokers i1)\<rparr>))))"

fun add_brokers :: "(string, Host) gomap \<Rightarrow> 'w infraClient \<Rightarrow> ('w, 'w infraClient) prog" where
  "add_brokers [] i = ret i"
| "add_brokers ((hostname, host) # toAdd) i =
     bindp (ic_brokerStateFactory i host 5671 (node_tls (ic_tlsConfig i) host)) (\<lambda>brokerState.
       add_brokers toAdd
         (i\<lparr>ic_brokers := gm_put host brokerState (ic_brokers i),
            ic_hostMap := (ic_hostMap i)(hostname \<mapsto> host)\<rparr>))"

definition updateBrokers ::
  "'w sched \<Rightarrow> Host list \<Rightarrow> bool \<Rightarrow> 'w infraClient \<Rightarrow> ('w, error option \<times> 'w infraClient) prog" where
  "updateBrokers sched hosts removeRouterConnectors i =
     (let (toAdd, toRemove) = host_diff (map fst (ic_brokers i)) (wanted_hosts hosts) []
      in bindp (remove_brokers sched removeRouterConnectors toAdd toRemove i) (\<lambda>(err, i1).
           if err \<noteq> None then ret (err, i1)
           else bindp (add_brokers toAdd i1) (\<lambda>i2. ret (None, i2))))"

text \<open>
  A broker can only be removed by name when no known project or address is placed on it.
\<close>

definition broker_used :: "string \<Rightarrow> 'w infraClient \<Rightarrow> bool" where
  "broker_used host i \<longleftrightarrow>
     list_ex (\<lambda>(k, p). case pst_Broker (mp_Status p) of None \<Rightarrow> False | Some b \<Rightarrow> mb_Host b = host)
       (ic_projects i) \<or>
     list_ex (\<lambda>(k, a). list_ex (\<lambda>b. mb_Host b = host) (ast_Brokers (ma_Status a))) (ic_addresses i)"

definition DeleteBroker :: "'w sched \<Rightarrow> string \<Rightarrow> 'w infraClient \<Rightarrow> ('w, error option \<times> 'w infraClient) prog" where
  "DeleteBroker sched host i =
     (let states = map snd (ic_brokers i);
          newBrokers = map bs_host (filter (\<lambda>b. Hostname (bs_host b) \<noteq> host) states)
      in if \<not> list_ex (\<lambda>b. Hostname (bs_host b) = host) states then ret (None, i)
         else if broker_used host i then ret (Some BrokerInUseError, i)
         else updateBrokers sched newBrokers False i)"

section \<open>Initialization\<close>

text \<open>
  The random number generator of \<open>math/rand\<close> is a parameter: \<open>rand n\<close> draws a number below
  \<open>n\<close>.
\<close>

type_synonym 'w rand = "nat \<Rightarrow> ('w, nat) prog"

definition randomResync :: "'w rand \<Rightarrow> time \<Rightarrow> 'w infraClient \<Rightarrow> ('w, time) prog" where
  "randomResync rand now i =
     bindp (rand (30 - 10)) (\<lambda>n. ret (now + ic_resyncInterval i + (int n + 10) * second))"

fun reset_due ::
  "('s \<Rightarrow> time) \<Rightarrow> ('s \<Rightarrow> ('w, 's) prog) \<Rightarrow> time \<Rightarrow> (Host, 's) gomap \<Rightarrow> ('w, (Host, 's) gomap) prog" where
  "reset_due next reset now [] = ret []"
| "reset_due next reset now ((host, s) # m) =
     bindp (if next s < now then reset s else ret s) (\<lambda>s'.
     bindp (reset_due next reset now m) (\<lambda>m'. ret ((host, s') # m')))"

definition checkResync :: "'w infraClient \<Rightarrow> ('w, 'w infraClient) prog" where
  "checkResync i = (\<lambda>w.
     let now = ic_clock i w
     in bindp (reset_due rs_nextResync RouterState_Reset now (ic_routers i)) (\<lambda>routers.
        bindp (reset_due bs_nextResync BrokerState_Reset now (ic_brokers i)) (\<lambda>brokers.
        ret (i\<lparr>ic_routers := routers, ic_brokers := brokers\<rparr>))) w)"

definition initialize :: "'w sched \<Rightarrow> 'w rand \<Rightarrow> 'w infraClient \<Rightarrow> ('w, error option \<times> 'w infraClient) prog" where
  "initialize sched rand i = (\<lambda>w.
     let now = ic_clock i w
     in bindp (applyRouters sched
                 (\<lambda>router. bindp (randomResync rand now i) (\<lambda>t. RouterState_Initialize t router)) i) (\<lambda>(err, i1).
          if err \<noteq> None then ret (err, i1)
          else applyBrokers sched
                 (\<lambda>broker. bindp (randomResync rand now i) (\<lambda>t. BrokerState_Initialize t broker)) i1) w)"

section \<open>Placement\<close>

definition scheduled :: "'w BrokerState \<Rightarrow> MessagingAddressBroker" where
  "scheduled broker =
     \<lparr> mb_State = MessagingAddressBrokerScheduled, mb_Host = Hostname (bs_host broker) \<rparr>"

definition set_project_broker :: "MessagingAddressBroker \<Rightarrow> MessagingProject \<Rightarrow> MessagingProject" where
  "set_project_broker b p = p\<lparr>mp_Status := (mp_Status p)\<lparr>pst_Broker := Some b\<rparr>\<rparr>"

definition set_address_brokers :: "MessagingAddressBroker list \<Rightarrow> MessagingAddress \<Rightarrow> MessagingAddress" where
  "set_address_brokers bs a = a\<lparr>ma_Status := (ma_Status a)\<lparr>ast_Brokers := bs\<rparr>\<rparr>"

fun dummy_ScheduleProject ::
  "MessagingProject \<Rightarrow> 'w BrokerState list \<Rightarrow> error option \<times> MessagingProject" where
  "dummy_ScheduleProject project (broker # _) = (None, set_project_broker (scheduled broker) project)"
| "dummy_ScheduleProject project [] = (Some (Errorf ''no brokers available''), project)"

fun dummy_ScheduleAddress ::
  "MessagingAddress \<Rightarrow> 'w BrokerState list \<Rightarrow> error option \<times> MessagingAddress" where
  "dummy_ScheduleAddress address (broker # _) =
     (None, set_address_brokers (ast_Brokers (ma_Status address) @ [scheduled broker]) address)"
| "dummy_ScheduleAddress address [] = (Some (Errorf ''no brokers available''), address)"

definition ScheduleProject :: "MessagingProject \<Rightarrow> 'w infraClient \<Rightarrow> error option \<times> MessagingProject" where
  "ScheduleProject project i =
     (if \<not> ic_initialized i then (Some NotInitializedError, project)
      else dummy_ScheduleProject project (map snd (ic_brokers i)))"

definition ScheduleAddress :: "MessagingAddress \<Rightarrow> 'w infraClient \<Rightarrow> error option \<times> MessagingAddress" where
  "ScheduleAddress address i =
     (if \<not> ic_initialized i then (Some NotInitializedError, address)
      else case map_of (ic_projects i) (default_key (ma_Namespace address)) of
          None \<Rightarrow> (Some ProjectNotFoundError, address)
        | Some project \<Rightarrow>
            (case pst_Broker (mp_Status project) of
               Some b \<Rightarrow> (None, set_address_brokers [b] address)
             | None \<Rightarrow> dummy_ScheduleAddress address (map snd (ic_brokers i))))"

section \<open>What the comparison of hosts gives\<close>

definition keyed :: "(string, Host) gomap \<Rightarrow> bool" where
  "keyed m \<longleftrightarrow> gm_ok m \<and> (\<forall>(n, h) \<in> set m. Hostname h = n)"

lemma keyed_put: "keyed m \<Longrightarrow> keyed (gm_put (Hostname h) h m)"
  by (fastforce simp: keyed_def dest: gm_put_entries)

lemma keyed_del: "keyed m \<Longrightarrow> keyed (gm_del n m)"
  by (fastforce simp: keyed_def dest: gm_del_entries)

lemma keyed_get: "keyed m \<Longrightarrow> map_of m n = Some h \<Longrightarrow> Hostname h = n"
  by (fastforce simp: keyed_def dest: map_of_SomeD)

lemma keyed_values:
  assumes "keyed m"
  shows "h \<in> snd ` set m \<longleftrightarrow> map_of m (Hostname h) = Some h"
proof
  assume "h \<in> snd ` set m"
  then obtain n where "(n, h) \<in> set m" by auto
  moreover from this have "Hostname h = n" using assms by (auto simp: keyed_def)
  ultimately show "map_of m (Hostname h) = Some h" using assms by (simp add: keyed_def gm_in_set)
next
  assume "map_of m (Hostname h) = Some h"
  from imageI [OF map_of_SomeD [OF this], of snd] show "h \<in> snd ` set m" by simp
qed

lemma keyed_Cons:
  assumes "keyed ((n, h) # R)"
  shows "keyed R \<and> h \<notin> snd ` set R \<and> n \<notin> fst ` set R \<and> Hostname h = n"
proof -
  have "keyed R" "n \<notin> fst ` set R" "Hostname h = n" using assms by (auto simp: keyed_def gm_ok_def)
  moreover have "h \<notin> snd ` set R"
  proof
    assume "h \<in> snd ` set R"
    then have "map_of R n = Some h" using keyed_values [OF \<open>keyed R\<close>] \<open>Hostname h = n\<close> by simp
    with \<open>n \<notin> fst ` set R\<close> show False by (auto dest!: map_of_SomeD simp: image_iff)
  qed
  ultimately show ?thesis by blast
qed

lemma keyed_wanted: "keyed (wanted_hosts hosts)"
proof -
  have "keyed m \<Longrightarrow> keyed (fold (\<lambda>host. gm_put (Hostname host) host) hosts m)" for m
    by (induction hosts arbitrary: m) (auto intro: keyed_put)
  from this [of "[]"] show ?thesis unfolding wanted_hosts_def by (simp add: keyed_def)
qed

lemma host_eq: "(h :: Host) = h' \<longleftrightarrow> Hostname h = Hostname h' \<and> Ip h = Ip h'"
  by (cases h; cases h') simp

lemma host_diff_step:
  "keyed A \<Longrightarrow> host_diff (h # hs) A R =
     (if map_of A (Hostname h) = Some h then host_diff hs (gm_del (Hostname h) A) R
      else host_diff hs A (gm_put (Hostname h) h R))"
proof (cases "map_of A (Hostname h)")
  case (Some e)
  assume "keyed A"
  from keyed_get [OF this Some] have "e = h \<longleftrightarrow> Ip e = Ip h" by (simp add: host_eq)
  with Some show ?thesis by simp
qed simp

lemma host_diff_closed:
  "keyed A \<Longrightarrow> distinct (map Hostname ks) \<Longrightarrow>
     host_diff ks A R =
       (fold (\<lambda>h. gm_del (Hostname h)) (filter (\<lambda>h. map_of A (Hostname h) = Some h) ks) A,
        fold (\<lambda>h. gm_put (Hostname h) h) (filter (\<lambda>h. map_of A (Hostname h) \<noteq> Some h) ks) R)"
proof (induction ks arbitrary: A R)
  case (Cons h ks)
  have same: "map_of (gm_del (Hostname h) A) (Hostname x) = map_of A (Hostname x)" if "x \<in> set ks" for x
  proof -
    have "Hostname x \<noteq> Hostname h" using Cons.prems(2) imageI [OF that, of Hostname] by auto
    then show ?thesis by simp
  qed
  have f: "filter (\<lambda>x. map_of (gm_del (Hostname h) A) (Hostname x) = Some x) ks =
      filter (\<lambda>x. map_of A (Hostname x) = Some x) ks"
    "filter (\<lambda>x. map_of (gm_del (Hostname h) A) (Hostname x) \<noteq> Some x) ks =
      filter (\<lambda>x. map_of A (Hostname x) \<noteq> Some x) ks"
    by (rule filter_cong [OF refl], simp only: same)+
  have d: "distinct (map Hostname ks)" using Cons.prems(2) by simp
  show ?case
  proof (cases "map_of A (Hostname h) = Some h")
    case True
    then show ?thesis
      unfolding host_diff_step [OF Cons.prems(1)] Cons.IH [OF keyed_del [OF Cons.prems(1)] d] f by simp
  next
    case False
    then show ?thesis
      unfolding host_diff_step [OF Cons.prems(1)] Cons.IH [OF Cons.prems(1) d] by simp
  qed
qed simp

lemma fold_gm_del:
  "map_of (fold (\<lambda>h. gm_del (Hostname h)) hs A) n = (if n \<in> Hostname ` set hs then None else map_of A n)"
  by (induction hs arbitrary: A) auto

lemma keyed_fold_del: "keyed A \<Longrightarrow> keyed (fold (\<lambda>h. gm_del (Hostname h)) hs A)"
  by (induction hs arbitrary: A) (auto intro: keyed_del)

lemma keyed_fold_put: "keyed A \<Longrightarrow> keyed (fold (\<lambda>h. gm_put (Hostname h) h) hs A)"
  by (induction hs arbitrary: A) (auto intro: keyed_put)

lemma fold_gm_put:
  "distinct (map Hostname hs) \<Longrightarrow>
     map_of (fold (\<lambda>h. gm_put (Hostname h) h) hs A) n = Some h \<longleftrightarrow>
       (h \<in> set hs \<and> Hostname h = n) \<or> (n \<notin> Hostname ` set hs \<and> map_of A n = Some h)"
  by (induction hs arbitrary: A) auto

lemma still_to_add:
  "map_of (fold (\<lambda>h. gm_del (Hostname h)) (filter (\<lambda>h. map_of W (Hostname h) = Some h) ks) W) (Hostname h) = Some h
     \<longleftrightarrow> map_of W (Hostname h) = Some h \<and> h \<notin> set ks"
proof -
  let ?D = "Hostname ` set (filter (\<lambda>h. map_of W (Hostname h) = Some h) ks)"
  have "Hostname h \<in> ?D \<longleftrightarrow> h \<in> set ks" if w: "map_of W (Hostname h) = Some h"
  proof
    assume "Hostname h \<in> ?D"
    then obtain x where x: "x \<in> set ks" "map_of W (Hostname x) = Some x" "Hostname h = Hostname x" by auto
    from x(2) w have "x = h" unfolding x(3) by simp
    with x(1) show "h \<in> set ks" by simp
  qed (use w in simp)
  then show ?thesis unfolding fold_gm_del by (cases "Hostname h \<in> ?D") auto
qed

text \<open>
  With distinct host names among the known hosts, the hosts to be added are the wanted ones that
  are not known, and those to be removed are the known ones that are not wanted.
\<close>

lemma host_diff_spec:
  assumes "distinct (map Hostname ks)" and "host_diff ks (wanted_hosts hosts) [] = (toAdd, toRemove)"
  shows "keyed toAdd" "keyed toRemove"
    "snd ` set toAdd = snd ` set (wanted_hosts hosts) - set ks"
    "snd ` set toRemove = set ks - snd ` set (wanted_hosts hosts)"
proof -
  let ?W = "wanted_hosts hosts"
  note W = keyed_wanted [of hosts]
  have A: "toAdd = fold (\<lambda>h. gm_del (Hostname h)) (filter (\<lambda>h. map_of ?W (Hostname h) = Some h) ks) ?W"
    and R: "toRemove = fold (\<lambda>h. gm_put (Hostname h) h) (filter (\<lambda>h. map_of ?W (Hostname h) \<noteq> Some h) ks) []"
    using assms(2) unfolding host_diff_closed [OF W assms(1)] by simp_all
  show kA: "keyed toAdd" unfolding A by (rule keyed_fold_del [OF W])
  show kR: "keyed toRemove" unfolding R by (rule keyed_fold_put) (simp add: keyed_def)
  have W1: "h \<in> snd ` set ?W \<longleftrightarrow> map_of ?W (Hostname h) = Some h"
    and A1: "h \<in> snd ` set toAdd \<longleftrightarrow> map_of toAdd (Hostname h) = Some h"
    and R1: "h \<in> snd ` set toRemove \<longleftrightarrow> map_of toRemove (Hostname h) = Some h" for h
    using keyed_values W kA kR by blast+
  have d: "distinct (map Hostname (filter P ks))" for P using assms(1) by (rule distinct_map_filter)
  have "h \<in> snd ` set toAdd \<longleftrightarrow> h \<in> snd ` set ?W - set ks" for h
    unfolding A1 Diff_iff W1 unfolding A by (rule still_to_add)
  then show "snd ` set toAdd = snd ` set ?W - set ks" by blast
  have "h \<in> snd ` set toRemove \<longleftrightarrow> h \<in> set ks - snd ` set ?W" for h
    unfolding R1 Diff_iff W1 unfolding R fold_gm_put [OF d] by simp
  then show "snd ` set toRemove = set ks - snd ` set ?W" by blast
qed

section \<open>The invariant of the nodes\<close>

text \<open>
  Every node is filed under its own host, is in a good state, and no two routers and no two
  brokers share a host name. The operations of this theory leave everything but the nodes alone.
\<close>

definition hosts_ok :: "'w infraClient \<Rightarrow> bool" where
  "hosts_ok i \<longleftrightarrow>
     nodes_ok router_good rs_host (ic_routers i) \<and> inj_on Hostname (gm_keys (ic_routers i)) \<and>
     nodes_ok broker_good bs_host (ic_brokers i) \<and> inj_on Hostname (gm_keys (ic_brokers i))"

definition same_rest :: "'w infraClient \<Rightarrow> 'w infraClient \<Rightarrow> bool" where
  "same_rest i i' \<longleftrightarrow>
     i' = i\<lparr>ic_routers := ic_routers i', ic_brokers := ic_brokers i', ic_hostMap := ic_hostMap i'\<rparr>"

lemma same_rest_refl [simp]: "same_rest i i"
  by (simp add: same_rest_def)

lemma same_rest_trans: "same_rest i j \<Longrightarrow> same_rest j k \<Longrightarrow> same_rest i k"
  by (cases i; cases j; cases k) (simp add: same_rest_def)

lemma same_rest_upd [simp]:
  "same_rest i (i\<lparr>ic_routers := r\<rparr>)" "same_rest i (i\<lparr>ic_brokers := b\<rparr>)"
  "same_rest i (i\<lparr>ic_hostMap := h, ic_routers := r\<rparr>)" "same_rest i (i\<lparr>ic_hostMap := h, ic_brokers := b\<rparr>)"
  "same_rest i (i\<lparr>ic_routers := r, ic_hostMap := h\<rparr>)" "same_rest i (i\<lparr>ic_brokers := b, ic_hostMap := h\<rparr>)"
  by (simp_all add: same_rest_def)

lemma same_restD:
  "same_rest i i' \<Longrightarrow> ic_initialized i' = ic_initialized i \<and> ic_tlsConfig i' = ic_tlsConfig i \<and>
     ic_ports i' = ic_ports i \<and> ic_addresses i' = ic_addresses i \<and> ic_endpoints i' = ic_endpoints i \<and>
     ic_projects i' = ic_projects i \<and> ic_routerStateFactory i' = ic_routerStateFactory i \<and>
     ic_brokerStateFactory i' = ic_brokerStateFactory i \<and> ic_clock i' = ic_clock i \<and>
     ic_resyncInterval i' = ic_resyncInterval i"
  by (cases i; cases i') (simp add: same_rest_def)

text \<open>
  The factories are parameters of the client. What is assumed of them: they return a good state
  for the host and port they are given.
\<close>

definition factories_ok :: "'w infraClient \<Rightarrow> bool" where
  "factories_ok i \<longleftrightarrow>
     (\<forall>h p t w. \<exists>s w'. ic_routerStateFactory i h p t w = Some (s, w') \<and> router_good s \<and> rs_host s = h) \<and>
     (\<forall>h p t w. \<exists>s w'. ic_brokerStateFactory i h p t w = Some (s, w') \<and> broker_good s \<and> bs_host s = h)"

lemma same_rest_factories: "same_rest i i' \<Longrightarrow> factories_ok i' \<longleftrightarrow> factories_ok i"
  by (drule same_restD) (simp add: factories_ok_def)

lemma nodes_ok_del: "nodes_ok good host m \<Longrightarrow> nodes_ok good host (gm_del h m)"
  by (auto simp: nodes_ok_def dest: gm_del_entries)

lemma nodes_ok_put: "nodes_ok good host m \<Longrightarrow> good s \<Longrightarrow> host s = h \<Longrightarrow> nodes_ok good host (gm_put h s m)"
  by (auto simp: nodes_ok_def dest: gm_put_entries)

lemma gm_keys_put: "gm_keys (gm_put k v m) = insert k (gm_keys m)"
  by (simp add: dom_update)

lemma gm_keys_del: "gm_keys (gm_del k m) = gm_keys m - {k}"
  by (auto simp: AList.delete_eq)

lemma remove_routers_ok:
  "keyed R \<Longrightarrow> snd ` set R \<subseteq> gm_keys (ic_routers i) \<Longrightarrow> nodes_ok router_good rs_host (ic_routers i) \<Longrightarrow>
     \<exists>i' w'. remove_routers R i w = Some (i', w') \<and> same_rest i i' \<and> ic_brokers i' = ic_brokers i \<and>
       nodes_ok router_good rs_host (ic_routers i') \<and>
       map_of (ic_routers i') = map_of (ic_routers i) |` (- snd ` set R) \<and>
       ic_hostMap i' = ic_hostMap i |` (- fst ` set R)"
proof (induction R arbitrary: i w)
  case (Cons x R)
  obtain n h where x: "x = (n, h)" by (cases x)
  let ?i = "i\<lparr>ic_hostMap := (ic_hostMap i)(n := None), ic_routers := gm_del h (ic_routers i)\<rparr>"
  from Cons.prems(2) x obtain r where r: "map_of (ic_routers i) h = Some r"
    by (auto simp: gm_keys_dom)
  have k: "keyed R" and h: "h \<notin> snd ` set R"
    using keyed_Cons [of n h R] Cons.prems(1) x by simp_all
  have "snd ` set R \<subseteq> gm_keys (ic_routers ?i)"
    using Cons.prems(2) x h by (simp add: gm_keys_del subset_Diff_insert)
  moreover have "nodes_ok router_good rs_host (ic_routers ?i)"
    using Cons.prems(3) by (simp add: nodes_ok_del)
  ultimately obtain i' w' where
    1: "remove_routers R ?i (Client_Stop (rs_commandClient r) w) = Some (i', w')" "same_rest ?i i'"
      "ic_brokers i' = ic_brokers ?i" "nodes_ok router_good rs_host (ic_routers i')"
      "map_of (ic_routers i') = map_of (ic_routers ?i) |` (- snd ` set R)"
      "ic_hostMap i' = ic_hostMap ?i |` (- fst ` set R)"
    using Cons.IH [OF k, of ?i] by blast
  have "remove_routers (x # R) i w = Some (i', w')"
    using r 1(1) x by (simp add: bindp_def liftO_def RouterState_Shutdown_def)
  moreover have "same_rest i i'" using same_rest_trans [OF _ 1(2), of i] by simp
  moreover have "map_of (ic_routers i') = map_of (ic_routers i) |` (- snd ` set (x # R))"
    unfolding 1(5) using x by (auto simp: restrict_map_def)
  moreover have "ic_hostMap i' = ic_hostMap i |` (- fst ` set (x # R))"
    unfolding 1(6) using x by (auto simp: restrict_map_def)
  ultimately show ?case using 1(3,4) by auto
qed (simp add: restrict_map_def)

lemma add_routers_ok:
  "keyed A \<Longrightarrow> factories_ok i \<Longrightarrow> nodes_ok router_good rs_host (ic_routers i) \<Longrightarrow>
     \<exists>i' w'. add_routers A i w = Some (i', w') \<and> same_rest i i' \<and> ic_brokers i' = ic_brokers i \<and>
       nodes_ok router_good rs_host (ic_routers i') \<and>
       gm_keys (ic_routers i') = gm_keys (ic_routers i) \<union> snd ` set A \<and>
       (\<forall>h. h \<notin> snd ` set A \<longrightarrow> map_of (ic_routers i') h = map_of (ic_routers i) h) \<and>
       ic_hostMap i' = ic_hostMap i ++ map_of A"
proof (induction A arbitrary: i w)
  case (Cons x A)
  obtain n h where x: "x = (n, h)" by (cases x)
  note k = keyed_Cons [OF Cons.prems(1) [unfolded x]]
  obtain r w1 where r: "ic_routerStateFactory i h 55671 (node_tls (ic_tlsConfig i) h) w = Some (r, w1)"
    "router_good r" "rs_host r = h"
    using Cons.prems(2) unfolding factories_ok_def by metis
  let ?i = "i\<lparr>ic_routers := gm_put h r (ic_routers i), ic_hostMap := (ic_hostMap i)(n \<mapsto> h)\<rparr>"
  have "factories_ok ?i" using same_rest_factories [of i ?i] Cons.prems(2) by simp
  moreover have "nodes_ok router_good rs_host (ic_routers ?i)"
    using Cons.prems(3) r by (simp add: nodes_ok_put)
  ultimately obtain i' w' where
    1: "add_routers A ?i w1 = Some (i', w')" "same_rest ?i i'" "ic_brokers i' = ic_brokers ?i"
      "nodes_ok router_good rs_host (ic_routers i')"
      "gm_keys (ic_routers i') = gm_keys (ic_routers ?i) \<union> snd ` set A"
      "\<forall>h. h \<notin> snd ` set A \<longrightarrow> map_of (ic_routers i') h = map_of (ic_routers ?i) h"
      "ic_hostMap i' = ic_hostMap ?i ++ map_of A"
    using Cons.IH [of ?i w1] k by blast
  have "add_routers (x # A) i w = Some (i', w')" using r(1) 1(1) x by (simp add: bindp_def)
  moreover have "same_rest i i'" using same_rest_trans [OF _ 1(2), of i] by simp
  moreover have "gm_keys (ic_routers i') = gm_keys (ic_routers i) \<union> snd ` set (x # A)"
    unfolding 1(5) using x by (auto simp: gm_keys_put)
  moreover have "\<forall>h. h \<notin> snd ` set (x # A) \<longrightarrow> map_of (ic_routers i') h = map_of (ic_routers i) h"
    using 1(6) x by simp
  moreover have "ic_hostMap i' = ic_hostMap i ++ map_of (x # A)"
  proof -
    have "map_of A n = None" using k by (simp add: map_of_eq_None_iff)
    then show ?thesis unfolding 1(7) using x by (auto simp: map_add_def fun_eq_iff split: option.splits)
  qed
  moreover have "ic_brokers i' = ic_brokers i" using 1(3) by simp
  ultimately show ?case using 1(4) by blast
qed simp

text \<open>
  Routers and brokers have different host names: the names of routers satisfy a predicate that
  those of brokers do not. Then the host map takes every host name to its host.
\<close>

definition hostmap_ok :: "(string \<Rightarrow> bool) \<Rightarrow> 'w infraClient \<Rightarrow> bool" where
  "hostmap_ok rn i \<longleftrightarrow>
     (\<forall>h \<in> gm_keys (ic_routers i). rn (Hostname h) \<and> ic_hostMap i (Hostname h) = Some h) \<and>
     (\<forall>h \<in> gm_keys (ic_brokers i). \<not> rn (Hostname h) \<and> ic_hostMap i (Hostname h) = Some h)"

lemma hostmap_update:
  assumes A: "keyed A" and R: "keyed R" "snd ` set R \<subseteq> K" and K2: "K2 = (K - snd ` set R) \<union> snd ` set A"
    and inj: "inj_on Hostname K" "inj_on Hostname K2"
    and own: "\<forall>h \<in> K. P (Hostname h) \<and> hm (Hostname h) = Some h" "\<forall>h \<in> snd ` set A. P (Hostname h)"
    and oth: "\<forall>h \<in> Q. \<not> P (Hostname h) \<and> hm (Hostname h) = Some h"
    and hm2: "hm2 = (hm |` (- fst ` set R)) ++ map_of A"
  shows "(\<forall>h \<in> K2. P (Hostname h) \<and> hm2 (Hostname h) = Some h) \<and>
    (\<forall>h \<in> Q. \<not> P (Hostname h) \<and> hm2 (Hostname h) = Some h)"
proof (intro conjI ballI)
  have Rn: "\<exists>x \<in> snd ` set R. Hostname x = n" if n: "n \<in> fst ` set R" for n
  proof -
    from n obtain x where x: "(n, x) \<in> set R" by auto
    with R(1) have "Hostname x = n" by (auto simp: keyed_def)
    with imageI [OF x, of snd] show ?thesis by auto
  qed
  have An: "x \<in> snd ` set A \<and> Hostname x = n" if x: "map_of A n = Some x" for n x
    using keyed_get [OF A x] imageI [OF map_of_SomeD [OF x], of snd] by simp
  fix h
  {
    assume h: "h \<in> K2"
    show "P (Hostname h)" using h own K2 by blast
    show "hm2 (Hostname h) = Some h"
    proof (cases "map_of A (Hostname h)")
      case (Some x)
      from An [OF Some] have "x \<in> K2" "Hostname x = Hostname h" using K2 by simp_all
      with inj(2) h have "x = h" by (simp add: inj_on_eq_iff)
      with Some show ?thesis by (simp add: hm2)
    next
      case None
      then have k: "h \<in> K" "h \<notin> snd ` set R" using h K2 keyed_values [OF A, of h] by auto
      have "Hostname h \<notin> fst ` set R"
      proof
        assume "Hostname h \<in> fst ` set R"
        from Rn [OF this] obtain x where "x \<in> snd ` set R" "Hostname x = Hostname h" by blast
        with k inj(1) R(2) have "x = h" by (metis inj_on_eq_iff subsetD)
        with k(2) \<open>x \<in> snd ` set R\<close> show False by simp
      qed
      with None own k show ?thesis by (simp add: hm2 map_add_def)
    qed
  next
    assume h: "h \<in> Q"
    then show n: "\<not> P (Hostname h)" using oth by blast
    have "Hostname h \<notin> fst ` set R" using Rn [of "Hostname h"] R(2) own(1) n by (metis subsetD)
    moreover have "map_of A (Hostname h) = None"
      using An [of "Hostname h"] own(2) n by (metis option.exhaust)
    ultimately show "hm2 (Hostname h) = Some h" using h oth by (simp add: hm2 map_add_def)
  }
qed

abbreviation wanted_set :: "Host list \<Rightarrow> Host set" where
  "wanted_set hosts \<equiv> snd ` set (wanted_hosts hosts)"

lemma wanted_subset: "wanted_set hosts \<subseteq> set hosts"
proof -
  have "snd ` set (fold (\<lambda>host. gm_put (Hostname host) host) hosts m) \<subseteq> snd ` set m \<union> set hosts" for m
  proof (induction hosts arbitrary: m)
    case (Cons h hosts)
    have "snd ` set (gm_put (Hostname h) h m) \<subseteq> insert h (snd ` set m)" by (auto dest: gm_put_entries)
    with Cons [of "gm_put (Hostname h) h m"] show ?case by auto
  qed simp
  from this [of "[]"] show ?thesis by (simp add: wanted_hosts_def)
qed

lemma wanted_distinct: "distinct (map Hostname hosts) \<Longrightarrow> wanted_set hosts = set hosts"
proof -
  assume d: "distinct (map Hostname hosts)"
  have "h \<in> wanted_set hosts \<longleftrightarrow> h \<in> set hosts" for h
    unfolding keyed_values [OF keyed_wanted] unfolding wanted_hosts_def fold_gm_put [OF d] by simp
  then show ?thesis by blast
qed

lemma wanted_inj: "inj_on Hostname (wanted_set hosts)"
proof (rule inj_onI)
  fix x y assume xy: "x \<in> wanted_set hosts" "y \<in> wanted_set hosts" "Hostname x = Hostname y"
  have "Some x = map_of (wanted_hosts hosts) (Hostname x)" using xy(1) keyed_values [OF keyed_wanted] by metis
  also have "\<dots> = Some y" using xy(2,3) keyed_values [OF keyed_wanted] by metis
  finally show "x = y" by simp
qed

lemma distinct_hostnames:
  "nodes_ok good host m \<Longrightarrow> inj_on Hostname (gm_keys m) \<Longrightarrow> distinct (map Hostname (map fst m))"
  unfolding nodes_ok_def gm_ok_def distinct_map set_map by blast

lemma updateRouters_ok:
  assumes "hosts_ok i" and "factories_ok i"
  shows "\<exists>i' w'. updateRouters hosts i w = Some (i', w') \<and> same_rest i i' \<and> hosts_ok i' \<and>
    ic_brokers i' = ic_brokers i \<and> gm_keys (ic_routers i') = wanted_set hosts \<and>
    (\<forall>h \<in> wanted_set hosts \<inter> gm_keys (ic_routers i). map_of (ic_routers i') h = map_of (ic_routers i) h) \<and>
    (hostmap_ok rn i \<and> (\<forall>h \<in> set hosts. rn (Hostname h)) \<longrightarrow> hostmap_ok rn i')"
proof -
  let ?ks = "map fst (ic_routers i)"
  obtain A R where d: "host_diff ?ks (wanted_hosts hosts) [] = (A, R)" by (cases "host_diff ?ks (wanted_hosts hosts) []")
  have dist: "distinct (map Hostname ?ks)"
    using assms(1) distinct_hostnames [of router_good rs_host "ic_routers i"] by (simp add: hosts_ok_def)
  note spec = host_diff_spec [OF dist d, simplified]
  have nodes: "nodes_ok router_good rs_host (ic_routers i)" using assms(1) by (simp add: hosts_ok_def)
  have sub: "snd ` set R \<subseteq> gm_keys (ic_routers i)" using spec(4) by auto
  obtain i1 w1 where 1: "remove_routers R i w = Some (i1, w1)" "same_rest i i1" "ic_brokers i1 = ic_brokers i"
      "nodes_ok router_good rs_host (ic_routers i1)"
      "map_of (ic_routers i1) = map_of (ic_routers i) |` (- snd ` set R)"
      "ic_hostMap i1 = ic_hostMap i |` (- fst ` set R)"
    using remove_routers_ok [OF spec(2) sub nodes] by blast
  have f1: "factories_ok i1" using same_rest_factories [OF 1(2)] assms(2) by simp
  obtain i2 w2 where 2: "add_routers A i1 w1 = Some (i2, w2)" "same_rest i1 i2" "ic_brokers i2 = ic_brokers i1"
      "nodes_ok router_good rs_host (ic_routers i2)"
      "gm_keys (ic_routers i2) = gm_keys (ic_routers i1) \<union> snd ` set A"
      "\<forall>h. h \<notin> snd ` set A \<longrightarrow> map_of (ic_routers i2) h = map_of (ic_routers i1) h"
      "ic_hostMap i2 = ic_hostMap i1 ++ map_of A"
    using add_routers_ok [OF spec(1) f1 1(4)] by blast
  have k1: "gm_keys (ic_routers i1) = gm_keys (ic_routers i) - snd ` set R"
    unfolding gm_keys_dom 1(5) by auto
  have keys: "gm_keys (ic_routers i2) = wanted_set hosts"
    unfolding 2(5) k1 spec(3,4) by auto
  have same: "map_of (ic_routers i2) h = map_of (ic_routers i) h"
    if "h \<in> wanted_set hosts \<inter> gm_keys (ic_routers i)" for h
    using that 2(6) spec(3,4) 1(5) by (auto simp: restrict_map_def)
  have ok: "hosts_ok i2"
    using 2(4) keys wanted_inj [of hosts] assms(1) 2(3) 1(3) by (simp add: hosts_ok_def)
  have "hostmap_ok rn i2" if hm: "hostmap_ok rn i" "\<forall>h \<in> set hosts. rn (Hostname h)"
  proof -
    have a: "\<forall>h \<in> snd ` set A. rn (Hostname h)" using hm(2) wanted_subset [of hosts] spec(3) by auto
    have "gm_keys (ic_routers i2) = (gm_keys (ic_routers i) - snd ` set R) \<union> snd ` set A"
      unfolding 2(5) k1 ..
    from hostmap_update [OF spec(1,2) sub this, of rn "ic_hostMap i" "gm_keys (ic_brokers i)" "ic_hostMap i2"]
    show ?thesis using hm(1) a assms(1) ok 1(3) 2(3,7) 1(6) by (simp add: hostmap_ok_def hosts_ok_def)
  qed
  moreover have "updateRouters hosts i w = Some (i2, w2)"
    using d 1(1) 2(1) by (simp add: updateRouters_def bindp_def)
  ultimately show ?thesis using same_rest_trans [OF 1(2) 2(2)] ok keys same 1(3) 2(3) by auto
qed

lemma apply_routers_ok:
  assumes "node_op router_good rs_host op" and "hosts_ok i"
  shows "\<exists>err m w'. applyRouters sched op i w = Some ((err, i\<lparr>ic_routers := m\<rparr>), w') \<and>
    nodes_ok router_good rs_host m \<and> gm_keys m = gm_keys (ic_routers i)"
proof -
  have "nodes_ok router_good rs_host (ic_routers i)" using assms(2) by (simp add: hosts_ok_def)
  from node_op.apply_all_ok [OF assms(1) this, of sched w] show ?thesis
    by (auto simp: applyRouters_def bindp_def)
qed

lemma apply_brokers_ok:
  assumes "node_op broker_good bs_host op" and "hosts_ok i"
  shows "\<exists>err m w'. applyBrokers sched op i w = Some ((err, i\<lparr>ic_brokers := m\<rparr>), w') \<and>
    nodes_ok broker_good bs_host m \<and> gm_keys m = gm_keys (ic_brokers i)"
proof -
  have "nodes_ok broker_good bs_host (ic_brokers i)" using assms(2) by (simp add: hosts_ok_def)
  from node_op.apply_all_ok [OF assms(1) this, of sched w] show ?thesis
    by (auto simp: applyBrokers_def bindp_def)
qed

lemma hosts_ok_routers:
  "hosts_ok i \<Longrightarrow> nodes_ok router_good rs_host m \<Longrightarrow> gm_keys m = gm_keys (ic_routers i) \<Longrightarrow>
     hosts_ok (i\<lparr>ic_routers := m\<rparr>)"
  unfolding hosts_ok_def by simp

lemma hosts_ok_brokers:
  "hosts_ok i \<Longrightarrow> nodes_ok broker_good bs_host m \<Longrightarrow> gm_keys m = gm_keys (ic_brokers i) \<Longrightarrow>
     hosts_ok (i\<lparr>ic_brokers := m\<rparr>)"
  unfolding hosts_ok_def by simp

lemma hosts_ok_del_broker:
  "hosts_ok i \<Longrightarrow> hosts_ok (i\<lparr>ic_hostMap := hm, ic_brokers := gm_del h (ic_brokers i)\<rparr>)"
  unfolding hosts_ok_def by (simp add: nodes_ok_del gm_keys_del inj_on_diff)

lemma add_brokers_ok:
  "keyed A \<Longrightarrow> factories_ok i \<Longrightarrow> nodes_ok broker_good bs_host (ic_brokers i) \<Longrightarrow>
     \<exists>i' w'. add_brokers A i w = Some (i', w') \<and> same_rest i i' \<and> ic_routers i' = ic_routers i \<and>
       nodes_ok broker_good bs_host (ic_brokers i') \<and>
       gm_keys (ic_brokers i') = gm_keys (ic_brokers i) \<union> snd ` set A \<and>
       (\<forall>h. h \<notin> snd ` set A \<longrightarrow> map_of (ic_brokers i') h = map_of (ic_brokers i) h) \<and>
       ic_hostMap i' = ic_hostMap i ++ map_of A"
proof (induction A arbitrary: i w)
  case (Cons x A)
  obtain n h where x: "x = (n, h)" by (cases x)
  note k = keyed_Cons [OF Cons.prems(1) [unfolded x]]
  obtain r w1 where r: "ic_brokerStateFactory i h 5671 (node_tls (ic_tlsConfig i) h) w = Some (r, w1)"
    "broker_good r" "bs_host r = h"
    using Cons.prems(2) unfolding factories_ok_def by metis
  let ?i = "i\<lparr>ic_brokers := gm_put h r (ic_brokers i), ic_hostMap := (ic_hostMap i)(n \<mapsto> h)\<rparr>"
  have "factories_ok ?i" using same_rest_factories [of i ?i] Cons.prems(2) by simp
  moreover have "nodes_ok broker_good bs_host (ic_brokers ?i)"
    using Cons.prems(3) r by (simp add: nodes_ok_put)
  ultimately obtain i' w' where
    1: "add_brokers A ?i w1 = Some (i', w')" "same_rest ?i i'" "ic_routers i' = ic_routers ?i"
      "nodes_ok broker_good bs_host (ic_brokers i')"
      "gm_keys (ic_brokers i') = gm_keys (ic_brokers ?i) \<union> snd ` set A"
      "\<forall>h. h \<notin> snd ` set A \<longrightarrow> map_of (ic_brokers i') h = map_of (ic_brokers ?i) h"
      "ic_hostMap i' = ic_hostMap ?i ++ map_of A"
    using Cons.IH [of ?i w1] k by blast
  have "add_brokers (x # A) i w = Some (i', w')" using r(1) 1(1) x by (simp add: bindp_def)
  moreover have "same_rest i i'" using same_rest_trans [OF _ 1(2), of i] by simp
  moreover have "gm_keys (ic_brokers i') = gm_keys (ic_brokers i) \<union> snd ` set (x # A)"
    unfolding 1(5) using x by (auto simp: gm_keys_put)
  moreover have "\<forall>h. h \<notin> snd ` set (x # A) \<longrightarrow> map_of (ic_brokers i') h = map_of (ic_brokers i) h"
    using 1(6) x by simp
  moreover have "ic_hostMap i' = ic_hostMap i ++ map_of (x # A)"
  proof -
    have "map_of A n = None" using k by (simp add: map_of_eq_None_iff)
    then show ?thesis unfolding 1(7) using x by (auto simp: map_add_def fun_eq_iff split: option.splits)
  qed
  moreover have "ic_routers i' = ic_routers i" using 1(3) by simp
  ultimately show ?case using 1(4) by blast
qed simp

text \<open>
  One round of the removal loop: the connectors to a broker that goes away are deleted first,
  which changes the routers only.
\<close>

lemma remove_connector_ok:
  assumes "hosts_ok i"
  shows "\<exists>err m w'. (if c then applyRouters sched (RouterState_DeleteEntities sched es) i else ret (None, i)) w
      = Some ((err, i\<lparr>ic_routers := m\<rparr>), w') \<and> nodes_ok router_good rs_host m \<and>
      gm_keys m = gm_keys (ic_routers i) \<and> (\<not> c \<longrightarrow> err = None \<and> m = ic_routers i)"
proof (cases c)
  case True
  from apply_routers_ok [OF re_delete.node_op_axioms assms] True show ?thesis by simp
next
  case False
  then show ?thesis using assms by (intro exI [of _ None] exI [of _ "ic_routers i"]) (simp add: hosts_ok_def)
qed

lemma remove_brokers_ok:
  "keyed R \<Longrightarrow> snd ` set R \<subseteq> gm_keys (ic_brokers i) \<Longrightarrow> hosts_ok i \<Longrightarrow>
     \<exists>err i' w' R1 R2. remove_brokers sched c A R i w = Some ((err, i'), w') \<and> same_rest i i' \<and> hosts_ok i' \<and>
       gm_keys (ic_routers i') = gm_keys (ic_routers i) \<and> R = R1 @ R2 \<and> (err = None \<longrightarrow> R2 = []) \<and>
       map_of (ic_brokers i') = map_of (ic_brokers i) |` (- snd ` set R1) \<and>
       ic_hostMap i' = ic_hostMap i |` (- fst ` set R1) \<and>
       (\<not> c \<longrightarrow> err = None \<and> ic_routers i' = ic_routers i)"
proof (induction R arbitrary: i w)
  case Nil
  then show ?case by (auto simp: restrict_map_def)
next
  case (Cons x R)
  obtain n h where x: "x = (n, h)" by (cases x)
  note k = keyed_Cons [OF Cons.prems(1) [unfolded x]]
  from Cons.prems(2) x obtain b where b: "map_of (ic_brokers i) h = Some b"
    by (auto simp: gm_keys_dom)
  obtain err m w1 where 0: "(if map_of A n = None \<and> c then applyRouters sched (RouterState_DeleteEntities sched
        [RENamed \<lparr> ne_EntityType = RouterConnectorEntity, ne_Name = connectorName b \<rparr>]) i else ret (None, i)) w
      = Some ((err, i\<lparr>ic_routers := m\<rparr>), w1)" "nodes_ok router_good rs_host m"
      "gm_keys m = gm_keys (ic_routers i)" "\<not> (map_of A n = None \<and> c) \<longrightarrow> err = None \<and> m = ic_routers i"
    using remove_connector_ok [OF Cons.prems(3)] by blast
  let ?i1 = "i\<lparr>ic_routers := m\<rparr>"
  have ok1: "hosts_ok ?i1" by (rule hosts_ok_routers [OF Cons.prems(3) 0(2,3)])
  show ?case
  proof (cases err)
    case (Some e)
    then have "remove_brokers sched c A (x # R) i w = Some ((err, ?i1), w1)"
      using b 0(1) x by (simp add: bindp_def liftO_def)
    then show ?thesis using Some ok1 0(3,4)
      by (intro exI [of _ err] exI [of _ ?i1] exI [of _ w1] exI [of _ "[]"] exI [of _ "x # R"])
        (auto simp: restrict_map_def)
  next
    case None
    let ?i = "?i1\<lparr>ic_hostMap := (ic_hostMap ?i1)(n := None), ic_brokers := gm_del h (ic_brokers ?i1)\<rparr>"
    have sub: "snd ` set R \<subseteq> gm_keys (ic_brokers ?i)"
      using Cons.prems(2) x k by (simp add: gm_keys_del subset_Diff_insert)
    have ok: "hosts_ok ?i" by (rule hosts_ok_del_broker [OF ok1])
    obtain err' i' w' R1 R2 where
      1: "remove_brokers sched c A R ?i (Client_Stop (bs_commandClient b) w1) = Some ((err', i'), w')"
        "same_rest ?i i'" "hosts_ok i'" "gm_keys (ic_routers i') = gm_keys (ic_routers ?i)" "R = R1 @ R2"
        "err' = None \<longrightarrow> R2 = []" "map_of (ic_brokers i') = map_of (ic_brokers ?i) |` (- snd ` set R1)"
        "ic_hostMap i' = ic_hostMap ?i |` (- fst ` set R1)"
        "\<not> c \<longrightarrow> err' = None \<and> ic_routers i' = ic_routers ?i"
      using Cons.IH [OF _ sub ok, of "Client_Stop (bs_commandClient b) w1"] k by blast
    have "remove_brokers sched c A (x # R) i w = Some ((err', i'), w')"
      using b 0(1) 1(1) x None by (simp add: bindp_def liftO_def BrokerState_Shutdown_def)
    moreover have "same_rest i i'"
      by (rule same_rest_trans [OF _ same_rest_trans [OF _ 1(2)], of i ?i1]) simp_all
    moreover have "map_of (ic_brokers i') = map_of (ic_brokers i) |` (- snd ` set (x # R1))"
      unfolding 1(7) using x by (auto simp: restrict_map_def)
    moreover have "ic_hostMap i' = ic_hostMap i |` (- fst ` set (x # R1))"
      unfolding 1(8) using x by (auto simp: restrict_map_def)
    moreover have "gm_keys (ic_routers i') = gm_keys (ic_routers i)" using 1(4) 0(3) by simp
    moreover have "\<not> c \<longrightarrow> err' = None \<and> ic_routers i' = ic_routers i" using 1(9) 0(4) by simp
    moreover have "x # R = (x # R1) @ R2" using 1(5) by simp
    ultimately show ?thesis using 1(3,6) by blast
  qed
qed

lemma updateBrokers_ok:
  assumes "hosts_ok i" and "factories_ok i"
  shows "\<exists>err i' w'. updateBrokers sched hosts c i w = Some ((err, i'), w') \<and> same_rest i i' \<and> hosts_ok i' \<and>
    gm_keys (ic_routers i') = gm_keys (ic_routers i) \<and>
    (\<not> c \<longrightarrow> err = None \<and> ic_routers i' = ic_routers i) \<and>
    (err = None \<longrightarrow> gm_keys (ic_brokers i') = wanted_set hosts \<and>
      (\<forall>h \<in> wanted_set hosts \<inter> gm_keys (ic_brokers i). map_of (ic_brokers i') h = map_of (ic_brokers i) h)) \<and>
    (hostmap_ok rn i \<and> (\<forall>h \<in> set hosts. \<not> rn (Hostname h)) \<longrightarrow> hostmap_ok rn i')"
proof -
  let ?ks = "map fst (ic_brokers i)"
  obtain A R where d: "host_diff ?ks (wanted_hosts hosts) [] = (A, R)" by (cases "host_diff ?ks (wanted_hosts hosts) []")
  have dist: "distinct (map Hostname ?ks)"
    using assms(1) distinct_hostnames [of broker_good bs_host "ic_brokers i"] by (simp add: hosts_ok_def)
  note spec = host_diff_spec [OF dist d, simplified]
  have sub: "snd ` set R \<subseteq> gm_keys (ic_brokers i)" using spec(4) by auto
  obtain err i1 w1 R1 R2 where
    1: "remove_brokers sched c A R i w = Some ((err, i1), w1)" "same_rest i i1" "hosts_ok i1"
      "gm_keys (ic_routers i1) = gm_keys (ic_routers i)" "R = R1 @ R2" "err = None \<longrightarrow> R2 = []"
      "map_of (ic_brokers i1) = map_of (ic_brokers i) |` (- snd ` set R1)"
      "ic_hostMap i1 = ic_hostMap i |` (- fst ` set R1)" "\<not> c \<longrightarrow> err = None \<and> ic_routers i1 = ic_routers i"
    using remove_brokers_ok [OF spec(2) sub assms(1), of sched c A w] by blast
  have k1: "gm_keys (ic_brokers i1) = gm_keys (ic_brokers i) - snd ` set R1"
    unfolding gm_keys_dom 1(7) by auto
  have kR: "keyed R1" and sub1: "snd ` set R1 \<subseteq> gm_keys (ic_brokers i)"
    using spec(2) sub 1(5) by (auto simp: keyed_def gm_ok_def)
  have hm: "hostmap_ok rn j"
    if h: "hostmap_ok rn i" "\<forall>h \<in> snd ` set B. \<not> rn (Hostname h)" and B: "keyed B" and
      j: "hosts_ok j" "gm_keys (ic_routers j) = gm_keys (ic_routers i)"
        "gm_keys (ic_brokers j) = (gm_keys (ic_brokers i) - snd ` set R1) \<union> snd ` set B"
        "ic_hostMap j = ic_hostMap i1 ++ map_of B" for B and j :: "'a infraClient"
    using hostmap_update [OF B kR sub1 j(3), of "\<lambda>n. \<not> rn n" "ic_hostMap i" "gm_keys (ic_routers i)" "ic_hostMap j"]
      h assms(1) j 1(8) by (simp add: hostmap_ok_def hosts_ok_def)
  show ?thesis
  proof (cases err)
    case (Some e)
    have "updateBrokers sched hosts c i w = Some ((err, i1), w1)"
      using d 1(1) Some by (simp add: updateBrokers_def bindp_def)
    moreover have "hostmap_ok rn i1" if "hostmap_ok rn i"
      using hm [of "[]" i1] that 1(3,4) k1 by (simp add: keyed_def)
    ultimately show ?thesis using 1(2,3,4,9) Some by blast
  next
    case None
    have f1: "factories_ok i1" using same_rest_factories [OF 1(2)] assms(2) by simp
    have n1: "nodes_ok broker_good bs_host (ic_brokers i1)" using 1(3) by (simp add: hosts_ok_def)
    obtain i2 w2 where 2: "add_brokers A i1 w1 = Some (i2, w2)" "same_rest i1 i2" "ic_routers i2 = ic_routers i1"
        "nodes_ok broker_good bs_host (ic_brokers i2)"
        "gm_keys (ic_brokers i2) = gm_keys (ic_brokers i1) \<union> snd ` set A"
        "\<forall>h. h \<notin> snd ` set A \<longrightarrow> map_of (ic_brokers i2) h = map_of (ic_brokers i1) h"
        "ic_hostMap i2 = ic_hostMap i1 ++ map_of A"
      using add_brokers_ok [OF spec(1) f1 n1] by blast
    have R1: "R1 = R" using None 1(5,6) by simp
    have keys: "gm_keys (ic_brokers i2) = wanted_set hosts"
      unfolding 2(5) k1 R1 spec(3,4) by auto
    have same: "map_of (ic_brokers i2) h = map_of (ic_brokers i) h"
      if "h \<in> wanted_set hosts \<inter> gm_keys (ic_brokers i)" for h
      using that 2(6) spec(3,4) 1(7) R1 by (auto simp: restrict_map_def)
    have ok: "hosts_ok i2" using 2(3,4) keys wanted_inj [of hosts] 1(3) by (simp add: hosts_ok_def)
    have "updateBrokers sched hosts c i w = Some ((None, i2), w2)"
      using d 1(1) 2(1) None by (simp add: updateBrokers_def bindp_def)
    moreover have "hostmap_ok rn i2" if "hostmap_ok rn i" "\<forall>h \<in> set hosts. \<not> rn (Hostname h)"
    proof -
      have "\<forall>h \<in> snd ` set A. \<not> rn (Hostname h)" using that(2) wanted_subset [of hosts] spec(3) by auto
      moreover have "gm_keys (ic_brokers i2) = (gm_keys (ic_brokers i) - snd ` set R1) \<union> snd ` set A"
        unfolding 2(5) k1 ..
      ultimately show ?thesis using hm [of A i2] that(1) spec(1) ok 2(3,7) 1(4) by simp
    qed
    moreover have "same_rest i i2" by (rule same_rest_trans [OF 1(2) 2(2)])
    moreover have "gm_keys (ic_routers i2) = gm_keys (ic_routers i)" using 1(4) 2(3) by simp
    moreover have "\<not> c \<longrightarrow> ic_routers i2 = ic_routers i" using 1(9) 2(3) by simp
    ultimately show ?thesis using keys same ok by blast
  qed
qed

text \<open>After \<open>updateRouters\<close> with hosts of distinct names, the client has exactly one
  state for each of these hosts. States of hosts that stay, with the same address, are kept as they
  are; hosts that are gone or have a new address are shut down and forgotten. The host map stays
  correct, and nothing but the routers and the host map changes.\<close>

theorem updateRouters_spec:
  assumes "hosts_ok i" and "factories_ok i" and "distinct (map Hostname hosts)"
    and "hostmap_ok rn i" and "\<forall>h \<in> set hosts. rn (Hostname h)"
  shows "\<exists>i' w'. updateRouters hosts i w = Some (i', w') \<and> gm_keys (ic_routers i') = set hosts \<and>
    (\<forall>h \<in> set hosts. \<forall>r. map_of (ic_routers i) h = Some r \<longrightarrow> map_of (ic_routers i') h = Some r) \<and>
    hosts_ok i' \<and> hostmap_ok rn i' \<and> same_rest i i' \<and> ic_brokers i' = ic_brokers i"
proof -
  obtain i' w' where 1: "updateRouters hosts i w = Some (i', w')" "same_rest i i'" "hosts_ok i'"
    "ic_brokers i' = ic_brokers i" "gm_keys (ic_routers i') = wanted_set hosts"
    "\<forall>h \<in> wanted_set hosts \<inter> gm_keys (ic_routers i). map_of (ic_routers i') h = map_of (ic_routers i) h"
    "hostmap_ok rn i \<and> (\<forall>h \<in> set hosts. rn (Hostname h)) \<longrightarrow> hostmap_ok rn i'"
    using updateRouters_ok [OF assms(1,2), of hosts w rn] by (elim exE conjE) (rule that)
  have hm: "hostmap_ok rn i'" using 1(7) assms(4,5) by blast
  have kept: "\<forall>h \<in> set hosts. \<forall>r. map_of (ic_routers i) h = Some r \<longrightarrow> map_of (ic_routers i') h = Some r"
  proof (intro ballI allI impI)
    fix h r assume h: "h \<in> set hosts" "map_of (ic_routers i) h = Some r"
    have "h \<in> gm_keys (ic_routers i)" unfolding gm_keys_dom using h(2) by (rule domI)
    with h(1) have "h \<in> wanted_set hosts \<inter> gm_keys (ic_routers i)"
      unfolding wanted_distinct [OF assms(3)] by blast
    from bspec [OF 1(6) this] h(2) show "map_of (ic_routers i') h = Some r" by simp
  qed
  show ?thesis
    by (intro exI [of _ i'] exI [of _ w'] conjI 1(1,2,3,4) hm kept)
      (simp add: 1(5) wanted_distinct [OF assms(3)])
qed


end
