(* ===== verification/Infra_Ports.thy ===== *)
theory Infra_Ports
  imports Infra
begin

text \<open>
  The port table of the infrastructure client: allocation of router ports for the protocols of
  an endpoint, their release, and the rebuilding of the table from the known endpoints. The
  loops range over Go maps, so which free port is taken depends on the order of the table.
\<close>

section \<open>Operations\<close>

definition allocatePort :: "string \<Rightarrow> portmap \<Rightarrow> (error + int) \<times> portmap" where
  "allocatePort name ports =
     (case find (\<lambda>(port, binding). binding = Some name) ports of
        Some (port, _) \<Rightarrow> (Inr port, ports)
      | None \<Rightarrow>
          (case find (\<lambda>(port, binding). binding = None) ports of
             Some (port, _) \<Rightarrow> (Inr port, gm_put port (Some name) ports)
           | None \<Rightarrow> (Inl (Errorf ''no ports available''), ports)))"

definition freePort :: "int \<Rightarrow> portmap \<Rightarrow> portmap" where
  "freePort port ports = gm_put port None ports"

abbreviation InternalPorts :: "MessagingEndpoint \<Rightarrow> MessagingEndpointPort list" where
  "InternalPorts e \<equiv> est_InternalPorts (me_Status e)"

definition set_InternalPorts :: "MessagingEndpointPort list \<Rightarrow> MessagingEndpoint \<Rightarrow> MessagingEndpoint" where
  "set_InternalPorts ps e = e\<lparr>me_Status := (me_Status e)\<lparr>est_InternalPorts := ps\<rparr>\<rparr>"

fun allocate_loop ::
  "MessagingEndpointProtocol list \<Rightarrow> MessagingEndpoint \<Rightarrow> portmap
    \<Rightarrow> error option \<times> MessagingEndpoint \<times> portmap" where
  "allocate_loop [] endpoint ports = (None, endpoint, ports)"
| "allocate_loop (protocol # protocols) endpoint ports =
     (let name = portName endpoint protocol in
      if list_ex (\<lambda>p. ep_Name p = name) (InternalPorts endpoint)
      then allocate_loop protocols endpoint ports
      else case allocatePort name ports of
          (Inl err, ports') \<Rightarrow> (Some err, endpoint, ports')
        | (Inr port, ports') \<Rightarrow>
            allocate_loop protocols
              (set_InternalPorts (InternalPorts endpoint @
                 [\<lparr> ep_Name = name, ep_Protocol = protocol, ep_Port = port \<rparr>]) endpoint) ports')"

definition AllocatePorts ::
  "MessagingEndpoint \<Rightarrow> MessagingEndpointProtocol list \<Rightarrow> 'w infraClient
    \<Rightarrow> error option \<times> MessagingEndpoint \<times> 'w infraClient" where
  "AllocatePorts endpoint protocols i =
     (if \<not> ic_initialized i then (Some NotInitializedError, endpoint, i)
      else let (err, endpoint', ports) = allocate_loop protocols endpoint (ic_ports i)
           in (err, endpoint', i\<lparr>ic_ports := ports\<rparr>))"

text \<open>Listeners for web sockets cannot be deleted from a router, so their ports are kept.\<close>

definition is_websocket :: "MessagingEndpointPort \<Rightarrow> bool" where
  "is_websocket port \<longleftrightarrow>
     \<not> (ep_Protocol port \<noteq> MessagingProtocolAMQPWS \<and> ep_Protocol port \<noteq> MessagingProtocolAMQPWSS)"

definition freePortsInternal :: "MessagingEndpoint \<Rightarrow> 'w infraClient \<Rightarrow> MessagingEndpoint \<times> 'w infraClient" where
  "freePortsInternal endpoint i =
     (if \<not> ic_initialized i then (endpoint, i)
      else (set_InternalPorts (filter is_websocket (InternalPorts endpoint)) endpoint,
            i\<lparr>ic_ports := fold (\<lambda>port. freePort (ep_Port port))
                 (filter (\<lambda>port. \<not> is_websocket port) (InternalPorts endpoint)) (ic_ports i)\<rparr>))"

definition FreePorts :: "MessagingEndpoint \<Rightarrow> 'w infraClient \<Rightarrow> MessagingEndpoint \<times> 'w infraClient" where
  "FreePorts endpoint i = freePortsInternal endpoint i"

text \<open>
  The inner loop of \<open>initPorts\<close> stores the address of a field of its loop variable. The variable
  is shared by all rounds of one execution of the loop, so all ports of an endpoint end up bound
  to the name that the variable holds last.
\<close>

definition initPorts_endpoint :: "MessagingEndpoint \<Rightarrow> portmap \<Rightarrow> portmap" where
  "initPorts_endpoint endpoint ports =
     fold (\<lambda>port. gm_put (ep_Port port) (Some (ep_Name (last (InternalPorts endpoint)))))
       (InternalPorts endpoint) ports"

definition initPorts :: "'w infraClient \<Rightarrow> 'w infraClient" where
  "initPorts i = i\<lparr>ic_ports := fold (\<lambda>(k, e). initPorts_endpoint e) (ic_endpoints i) (ic_ports i)\<rparr>"

section \<open>Properties\<close>

lemma find_entry:
  "find P m = Some (k, v) \<Longrightarrow> (k, v) \<in> set m \<and> P (k, v)"
  by (induction m) (auto split: if_splits)

lemma find_none: "find P m = None \<longleftrightarrow> (\<forall>x \<in> set m. \<not> P x)"
  by (auto simp: find_None_iff)

lemma allocatePort_ok:
  assumes "gm_ok ports" and "allocatePort name ports = (Inr port, ports')"
  shows "gm_ok ports' \<and> map_of ports' port = Some (Some name) \<and>
    (\<forall>q n. map_of ports q = Some (Some n) \<longrightarrow> map_of ports' q = Some (Some n)) \<and>
    (map_of ports port = Some (Some name) \<or> map_of ports port = Some None) \<and>
    dom (map_of ports') = dom (map_of ports)"
proof (cases "find (\<lambda>(port, binding). binding = Some name) ports")
  case (Some e)
  obtain p b where e: "e = (p, b)" by (cases e)
  have "(p, b) \<in> set ports \<and> b = Some name" using find_entry Some e by fast
  with assms Some e show ?thesis by (auto simp: allocatePort_def gm_in_set)
next
  case none: None
  show ?thesis
  proof (cases "find (\<lambda>(port, binding). binding = None) ports")
    case None
    with none assms show ?thesis by (simp add: allocatePort_def)
  next
    case (Some e)
    obtain p b where e: "e = (p, b)" by (cases e)
    have "(p, b) \<in> set ports \<and> b = None" using find_entry Some e by fast
    then have "map_of ports p = Some None" using assms(1) by (simp add: gm_in_set)
    moreover have "port = p" "ports' = gm_put p (Some name) ports"
      using none Some e assms(2) by (auto simp: allocatePort_def)
    ultimately show ?thesis using assms(1) by auto
  qed
qed

text \<open>\<open>allocatePort\<close> fails exactly when no port is bound to the name and none is
  free, and then leaves the table alone; otherwise it returns a port of the table that is bound to
  the name afterwards, every other binding being kept.\<close>

theorem allocatePort_spec:
  assumes "gm_ok ports"
  shows "(\<exists>err. allocatePort name ports = (Inl err, ports)) \<and>
      (\<forall>port. map_of ports port \<noteq> Some (Some name) \<and> map_of ports port \<noteq> Some None) \<or>
    (\<exists>port ports'. allocatePort name ports = (Inr port, ports') \<and> gm_ok ports' \<and>
      (map_of ports port = Some (Some name) \<or> map_of ports port = Some None) \<and>
      map_of ports' = (map_of ports)(port \<mapsto> Some name))"
proof (cases "fst (allocatePort name ports)")
  case (Inl err)
  then have n: "find (\<lambda>(port, binding). binding = Some name) ports = None"
      "find (\<lambda>(port, binding). binding = None) ports = None"
    by (auto simp: allocatePort_def split: option.splits)
  then have "allocatePort name ports = (Inl (Errorf ''no ports available''), ports)"
    by (simp add: allocatePort_def)
  moreover have "map_of ports port \<noteq> Some (Some name) \<and> map_of ports port \<noteq> Some None" for port
    using n by (auto simp: find_none dest!: map_of_SomeD)
  ultimately show ?thesis by blast
next
  case (Inr port)
  then obtain ports' where a: "allocatePort name ports = (Inr port, ports')"
    by (cases "allocatePort name ports") auto
  note ok = allocatePort_ok [OF assms a]
  have "ports' = ports \<or> ports' = gm_put port (Some name) ports"
    using a by (auto simp: allocatePort_def split: option.splits)
  then have "map_of ports' = (map_of ports)(port \<mapsto> Some name)"
    using ok by (auto simp: fun_upd_idem)
  with a ok show ?thesis by blast
qed

text \<open>All ports that an endpoint holds are bound to their names in the table.\<close>

definition ports_bound :: "MessagingEndpoint \<Rightarrow> portmap \<Rightarrow> bool" where
  "ports_bound e ports \<longleftrightarrow>
     (\<forall>p \<in> set (InternalPorts e). map_of ports (ep_Port p) = Some (Some (ep_Name p)))"

lemma set_InternalPorts_simps [simp]:
  "InternalPorts (set_InternalPorts ps e) = ps" "me_Name (set_InternalPorts ps e) = me_Name e"
  "me_Namespace (set_InternalPorts ps e) = me_Namespace e"
  "portName (set_InternalPorts ps e) protocol = portName e protocol"
  by (simp_all add: set_InternalPorts_def portName_def)

lemma allocate_loop_ok:
  "allocate_loop protocols e ports = (err, e', ports') \<Longrightarrow> gm_ok ports \<Longrightarrow> ports_bound e ports \<Longrightarrow>
     gm_ok ports' \<and> ports_bound e' ports' \<and> (\<exists>new. InternalPorts e' = InternalPorts e @ new) \<and>
     (\<forall>q n. map_of ports q = Some (Some n) \<longrightarrow> map_of ports' q = Some (Some n)) \<and>
     (err = None \<longrightarrow> (\<forall>protocol \<in> set protocols. \<exists>p \<in> set (InternalPorts e'). ep_Name p = portName e protocol))"
proof (induction protocols e ports rule: allocate_loop.induct)
  case (2 protocol protocols e ports)
  let ?name = "portName e protocol"
  show ?case
  proof (cases "list_ex (\<lambda>p. ep_Name p = ?name) (InternalPorts e)")
    case True
    then have "allocate_loop protocols e ports = (err, e', ports')" using "2.prems"(1) by (simp add: Let_def)
    note IH = "2.IH"(1) [OF refl True this "2.prems"(2,3)]
    moreover obtain p where "p \<in> set (InternalPorts e)" "ep_Name p = ?name"
      using True by (auto simp: list_ex_iff)
    ultimately show ?thesis by auto
  next
    case False
    obtain r ports1 where a: "allocatePort ?name ports = (r, ports1)" by (cases "allocatePort ?name ports")
    show ?thesis
    proof (cases r)
      case (Inl e1)
      then have "ports1 = ports" using a by (auto simp: allocatePort_def split: option.splits)
      with Inl a False "2.prems" show ?thesis by (auto simp: Let_def)
    next
      case (Inr port)
      let ?e = "set_InternalPorts (InternalPorts e @
        [\<lparr> ep_Name = ?name, ep_Protocol = protocol, ep_Port = port \<rparr>]) e"
      note ok = allocatePort_ok [OF "2.prems"(2) a [unfolded Inr]]
      have l: "allocate_loop protocols ?e ports1 = (err, e', ports')"
        using "2.prems"(1) False a Inr by (simp add: Let_def)
      have b: "ports_bound ?e ports1" using ok "2.prems"(3) by (auto simp: ports_bound_def)
      from "2.IH"(2) [OF refl False a [symmetric] Inr l _ b] ok show ?thesis by auto
    qed
  qed
qed auto

text \<open>When \<open>AllocatePorts\<close> reports success, the endpoint has an internal port for
  every protocol, the ports it had are kept, each of its ports is bound to its name in the table, so
  that ports with different names have different numbers, and no port that was in use by a name has
  been taken away.\<close>

theorem AllocatePorts_success:
  assumes "AllocatePorts e protocols i = (None, e', i')"
    and "gm_ok (ic_ports i)" and "ports_bound e (ic_ports i)"
  shows "(\<forall>protocol \<in> set protocols. \<exists>p \<in> set (InternalPorts e'). ep_Name p = portName e protocol) \<and>
    (\<exists>new. InternalPorts e' = InternalPorts e @ new) \<and> ports_bound e' (ic_ports i') \<and>
    (\<forall>p \<in> set (InternalPorts e'). \<forall>q \<in> set (InternalPorts e'). ep_Name p \<noteq> ep_Name q \<longrightarrow> ep_Port p \<noteq> ep_Port q) \<and>
    (\<forall>q n. map_of (ic_ports i) q = Some (Some n) \<longrightarrow> map_of (ic_ports i') q = Some (Some n))"
proof -
  obtain ports' where "allocate_loop protocols e (ic_ports i) = (None, e', ports')" "ic_ports i' = ports'"
    using assms(1) by (auto simp: AllocatePorts_def split: if_splits prod.splits)
  with allocate_loop_ok [OF _ assms(2,3)] have ok: "ports_bound e' (ic_ports i') \<and>
      (\<exists>new. InternalPorts e' = InternalPorts e @ new) \<and>
      (\<forall>q n. map_of (ic_ports i) q = Some (Some n) \<longrightarrow> map_of (ic_ports i') q = Some (Some n)) \<and>
      (\<forall>protocol \<in> set protocols. \<exists>p \<in> set (InternalPorts e'). ep_Name p = portName e protocol)"
    by blast
  then have "ep_Port p \<noteq> ep_Port q"
    if "p \<in> set (InternalPorts e')" "q \<in> set (InternalPorts e')" "ep_Name p \<noteq> ep_Name q" for p q
    using that unfolding ports_bound_def by (metis option.inject)
  with ok show ?thesis by blast
qed

lemma fold_freePort:
  "map_of (fold (\<lambda>port. freePort (ep_Port port)) ps ports) q =
     (if q \<in> ep_Port ` set ps then Some None else map_of ports q)"
  by (induction ps arbitrary: ports) (auto simp: freePort_def)

text \<open>\<open>FreePorts\<close> releases exactly the ports of the endpoint that do not carry
  web sockets, keeps the others in the endpoint, and leaves all other ports as they are.\<close>

theorem FreePorts_spec:
  assumes "ic_initialized i" and "FreePorts e i = (e', i')"
  shows "InternalPorts e' = filter is_websocket (InternalPorts e) \<and>
    map_of (ic_ports i') q =
      (if \<exists>p \<in> set (InternalPorts e). \<not> is_websocket p \<and> ep_Port p = q then Some None
       else map_of (ic_ports i) q)"
proof -
  have "e' = set_InternalPorts (filter is_websocket (InternalPorts e)) e"
    "ic_ports i' = fold (\<lambda>port. freePort (ep_Port port))
       (filter (\<lambda>port. \<not> is_websocket port) (InternalPorts e)) (ic_ports i)"
    using assms by (auto simp: FreePorts_def freePortsInternal_def)
  then show ?thesis by (auto simp: fold_freePort)
qed

lemma fold_bind:
  "map_of (fold (\<lambda>port. gm_put (ep_Port port) v) ps ports) q =
     (if q \<in> ep_Port ` set ps then Some v else map_of ports q)"
  by (induction ps arbitrary: ports) auto


section \<open>Concrete endpoints\<close>

definition example_endpoint :: "string \<Rightarrow> string \<Rightarrow> MessagingEndpointPort list \<Rightarrow> MessagingEndpoint" where
  "example_endpoint ns name ports = \<lparr> me_Name = name, me_Namespace = ns, me_DeletionTimestamp = None, me_Finalizers = [],
     me_Spec = \<lparr> es_Tls = None, es_Annotations = [], es_Protocols = [], es_Host = None,
       es_Cluster = Some (), es_Ingress = None, es_Route = None, es_NodePort = None, es_LoadBalancer = None \<rparr>,
     me_Status = \<lparr> est_Phase = ''Active'', est_Type = ''Cluster'', est_Message = '''', est_Conditions = [],
       est_Host = ''messaging.'' @ ns, est_Ports = [], est_Tls = None, est_InternalPorts = ports \<rparr> \<rparr>"

definition example_ports :: "MessagingEndpointPort list" where
  "example_ports = [\<lparr> ep_Name = ''n-e-AMQP'', ep_Protocol = ''AMQP'', ep_Port = 40000 \<rparr>,
     \<lparr> ep_Name = ''n-e-AMQPS'', ep_Protocol = ''AMQPS'', ep_Port = 40001 \<rparr>,
     \<lparr> ep_Name = ''n-e-AMQP-WS'', ep_Protocol = ''AMQP-WS'', ep_Port = 40002 \<rparr>]"

definition ports_infra :: "portmap \<Rightarrow> unit infraClient" where
  "ports_infra ports = (NewInfra (\<lambda>h p t. panic) (\<lambda>h p t. panic) (\<lambda>w. 0))
     \<lparr>ic_initialized := True, ic_ports := ports\<rparr>"

definition three_ports :: portmap where
  "three_ports = [(40000, None), (40001, None), (40002, None)]"

lemmas ports_example_defs = example_endpoint_def example_ports_def ports_infra_def NewInfra_def
  three_ports_def protocol_defs portName_def set_InternalPorts_def

theorem allocatePort_spec_witness:
  "\<exists>port ports'. allocatePort ''x'' three_ports = (Inr port, ports') \<and>
     map_of ports' = (map_of three_ports)(port \<mapsto> Some ''x'')"
proof -
  have "gm_ok three_ports" "map_of three_ports 40000 = Some None"
    by (simp_all add: three_ports_def gm_ok_def)
  with allocatePort_spec [of three_ports "''x''"] show ?thesis by metis
qed

lemma example_allocation:
  "AllocatePorts (example_endpoint ''n'' ''e'' []) [''AMQP'', ''AMQPS'', ''AMQP-WS''] (ports_infra three_ports) =
     (None, example_endpoint ''n'' ''e'' example_ports,
      ports_infra [(40000, Some ''n-e-AMQP''), (40001, Some ''n-e-AMQPS''), (40002, Some ''n-e-AMQP-WS'')])"
  by (simp add: AllocatePorts_def ports_example_defs Let_def allocatePort_def)

theorem AllocatePorts_success_witness:
  "ports_bound (example_endpoint ''n'' ''e'' example_ports)
     (ic_ports (ports_infra [(40000, Some ''n-e-AMQP''), (40001, Some ''n-e-AMQPS''), (40002, Some ''n-e-AMQP-WS'')]))"
  using AllocatePorts_success [OF example_allocation]
  by (simp add: ports_example_defs gm_ok_def ports_bound_def)

theorem FreePorts_spec_witness:
  "map_of (ic_ports (snd (FreePorts (example_endpoint ''n'' ''e'' example_ports)
      (ports_infra [(40000, Some ''n-e-AMQP''), (40001, Some ''n-e-AMQPS''), (40002, Some ''n-e-AMQP-WS'')])))) 40002
     = Some (Some ''n-e-AMQP-WS'')"
proof -
  let ?i = "ports_infra [(40000, Some ''n-e-AMQP''), (40001, Some ''n-e-AMQPS''), (40002, Some ''n-e-AMQP-WS'')]"
  have "ic_initialized ?i" by (simp add: ports_infra_def)
  from FreePorts_spec [OF this, of "example_endpoint ''n'' ''e'' example_ports" _ _ 40002] show ?thesis
    by (simp add: ports_example_defs is_websocket_def FreePorts_def freePortsInternal_def freePort_def)
qed


text \<open>Port names do not identify endpoints. The endpoints \<open>c\<close> in namespace
  \<open>a-b\<close> and \<open>b-c\<close> in namespace \<open>a\<close> have the same port names, and the second one is given the
  port that the first one holds.\<close>

theorem portName_collision:
  "portName (example_endpoint ''a-b'' ''c'' []) protocol = portName (example_endpoint ''a'' ''b-c'' []) protocol \<and>
   (let (err1, e1, i1) = AllocatePorts (example_endpoint ''a-b'' ''c'' []) [''AMQP''] (ports_infra three_ports);
        (err2, e2, i2) = AllocatePorts (example_endpoint ''a'' ''b-c'' []) [''AMQP''] i1
    in err1 = None \<and> err2 = None \<and> map ep_Port (InternalPorts e1) = [40000] \<and>
       map ep_Port (InternalPorts e2) = [40000])"
  by (simp add: AllocatePorts_def ports_example_defs Let_def allocatePort_def)

end
