(* ===== verification/Infra_Build.thy ===== *)
theory Infra_Build
  imports Infra_Hosts Infra_Ports
begin

text \<open>
  The translation of projects, endpoints and addresses into the router and broker entities that
  have to exist for them (\<open>buildEntities\<close> and the functions it calls in
  \<open>pkg/state/infra.go\<close>). Reading a field of a missing project is a nil dereference: the result
  is then \<open>None\<close>.
\<close>

section \<open>Entities of an endpoint\<close>

definition isEndpointActive :: "MessagingEndpoint \<Rightarrow> bool" where
  "isEndpointActive endpoint \<longleftrightarrow>
     est_Phase (me_Status endpoint) = MessagingEndpointActive \<and> est_Host (me_Status endpoint) \<noteq> ''''"

definition buildRouterProjectEntities :: "MessagingProject \<Rightarrow> RouterEntity list" where
  "buildRouterProjectEntities project = []"

definition needs_ssl :: "MessagingEndpoint \<Rightarrow> MessagingEndpointPort \<Rightarrow> bool" where
  "needs_ssl endpoint internalPort \<longleftrightarrow>
     ep_Protocol internalPort = MessagingProtocolAMQPS \<or>
     (ep_Protocol internalPort = MessagingProtocolAMQPWSS \<and> \<not> MessagingEndpoint_IsEdgeTerminated endpoint)"

definition cert_file :: "MessagingEndpoint \<Rightarrow> string \<Rightarrow> string" where
  "cert_file endpoint ext =
     ''/etc/enmasse-project-certs/'' @ me_Namespace endpoint @ ''.'' @ me_Name endpoint @ ''.'' @ ext"

definition endpoint_profile :: "MessagingEndpoint \<Rightarrow> MessagingEndpointPort \<Rightarrow> RouterSslProfile" where
  "endpoint_profile endpoint internalPort =
     \<lparr> sp_Name = sslProfileName (ep_Name internalPort),
       sp_Ciphers = (case es_Tls (me_Spec endpoint) of
          None \<Rightarrow> '''' | Some tls \<Rightarrow> (case tls_Ciphers tls of None \<Rightarrow> '''' | Some c \<Rightarrow> c)),
       sp_Protocols = (case es_Tls (me_Spec endpoint) of
          None \<Rightarrow> '''' | Some tls \<Rightarrow> (case tls_Protocols tls of None \<Rightarrow> '''' | Some p \<Rightarrow> p)),
       sp_CaCertFile = '''',
       sp_CertFile = cert_file endpoint ''crt'',
       sp_PrivateKeyFile = cert_file endpoint ''key'' \<rparr>"

definition endpoint_listener :: "MessagingEndpoint \<Rightarrow> MessagingEndpointPort \<Rightarrow> RouterListener" where
  "endpoint_listener endpoint internalPort =
     (let ssl = needs_ssl endpoint internalPort;
          websockets = (ep_Protocol internalPort = MessagingProtocolAMQPWS \<or>
            ep_Protocol internalPort = MessagingProtocolAMQPWSS)
      in \<lparr> rl_Name = listenerName (ep_Name internalPort), rl_Host = ''0.0.0.0'',
           rl_Port = show_int (ep_Port internalPort), rl_Role = ''normal'',
           rl_SslProfile = (if ssl then sslProfileName (ep_Name internalPort) else ''''),
           rl_SaslMechanisms = '''', rl_LinkCapacity = 0, rl_IdleTimeoutSeconds = 16,
           rl_InitialHandshakeTimeoutSeconds = 0, rl_PolicyVhost = '''',
           rl_AuthenticatePeer = False, rl_MultiTenant = True,
           rl_RequireSsl = (ssl \<and> \<not> websockets), rl_Http = websockets, rl_Metrics = False,
           rl_Healthz = False, rl_Websockets = websockets, rl_HttpRootDir = '''' \<rparr>)"

definition buildRouterEndpointEntities :: "MessagingEndpoint \<Rightarrow> RouterEntity list" where
  "buildRouterEndpointEntities endpoint =
     concat (map (\<lambda>internalPort.
       (if needs_ssl endpoint internalPort then [RESslProfile (endpoint_profile endpoint internalPort)] else [])
       @ [REListener (endpoint_listener endpoint internalPort)]) (InternalPorts endpoint))"

section \<open>Entities of an address\<close>

text \<open>A missing host name gives the zero \<open>Host\<close>.\<close>

definition host_of :: "'w infraClient \<Rightarrow> string \<Rightarrow> Host" where
  "host_of i name = (case ic_hostMap i name of Some h \<Rightarrow> h | None \<Rightarrow> \<lparr> Hostname = '''', Ip = '''' \<rparr>)"

definition broker_of :: "'w infraClient \<Rightarrow> string \<Rightarrow> 'w BrokerState option" where
  "broker_of i name = map_of (ic_brokers i) (host_of i name)"

text \<open>
  The loops over the brokers of an address: the first unknown broker ends them with an error.
\<close>

fun each_broker ::
  "'w infraClient \<Rightarrow> (string \<Rightarrow> error) \<Rightarrow> (string \<Rightarrow> 'w BrokerState \<Rightarrow> 'e list) \<Rightarrow> MessagingAddressBroker list
    \<Rightarrow> error + 'e list" where
  "each_broker i unknown mk [] = Inr []"
| "each_broker i unknown mk (broker # brokers) =
     (case broker_of i (mb_Host broker) of
        None \<Rightarrow> Inl (unknown (mb_Host broker))
      | Some state \<Rightarrow>
          (case each_broker i unknown mk brokers of
             Inl err \<Rightarrow> Inl err
           | Inr es \<Rightarrow> Inr (mk (mb_Host broker) state @ es)))"

definition router_address :: "string \<Rightarrow> string \<Rightarrow> string \<Rightarrow> bool \<Rightarrow> RouterEntity" where
  "router_address name prefix distribution waypoint =
     REAddress \<lparr> ra_Name = name, ra_Prefix = prefix, ra_Waypoint = waypoint, ra_Distribution = distribution \<rparr>"

definition auto_link :: "string \<Rightarrow> string \<Rightarrow> string \<Rightarrow> string \<Rightarrow> string \<Rightarrow> RouterEntity" where
  "auto_link name address direction connection external =
     REAutoLink \<lparr> al_Name = name, al_Address = address, al_Direction = direction,
       al_Connection = connection, al_ExternalAddress = external \<rparr>"

definition link_route :: "string \<Rightarrow> string \<Rightarrow> string \<Rightarrow> string \<Rightarrow> RouterEntity" where
  "link_route name prefix direction connection =
     RELinkRoute \<lparr> lr_Name = name, lr_Prefix = prefix, lr_Direction = direction, lr_Connection = connection \<rparr>"

definition unknown_broker :: "string \<Rightarrow> string \<Rightarrow> string \<Rightarrow> string \<Rightarrow> error" where
  "unknown_broker what projectId address host =
     Errorf (''unable to configure '' @ what @ '' (project '' @ projectId @ '' address '' @ address @
       '') for unknown broker '' @ host)"

definition cons_address :: "RouterEntity \<Rightarrow> error + RouterEntity list \<Rightarrow> error + RouterEntity list" where
  "cons_address a r = (case r of Inl err \<Rightarrow> Inl err | Inr es \<Rightarrow> Inr (a # es))"

definition queue_links ::
  "string \<Rightarrow> MessagingAddress \<Rightarrow> string \<Rightarrow> string \<Rightarrow> 'w BrokerState \<Rightarrow> RouterEntity list" where
  "queue_links projectId address fullAddress host state =
     [auto_link (autoLinkName projectId address host ''in'') fullAddress ''in'' (connectorName state) fullAddress,
      auto_link (autoLinkName projectId address host ''out'') fullAddress ''out'' (connectorName state) fullAddress]"

definition topic_routes ::
  "string \<Rightarrow> MessagingAddress \<Rightarrow> string \<Rightarrow> string \<Rightarrow> 'w BrokerState \<Rightarrow> RouterEntity list" where
  "topic_routes projectId address fullAddress host state =
     [link_route (linkRouteName projectId address host ''out'') fullAddress ''out'' (connectorName state),
      link_route (linkRouteName projectId address host ''in'') fullAddress ''in'' (connectorName state)]"

text \<open>Everything but the transactional case.\<close>

definition address_entities ::
  "'w infraClient \<Rightarrow> string \<Rightarrow> MessagingAddress \<Rightarrow> error + RouterEntity list" where
  "address_entities i projectId address =
     (let spec = ma_Spec address;
          addr = MessagingAddress_GetAddress address;
          name = addressName projectId address;
          fullAddress = qualifiedAddress projectId addr;
          brokers = ast_Brokers (ma_Status address)
      in if as_Anycast spec \<noteq> None then Inr [router_address name fullAddress ''balanced'' False]
         else if as_Multicast spec \<noteq> None then Inr [router_address name fullAddress ''multicast'' False]
         else if as_Queue spec \<noteq> None then
           cons_address (router_address name fullAddress ''balanced'' True)
             (each_broker i (unknown_broker ''address autoLink'' projectId addr)
                (queue_links projectId address fullAddress) brokers)
         else if as_DeadLetter spec \<noteq> None then
           Inr (router_address name fullAddress ''balanced'' True #
             map (\<lambda>(h, state). auto_link (autoLinkName projectId address (Hostname (bs_host state)) ''in'')
                    fullAddress ''in'' (connectorName state) fullAddress) (ic_brokers i))
         else if as_Topic spec \<noteq> None then
           cons_address (router_address name fullAddress ''balanced'' True)
             (each_broker i (unknown_broker ''address linkRoute'' projectId addr)
                (topic_routes projectId address fullAddress) brokers)
         else (case as_Subscription spec of
             None \<Rightarrow> Inr []
           | Some topic \<Rightarrow>
               cons_address (router_address name fullAddress ''balanced'' True)
                 (each_broker i (unknown_broker ''address autoLink'' projectId addr)
                    (\<lambda>host state. [auto_link (autoLinkName projectId address (Hostname (bs_host state)) ''in'')
                       fullAddress ''in'' (connectorName state)
                       (qualifiedAddress projectId topic @ ''::'' @ fullAddress)]) brokers)))"

definition buildRouterAddressEntities ::
  "'w infraClient \<Rightarrow> MessagingEndpoint \<Rightarrow> MessagingAddress \<Rightarrow> (error + RouterEntity list) option" where
  "buildRouterAddressEntities i endpoint address =
     (if \<not> isEndpointActive endpoint then Some (Inl (Errorf ''inactive endpoint''))
      else let projectId = est_Host (me_Status endpoint)
           in case map_of (ic_projects i) (default_key (ma_Namespace address)) of
                None \<Rightarrow> None
              | Some project \<Rightarrow>
                  (case pst_Broker (mp_Status project) of
                     None \<Rightarrow> Some (address_entities i projectId address)
                   | Some broker \<Rightarrow>
                       (case broker_of i (mb_Host broker) of
                          None \<Rightarrow> Some (Inl (Errorf (''unable to configure transactional linkroute (project ''
                            @ projectId @ '') for unknown broker '' @ mb_Host broker)))
                        | Some state \<Rightarrow>
                            (let host = Hostname (host_of i (mb_Host broker));
                                 connector = connectorName state
                             in Some (Inr
                                  [link_route (globalLinkRouteName projectId host ''out'') projectId ''out'' connector,
                                   link_route (globalLinkRouteName projectId host ''in'') projectId ''in'' connector])))))"

section \<open>Entities on the brokers\<close>

definition createDefaultAddressSettings :: "string \<Rightarrow> BrokerAddressSetting" where
  "createDefaultAddressSettings address =
     \<lparr> st_Name = address, st_DeadLetterAddress = '''', st_ExpiryAddress = '''', st_ExpiryDelay = -1,
       st_LastValueQueue = False, st_DeliveryAttempts = 10, st_MaxSizeBytes = -1,
       st_PageSizeBytes = 10485760, st_PageMaxCacheSize = 5, st_RedeliveryDelay = 0,
       st_RedeliveryMultiplier = 1, st_MaxRedeliveryDelay = 10000, st_RedistributionDelay = -1,
       st_SendToDLAOnNoRoute = False, st_AddressFullMessagePolicy = AddressFullPolicyFail,
       st_SlowConsumerThreshold = -1, st_SlowConsumerCheckPeriod = -1,
       st_SlowConsumerPolicy = SlowConsumerPolicyKill, st_AutoCreateJmsQueues = False,
       st_AutoDeleteJmsQueues = False, st_AutoCreateJmsTopics = False, st_AutoDeleteJmsTopics = False,
       st_AutoCreateQueues = False, st_AutoDeleteQueues = False, st_AutoCreateAddresses = False,
       st_AutoDeleteAddresses = False \<rparr>"

type_synonym broker_entities = "(Host, BrokerEntity list) gomap"

definition add_entities :: "Host \<Rightarrow> BrokerEntity list \<Rightarrow> broker_entities \<Rightarrow> broker_entities" where
  "add_entities host es m = gm_put host ((case map_of m host of None \<Rightarrow> [] | Some l \<Rightarrow> l) @ es) m"

fun broker_loop ::
  "'w infraClient \<Rightarrow> (string \<Rightarrow> error) \<Rightarrow> BrokerEntity list \<Rightarrow> MessagingAddressBroker list \<Rightarrow> broker_entities
    \<Rightarrow> error + broker_entities" where
  "broker_loop i unknown es [] m = Inr m"
| "broker_loop i unknown es (broker # brokers) m =
     (case broker_of i (mb_Host broker) of
        None \<Rightarrow> Inl (unknown (mb_Host broker))
      | Some state \<Rightarrow> broker_loop i unknown es brokers (add_entities (host_of i (mb_Host broker)) es m))"

definition address_queue :: "string \<Rightarrow> string \<Rightarrow> RoutingType \<Rightarrow> int \<Rightarrow> BrokerEntity" where
  "address_queue name address routing maxConsumers =
     BEQueue \<lparr> bq_Name = name, bq_Address = address, bq_RoutingType = routing,
       bq_MaxConsumers = maxConsumers, bq_Durable = True, bq_AutoCreateAddress = False,
       bq_PurgeOnNoConsumers = False \<rparr>"

definition broker_address :: "string \<Rightarrow> RoutingType \<Rightarrow> BrokerEntity" where
  "broker_address name routing = BEAddress \<lparr> ba_Name = name, ba_RoutingType = routing \<rparr>"

definition queue_settings :: "string \<Rightarrow> string \<Rightarrow> MessagingAddressSpecQueue \<Rightarrow> BrokerAddressSetting" where
  "queue_settings projectId fullAddress queue =
     (createDefaultAddressSettings fullAddress)
       \<lparr> st_DeadLetterAddress :=
           (if DeadLetterAddress queue \<noteq> '''' then qualifiedAddress projectId (DeadLetterAddress queue) else ''''),
         st_ExpiryAddress :=
           (if ExpiryAddress queue \<noteq> '''' then qualifiedAddress projectId (ExpiryAddress queue) else '''') \<rparr>"

definition buildBrokerAddressEntities ::
  "'w infraClient \<Rightarrow> MessagingEndpoint \<Rightarrow> MessagingAddress \<Rightarrow> error + broker_entities" where
  "buildBrokerAddressEntities i endpoint address =
     (if \<not> isEndpointActive endpoint then Inl (Errorf ''inactive endpoint'')
      else let projectId = est_Host (me_Status endpoint);
               spec = ma_Spec address;
               addr = MessagingAddress_GetAddress address;
               fullAddress = qualifiedAddress projectId addr;
               brokers = ast_Brokers (ma_Status address)
           in case as_Queue spec of
                Some queue \<Rightarrow>
                  broker_loop i (unknown_broker ''queue'' projectId addr)
                    [broker_address fullAddress RoutingTypeAnycast,
                     address_queue fullAddress fullAddress RoutingTypeAnycast (-1),
                     BESetting (queue_settings projectId fullAddress queue)] brokers []
              | None \<Rightarrow>
                  if as_DeadLetter spec \<noteq> None then
                    Inr (fold (\<lambda>(h, state). add_entities (bs_host state)
                           [broker_address fullAddress RoutingTypeAnycast,
                            address_queue fullAddress fullAddress RoutingTypeAnycast (-1)]) (ic_brokers i) [])
                  else if as_Topic spec \<noteq> None then
                    broker_loop i (unknown_broker ''topic'' projectId addr)
                      [broker_address fullAddress RoutingTypeMulticast] brokers []
                  else (case as_Subscription spec of
                      Some topic \<Rightarrow>
                        broker_loop i (unknown_broker ''subscription'' projectId addr)
                          [address_queue fullAddress (qualifiedAddress projectId topic) RoutingTypeMulticast 1]
                          brokers []
                    | None \<Rightarrow> Inr []))"

section \<open>Entities of a batch of requests\<close>

definition active_in :: "'w infraClient \<Rightarrow> string \<Rightarrow> MessagingEndpoint list" where
  "active_in i ns = filter (\<lambda>e. isEndpointActive e \<and> me_Namespace e = ns) (map snd (ic_endpoints i))"

definition merge_entities :: "broker_entities \<Rightarrow> broker_entities \<Rightarrow> broker_entities" where
  "merge_entities result m = fold (\<lambda>(broker, entities). add_entities broker entities) result m"

text \<open>
  The entities of one address for all active endpoints. When one of them fails, the entities
  collected so far stay in the accumulators.
\<close>

fun build_address ::
  "'w infraClient \<Rightarrow> MessagingAddress \<Rightarrow> MessagingEndpoint list \<Rightarrow> RouterEntity list \<Rightarrow> broker_entities
    \<Rightarrow> (error option \<times> RouterEntity list \<times> broker_entities) option" where
  "build_address i address [] routerEntities brokerEntities = Some (None, routerEntities, brokerEntities)"
| "build_address i address (endpoint # endpoints) routerEntities brokerEntities =
     (case buildRouterAddressEntities i endpoint address of
        None \<Rightarrow> None
      | Some (Inl err) \<Rightarrow> Some (Some err, routerEntities, brokerEntities)
      | Some (Inr resultRouter) \<Rightarrow>
          (case buildBrokerAddressEntities i endpoint address of
             Inl err \<Rightarrow> Some (Some err, routerEntities, brokerEntities)
           | Inr resultBroker \<Rightarrow>
               build_address i address endpoints (routerEntities @ resultRouter)
                 (merge_entities resultBroker brokerEntities)))"

fun build_loop ::
  "'w infraClient \<Rightarrow> request list \<Rightarrow> request list \<Rightarrow> RouterEntity list \<Rightarrow> broker_entities \<Rightarrow> replies
    \<Rightarrow> (request list \<times> RouterEntity list \<times> broker_entities \<times> replies) option" where
  "build_loop i [] built res bes out = Some (built, res, bes, out)"
| "build_loop i (req # requests) built res bes out =
     (case req_resource req of
        RAddress address \<Rightarrow>
          (if active_in i (ma_Namespace address) = []
           then build_loop i requests built res bes (out @ [(req, Some NoEndpointsError)])
           else case build_address i address (active_in i (ma_Namespace address)) res bes of
               None \<Rightarrow> None
             | Some (Some err, res', bes') \<Rightarrow> build_loop i requests built res' bes' (out @ [(req, Some err)])
             | Some (None, res', bes') \<Rightarrow> build_loop i requests (built @ [req]) res' bes' out)
      | REndpoint endpoint \<Rightarrow>
          build_loop i requests (built @ [req]) (res @ buildRouterEndpointEntities endpoint) bes out
      | RProject project \<Rightarrow>
          build_loop i requests (built @ [req]) (res @ buildRouterProjectEntities project) bes out
      | ROther n ns \<Rightarrow>
          build_loop i requests built res bes (out @ [(req, Some (Errorf ''unknown resource type''))]))"

definition buildEntities ::
  "'w infraClient \<Rightarrow> request list \<Rightarrow> (request list \<times> RouterEntity list \<times> broker_entities \<times> replies) option" where
  "buildEntities i requests =
     build_loop i requests [] [] (fold (\<lambda>(h, state). gm_put (bs_host state) []) (ic_brokers i) []) []"

section \<open>What is built\<close>

lemma each_broker_members:
  "each_broker i unknown mk brokers = Inr es \<Longrightarrow>
     set es = (\<Union>b \<in> set brokers. \<Union>state \<in> set_option (broker_of i (mb_Host b)). set (mk (mb_Host b) state)) \<and>
     (\<forall>b \<in> set brokers. broker_of i (mb_Host b) \<noteq> None)"
  by (induction brokers arbitrary: es) (auto split: option.splits sum.splits)

lemma each_broker_iff:
  "(\<exists>es. each_broker i unknown mk brokers = Inr es) \<longleftrightarrow> (\<forall>b \<in> set brokers. broker_of i (mb_Host b) \<noteq> None)"
  by (induction brokers) (auto split: option.splits sum.splits)

lemma broker_loop_iff:
  "(\<exists>m'. broker_loop i unknown es brokers m = Inr m') \<longleftrightarrow> (\<forall>b \<in> set brokers. broker_of i (mb_Host b) \<noteq> None)"
  by (induction brokers arbitrary: m) (auto split: option.splits)

lemma map_of_add_entities:
  "map_of (add_entities h es m) h' =
     (if h' = h then Some ((case map_of m h of None \<Rightarrow> [] | Some l \<Rightarrow> l) @ es) else map_of m h')"
  by (simp add: add_entities_def)

lemma broker_loop_has:
  "broker_loop i unknown es brokers m = Inr m' \<Longrightarrow>
     (\<forall>h l. map_of m h = Some l \<longrightarrow> (\<exists>l'. map_of m' h = Some l' \<and> set l \<subseteq> set l')) \<and>
     (\<forall>b \<in> set brokers. \<exists>l. map_of m' (host_of i (mb_Host b)) = Some l \<and> set es \<subseteq> set l)"
proof (induction brokers arbitrary: m)
  case (Cons b brokers)
  let ?h = "host_of i (mb_Host b)"
  have r: "broker_loop i unknown es brokers (add_entities ?h es m) = Inr m'"
    using Cons.prems by (auto split: option.splits)
  note IH = Cons.IH [OF r]
  obtain l0 where l0: "map_of (add_entities ?h es m) ?h = Some l0" "set es \<subseteq> set l0"
    by (simp add: map_of_add_entities)
  have "\<exists>l'. map_of m' h = Some l' \<and> set l \<subseteq> set l'" if "map_of m h = Some l" for h l
  proof -
    have "\<exists>l1. map_of (add_entities ?h es m) h = Some l1 \<and> set l \<subseteq> set l1"
      using that by (auto simp: map_of_add_entities)
    with IH show ?thesis by (meson order_trans)
  qed
  moreover have "\<exists>l. map_of m' ?h = Some l \<and> set es \<subseteq> set l"
    using IH l0 by (meson order_trans)
  ultimately show ?case using IH by auto
qed simp

text \<open>Which connection an entity uses.\<close>

fun connection_of :: "RouterEntity \<Rightarrow> string option" where
  "connection_of (REAutoLink l) = Some (al_Connection l)"
| "connection_of (RELinkRoute l) = Some (lr_Connection l)"
| "connection_of _ = None"

lemmas entity_defs = router_address_def auto_link_def link_route_def queue_links_def topic_routes_def

lemma broker_of_known: "broker_of i n = Some state \<Longrightarrow> state \<in> snd ` set (ic_brokers i)"
  unfolding broker_of_def by (drule map_of_SomeD) force

lemma cons_address_Inr: "cons_address a r = Inr es \<longleftrightarrow> (\<exists>l. r = Inr l \<and> es = a # l)"
  by (auto simp: cons_address_def split: sum.splits)

lemma each_broker_connections:
  assumes "each_broker i unknown mk brokers = Inr es" and "e \<in> set es" and "connection_of e = Some c"
    and "\<And>host state x. x \<in> set (mk host state) \<Longrightarrow> connection_of x = Some (connectorName state)"
  shows "\<exists>state \<in> snd ` set (ic_brokers i). c = connectorName state"
proof -
  obtain b :: MessagingAddressBroker and state
    where "broker_of i (mb_Host b) = Some state" "e \<in> set (mk (mb_Host b) state)"
    using each_broker_members [OF assms(1)] assms(2) by auto
  with assms(3,4) broker_of_known show ?thesis by fastforce
qed

lemma connections_intro:
  "connection_of (router_address n f d w) = None"
  "x \<in> set (queue_links p a f host state) \<Longrightarrow> connection_of x = Some (connectorName state)"
  "x \<in> set (topic_routes p a f host state) \<Longrightarrow> connection_of x = Some (connectorName state)"
  "connection_of (auto_link n f d k ex) = Some k"
  "connection_of (link_route n f d k) = Some k"
  by (auto simp: entity_defs)

lemma address_entities_connections:
  assumes "address_entities i p a = Inr es" and "e \<in> set es" and "connection_of e = Some c"
  shows "\<exists>state \<in> snd ` set (ic_brokers i). c = connectorName state"
proof -
  have known: "\<exists>state \<in> snd ` set (ic_brokers i). c = connectorName state"
    if cons: "cons_address (router_address n f d w) (each_broker i unknown mk brokers) = Inr es" and
      mk: "\<And>host state x. x \<in> set (mk host state) \<Longrightarrow> connection_of x = Some (connectorName state)"
    for n f d w unknown mk brokers
  proof -
    obtain l where l: "each_broker i unknown mk brokers = Inr l" "es = router_address n f d w # l"
      using cons by (auto simp: cons_address_Inr)
    with assms(2,3) have "e \<in> set l" by (auto simp: connections_intro)
    from each_broker_connections [OF l(1) this assms(3) mk] show ?thesis .
  qed
  note one = connections_intro
  show ?thesis
    using assms
    unfolding address_entities_def Let_def
    by (auto simp: one dest!: known split: if_splits option.splits)
      force
qed

text \<open>The router entities built for an address refer only to connectors of known brokers:
  every auto link and link route goes over the connector of some broker state of the client.\<close>

theorem address_connections:
  assumes "buildRouterAddressEntities i endpoint address = Some (Inr es)" and "e \<in> set es"
    and "connection_of e = Some c"
  shows "\<exists>state \<in> snd ` set (ic_brokers i). c = connectorName state"
proof -
  obtain project where p: "map_of (ic_projects i) (default_key (ma_Namespace address)) = Some project"
    using assms(1) by (auto simp: buildRouterAddressEntities_def Let_def split: if_splits option.splits)
  have act: "isEndpointActive endpoint"
    using assms(1) by (auto simp: buildRouterAddressEntities_def split: if_splits)
  show ?thesis
  proof (cases "pst_Broker (mp_Status project)")
    case None
    with assms(1) p act have "address_entities i (est_Host (me_Status endpoint)) address = Inr es"
      by (simp add: buildRouterAddressEntities_def)
    from address_entities_connections [OF this assms(2,3)] show ?thesis .
  next
    case (Some b)
    obtain state where st: "broker_of i (mb_Host b) = Some state"
      using assms(1) p act Some
      by (cases "broker_of i (mb_Host b)") (auto simp: buildRouterAddressEntities_def)
    then have "c = connectorName state"
      using assms p act Some by (auto simp: buildRouterAddressEntities_def Let_def connections_intro)
    with broker_of_known [OF st] show ?thesis by blast
  qed
qed

lemma buildRouterAddressEntities_None:
  "buildRouterAddressEntities i endpoint address = None \<longleftrightarrow>
     isEndpointActive endpoint \<and> map_of (ic_projects i) (default_key (ma_Namespace address)) = None"
  by (auto simp: buildRouterAddressEntities_def Let_def split: option.splits)


lemma listener_origin:
  assumes "REListener l \<in> set (buildRouterEndpointEntities endpoint)"
  obtains port where "port \<in> set (InternalPorts endpoint)" "l = endpoint_listener endpoint port"
  using assms by (auto simp: buildRouterEndpointEntities_def split: if_splits)

lemma listener_ssl:
  "rl_SslProfile (endpoint_listener endpoint port) = (if needs_ssl endpoint port then sslProfileName (ep_Name port) else '''')"
  by (simp add: endpoint_listener_def Let_def)



end
