(* ===== verification/Infra_Init.thy ===== *)
theory Infra_Init
  imports Infra_Hosts
begin

text \<open>
  Initialization and periodic resynchronization of the nodes, and the placement of addresses:
  what \<open>initialize\<close>, \<open>checkResync\<close> and \<open>ScheduleAddress\<close> of \<open>pkg/state/infra.go\<close> establish
  and keep, and the lemmas on running an operation on all routers or all brokers of a client.
\<close>

section \<open>Initialization and resynchronization\<close>

definition rand_ok :: "'w rand \<Rightarrow> bool" where
  "rand_ok rand \<longleftrightarrow> (\<forall>n w. 0 < n \<longrightarrow> (\<exists>k w'. rand n w = Some (k, w') \<and> k < n))"

lemma randomResync_returns:
  assumes "rand_ok rand"
  shows "\<exists>k w'. randomResync rand now i w = Some (now + ic_resyncInterval i + (int k + 10) * second, w') \<and> k < 20"
proof -
  obtain k w' where "rand 20 w = Some (k, w')" "k < 20"
    using assms [unfolded rand_ok_def, rule_format, of 20 w] by auto
  then show ?thesis by (intro exI [of _ k] exI [of _ w']) (simp add: randomResync_def bindp_def)
qed

text \<open>The next resynchronization of a node of a new client lies at least 1810 and less than
  1830 seconds in the future, so that the nodes of an infrastructure are not all reset at once.\<close>

theorem randomResync_bounds:
  assumes "rand_ok rand" and "ic_resyncInterval i = ic_resyncInterval (NewInfra rf bf clk)"
  shows "\<exists>t w'. randomResync rand now i w = Some (t, w') \<and> now + 1810 * second \<le> t \<and> t < now + 1830 * second"
proof -
  obtain k w' where k: "randomResync rand now i w = Some (now + ic_resyncInterval i + (int k + 10) * second, w')"
    "k < 20"
    using randomResync_returns [OF assms(1)] by blast
  have "ic_resyncInterval i = 1800 * second" unfolding assms(2) by (simp only: NewInfra_def infraClient.simps)
  with k show ?thesis by (simp add: second_def)
qed

lemma Initialize_initialized:
  "broker_good b \<Longrightarrow> BrokerState_Initialize t b w = Some ((None, b'), w') \<Longrightarrow> bs_initialized b'"
  using Initialize_ok [of b t w None b' w'] by (simp add: broker_good_def)

lemma Router_Initialize_good:
  assumes "router_good r"
  shows "\<exists>err r' w'. RouterState_Initialize t r w = Some ((err, r'), w')"
    and "RouterState_Initialize t r w = Some ((err, r'), w') \<Longrightarrow> router_good r' \<and> rs_host r' = rs_host r"
    and "RouterState_Initialize t r w = Some ((None, r'), w') \<Longrightarrow> rs_initialized r'"
proof -
  obtain err1 r1 w1 where 1: "RouterState_Initialize t r w = Some ((err1, r1), w1)" "router_ok r1"
    "err1 = None \<longleftrightarrow> rs_initialized r1"
    using assms Router_Initialize_ok [of r t w] unfolding router_good_def by blast
  then show "\<exists>err r' w'. RouterState_Initialize t r w = Some ((err, r'), w')" by blast
  show "router_good r' \<and> rs_host r' = rs_host r" if "RouterState_Initialize t r w = Some ((err, r'), w')"
    using Router_Initialize_frame [OF that] that 1(1,2) assms by (simp add: router_good_def)
  show "rs_initialized r'" if "RouterState_Initialize t r w = Some ((None, r'), w')"
    using that 1(1,3) by (metis Pair_inject option.inject)
qed

lemma Broker_Initialize_good:
  assumes "broker_good b"
  shows "\<exists>err b' w'. BrokerState_Initialize t b w = Some ((err, b'), w')"
    and "BrokerState_Initialize t b w = Some ((err, b'), w') \<Longrightarrow> broker_good b' \<and> bs_host b' = bs_host b"
proof -
  have "client_total (bs_commandClient b)" using assms by (simp add: broker_good_def)
  from prog_returns2 [OF Initialize_total [OF this]]
  show "\<exists>err b' w'. BrokerState_Initialize t b w = Some ((err, b'), w')" .
  show "broker_good b' \<and> bs_host b' = bs_host b" if "BrokerState_Initialize t b w = Some ((err, b'), w')"
    using Initialize_frame [OF that] Initialize_ok [OF _ that] assms by (simp add: broker_good_def)
qed

text \<open>The two calls that \<open>initialize\<close> makes on every node meet the contract of a node operation.\<close>

lemma init_router_op:
  fixes rand :: "'w rand"
  assumes "rand_ok rand"
  shows "node_post router_good rs_host
    (\<lambda>r. bindp (randomResync rand now i) (\<lambda>t. RouterState_Initialize t r)) rs_initialized"
proof
  fix s :: "'w RouterState" and w assume g: "router_good s"
  obtain t w1 where t: "randomResync rand now i w = Some (t, w1)" using randomResync_returns [OF assms] by blast
  show "\<exists>err s' w'. bindp (randomResync rand now i) (\<lambda>t. RouterState_Initialize t s) w = Some ((err, s'), w')"
    using Router_Initialize_good(1) [OF g] t by (simp add: bindp_def)
qed (auto simp: bindp_eq_Some dest: Router_Initialize_good)

lemma init_broker_op:
  fixes rand :: "'w rand"
  assumes "rand_ok rand"
  shows "node_post broker_good bs_host
    (\<lambda>b. bindp (randomResync rand now i) (\<lambda>t. BrokerState_Initialize t b)) bs_initialized"
proof
  fix s :: "'w BrokerState" and w assume g: "broker_good s"
  obtain t w1 where t: "randomResync rand now i w = Some (t, w1)" using randomResync_returns [OF assms] by blast
  show "\<exists>err s' w'. bindp (randomResync rand now i) (\<lambda>t. BrokerState_Initialize t s) w = Some ((err, s'), w')"
    using Broker_Initialize_good(1) [OF g] t by (simp add: bindp_def)
qed (auto simp: bindp_eq_Some dest: Broker_Initialize_good Initialize_initialized)

text \<open>A successful call on all nodes establishes the postcondition on all of them.\<close>

lemma apply_routers_post:
  assumes "node_post router_good rs_host op post" and "hosts_ok i"
    and "applyRouters sched op i w = Some ((None, i'), w')" and "(h, s) \<in> set (ic_routers i')"
  shows "post s"
proof -
  obtain errs m where m: "apply_all sched op (ic_routers i) w = Some ((errs, m), w')" "first_some errs = None"
    "i' = i\<lparr>ic_routers := m\<rparr>"
    using assms(3) by (auto simp: applyRouters_def bindp_eq_Some)
  have "nodes_ok router_good rs_host (ic_routers i)" using assms(2) by (simp add: hosts_ok_def)
  from node_post.apply_all_post [OF assms(1) this m(1,2)] assms(4) m(3) show ?thesis by simp
qed

lemma apply_brokers_post:
  assumes "node_post broker_good bs_host op post" and "hosts_ok i"
    and "applyBrokers sched op i w = Some ((None, i'), w')" and "(h, s) \<in> set (ic_brokers i')"
  shows "post s"
proof -
  obtain errs m where m: "apply_all sched op (ic_brokers i) w = Some ((errs, m), w')" "first_some errs = None"
    "i' = i\<lparr>ic_brokers := m\<rparr>"
    using assms(3) by (auto simp: applyBrokers_def bindp_eq_Some)
  have "nodes_ok broker_good bs_host (ic_brokers i)" using assms(2) by (simp add: hosts_ok_def)
  from node_post.apply_all_post [OF assms(1) this m(1,2)] assms(4) m(3) show ?thesis by simp
qed

text \<open>What every operation on the nodes keeps, when it neither adds nor removes one.\<close>

definition nodes_kept :: "'w infraClient \<Rightarrow> 'w infraClient \<Rightarrow> bool" where
  "nodes_kept i i' \<longleftrightarrow> same_rest i i' \<and> ic_hostMap i' = ic_hostMap i \<and> hosts_ok i' \<and>
     gm_keys (ic_routers i') = gm_keys (ic_routers i) \<and> gm_keys (ic_brokers i') = gm_keys (ic_brokers i)"

lemma nodes_kept_refl: "hosts_ok i \<Longrightarrow> nodes_kept i i"
  by (simp add: nodes_kept_def)

lemma nodes_kept_trans: "nodes_kept i j \<Longrightarrow> nodes_kept j k \<Longrightarrow> nodes_kept i k"
  unfolding nodes_kept_def using same_rest_trans by metis

lemma nodes_kept_hostmap: "nodes_kept i i' \<Longrightarrow> hostmap_ok rn i' \<longleftrightarrow> hostmap_ok rn i"
  by (simp add: nodes_kept_def hostmap_ok_def)

lemma applyRouters_kept:
  assumes "node_op router_good rs_host op" and "hosts_ok i"
  shows "\<exists>err i' w'. applyRouters sched op i w = Some ((err, i'), w') \<and> nodes_kept i i' \<and>
    ic_brokers i' = ic_brokers i"
proof -
  obtain err m w' where "applyRouters sched op i w = Some ((err, i\<lparr>ic_routers := m\<rparr>), w')"
    "nodes_ok router_good rs_host m" "gm_keys m = gm_keys (ic_routers i)"
    using apply_routers_ok [OF assms] by blast
  moreover from this have "nodes_kept i (i\<lparr>ic_routers := m\<rparr>)"
    using hosts_ok_routers [OF assms(2)] by (simp add: nodes_kept_def)
  ultimately show ?thesis by fastforce
qed

lemma applyBrokers_kept:
  assumes "node_op broker_good bs_host op" and "hosts_ok i"
  shows "\<exists>err i' w'. applyBrokers sched op i w = Some ((err, i'), w') \<and> nodes_kept i i' \<and>
    ic_routers i' = ic_routers i"
proof -
  obtain err m w' where "applyBrokers sched op i w = Some ((err, i\<lparr>ic_brokers := m\<rparr>), w')"
    "nodes_ok broker_good bs_host m" "gm_keys m = gm_keys (ic_brokers i)"
    using apply_brokers_ok [OF assms] by blast
  moreover from this have "nodes_kept i (i\<lparr>ic_brokers := m\<rparr>)"
    using hosts_ok_brokers [OF assms(2)] by (simp add: nodes_kept_def)
  ultimately show ?thesis by fastforce
qed

lemma initialize_ok:
  assumes "hosts_ok i" and "rand_ok rand"
  shows "\<exists>err i' w'. initialize sched rand i w = Some ((err, i'), w') \<and> nodes_kept i i' \<and>
    (err = None \<longrightarrow> (\<forall>(h, r) \<in> set (ic_routers i'). rs_initialized r) \<and>
      (\<forall>(h, b) \<in> set (ic_brokers i'). bs_initialized b))"
proof -
  let ?now = "ic_clock i w"
  note ro = init_router_op [OF assms(2), of ?now i] and bo = init_broker_op [OF assms(2), of ?now i]
  obtain err i1 w1 where 1: "applyRouters sched
      (\<lambda>r. bindp (randomResync rand ?now i) (\<lambda>t. RouterState_Initialize t r)) i w = Some ((err, i1), w1)"
    "nodes_kept i i1"
    using applyRouters_kept [OF node_post.axioms(1) [OF ro] assms(1)] by blast
  show ?thesis
  proof (cases err)
    case (Some e)
    with 1 show ?thesis by (auto simp: initialize_def bindp_def Let_def)
  next
    case None
    have ok1: "hosts_ok i1" using 1(2) by (simp add: nodes_kept_def)
    obtain err2 i2 w2 where 2: "applyBrokers sched
        (\<lambda>b. bindp (randomResync rand ?now i) (\<lambda>t. BrokerState_Initialize t b)) i1 w1 = Some ((err2, i2), w2)"
      "nodes_kept i1 i2" "ic_routers i2 = ic_routers i1"
      using applyBrokers_kept [OF node_post.axioms(1) [OF bo] ok1] by blast
    have "\<forall>(h, r) \<in> set (ic_routers i2). rs_initialized r"
      using apply_routers_post [OF ro assms(1) 1(1) [unfolded None]] 2(3) by auto
    moreover have "\<forall>(h, b) \<in> set (ic_brokers i2). bs_initialized b" if "err2 = None"
      using apply_brokers_post [OF bo ok1 2(1) [unfolded that]] by auto
    moreover have "initialize sched rand i w = Some ((err2, i2), w2)"
      using 1(1) 2(1) None by (simp add: initialize_def bindp_def Let_def)
    moreover have "nodes_kept i i2" by (rule nodes_kept_trans [OF 1(2) 2(2)])
    ultimately show ?thesis by blast
  qed
qed

lemma reset_due_ok:
  assumes reset: "\<And>s w. good s \<Longrightarrow> \<exists>s' w'. reset s w = Some (s', w') \<and> good s' \<and> host s' = host s"
  shows "\<forall>(h, s) \<in> set m. good s \<and> host s = h \<Longrightarrow>
    \<exists>m' w'. reset_due nxt reset now m w = Some (m', w') \<and> map fst m' = map fst m \<and>
      (\<forall>(h, s) \<in> set m'. good s \<and> host s = h)"
proof (induction m arbitrary: w)
  case (Cons x m)
  obtain h s where x: "x = (h, s)" by (cases x)
  with Cons.prems have g: "good s" "host s = h" by auto
  obtain s' w1 where 1: "(if nxt s < now then reset s else ret s) w = Some (s', w1)" "good s'" "host s' = h"
  proof (cases "nxt s < now")
    case True
    with reset [OF g(1), of w] g(2) that show ?thesis by auto
  next
    case False
    with g that show ?thesis by simp
  qed
  obtain m' w2 where "reset_due nxt reset now m w1 = Some (m', w2)" "map fst m' = map fst m"
    "\<forall>(h, s) \<in> set m'. good s \<and> host s = h"
    using Cons.IH [of w1] Cons.prems by auto
  with 1 x show ?case by (simp add: bindp_def)
qed simp

lemma reset_nodes_ok:
  assumes "nodes_ok good host m"
    and "\<And>s w. good s \<Longrightarrow> \<exists>s' w'. reset s w = Some (s', w') \<and> good s' \<and> host s' = host s"
  shows "\<exists>m' w'. reset_due nxt reset now m w = Some (m', w') \<and> nodes_ok good host m' \<and> gm_keys m' = gm_keys m"
proof -
  have "\<forall>(h, s) \<in> set m. good s \<and> host s = h" using assms(1) by (simp add: nodes_ok_def)
  from reset_due_ok [of good reset host, OF assms(2) this, of nxt now w] obtain m' w' where
    1: "reset_due nxt reset now m w = Some (m', w')" "map fst m' = map fst m"
      "\<forall>(h, s) \<in> set m'. good s \<and> host s = h" by blast
  have "gm_keys m' = gm_keys m" by (metis 1(2) list.set_map)
  moreover have "nodes_ok good host m'" using 1(2,3) assms(1) by (simp add: nodes_ok_def gm_ok_def)
  ultimately show ?thesis using 1(1) by blast
qed

lemma Router_Reset_good:
  "router_good r \<Longrightarrow> \<exists>r' w'. RouterState_Reset r w = Some (r', w') \<and> router_good r' \<and> rs_host r' = rs_host r"
  by (cases "rs_initialized r") (simp_all add: RouterState_Reset_def router_good_def router_ok_def)

lemma Broker_Reset_good:
  "broker_good b \<Longrightarrow> \<exists>b' w'. BrokerState_Reset b w = Some (b', w') \<and> broker_good b' \<and> bs_host b' = bs_host b"
  by (cases "bs_initialized b") (simp_all add: BrokerState_Reset_def broker_good_def broker_ok_def)

lemma checkResync_ok:
  assumes "hosts_ok i"
  shows "\<exists>i' w'. checkResync i w = Some (i', w') \<and> nodes_kept i i'"
proof -
  have r: "nodes_ok router_good rs_host (ic_routers i)" and b: "nodes_ok broker_good bs_host (ic_brokers i)"
    using assms by (simp_all add: hosts_ok_def)
  obtain rs w1 where 1: "reset_due rs_nextResync RouterState_Reset (ic_clock i w) (ic_routers i) w = Some (rs, w1)"
    "nodes_ok router_good rs_host rs" "gm_keys rs = gm_keys (ic_routers i)"
    using reset_nodes_ok [OF r, of RouterState_Reset, OF Router_Reset_good] by blast
  obtain bs w2 where 2: "reset_due bs_nextResync BrokerState_Reset (ic_clock i w) (ic_brokers i) w1 = Some (bs, w2)"
    "nodes_ok broker_good bs_host bs" "gm_keys bs = gm_keys (ic_brokers i)"
    using reset_nodes_ok [OF b, of BrokerState_Reset, OF Broker_Reset_good] by blast
  have "same_rest i (i\<lparr>ic_routers := rs, ic_brokers := bs\<rparr>)" by (simp add: same_rest_def)
  with 1 2 assms show ?thesis
    by (auto simp: checkResync_def bindp_def Let_def nodes_kept_def hosts_ok_def)
qed

section \<open>Placement\<close>

text \<open>On an initialized client, scheduling an address whose project is known succeeds
  exactly when the project has a broker of its own or there is some broker. The address ends up on the
  project's broker only, respectively gains one broker that is among the known ones; without a known
  project nothing is scheduled.\<close>

theorem ScheduleAddress_spec:
  assumes "ic_initialized i" and "hosts_ok i"
  shows "case map_of (ic_projects i) (default_key (ma_Namespace a)) of
      None \<Rightarrow> ScheduleAddress a i = (Some ProjectNotFoundError, a)
    | Some p \<Rightarrow>
        (case pst_Broker (mp_Status p) of
           Some b \<Rightarrow> ScheduleAddress a i = (None, set_address_brokers [b] a)
         | None \<Rightarrow>
             (if ic_brokers i = [] then \<exists>err. ScheduleAddress a i = (Some err, a)
              else \<exists>h \<in> gm_keys (ic_brokers i).
                ScheduleAddress a i = (None, set_address_brokers (ast_Brokers (ma_Status a) @
                  [\<lparr> mb_State = MessagingAddressBrokerScheduled, mb_Host = Hostname h \<rparr>]) a)))"
proof (cases "ic_brokers i")
  case Nil
  with assms(1) show ?thesis by (auto simp: ScheduleAddress_def split: option.splits)
next
  case (Cons x m)
  then have "bs_host (snd x) = fst x" using assms(2) by (auto simp: hosts_ok_def nodes_ok_def)
  with Cons assms(1) show ?thesis
    by (auto simp: ScheduleAddress_def scheduled_def split: option.splits)
qed

end
