(* ===== verification/Infra_Sync.thy ===== *)
theory Infra_Sync
  imports Infra_Build Infra_Init
begin

text \<open>
  The batches of requests that the two goroutines of an infrastructure client work on
  (\<open>doSync\<close>, \<open>doDelete\<close> and \<open>collectRequests\<close> in \<open>pkg/state/infra.go\<close>). A batch answers
  its requests on their \<open>done\<close> channels, each of which has room for one value: the answers are
  collected as a list of replies. Deleting an endpoint also changes the endpoint object of the
  request, so a reply carries the request with the object as it is then.
\<close>

section \<open>Collecting requests\<close>

definition maxBatchSize :: nat where "maxBatchSize = 50"
definition syncBufferSize :: nat where "syncBufferSize = 100"

text \<open>
  The channel is the list of the requests still to come, each with the time that passes before it
  can be received once the previous one has been taken. Waiting longer than the timeout ends the
  batch.
\<close>

fun collect :: "(time \<times> request) list \<Rightarrow> request list \<Rightarrow> request list \<times> (time \<times> request) list" where
  "collect [] requests = (requests, [])"
| "collect ((wait, r) # c) requests =
     (if 1 * second < wait then (requests, (wait, r) # c)
      else if maxBatchSize \<le> length (requests @ [r]) then (requests @ [r], c)
      else collect c (requests @ [r]))"

definition collectRequests :: "(time \<times> request) list \<Rightarrow> request list \<times> (time \<times> request) list" where
  "collectRequests c = collect c []"

text \<open>A request is only accepted when the buffered channel has room.\<close>

definition requestSync :: "request \<Rightarrow> request list \<Rightarrow> error option \<times> request list" where
  "requestSync req c =
     (if length c < syncBufferSize then (None, c @ [req]) else (Some NotSyncedError, c))"

definition requestDelete :: "request \<Rightarrow> request list \<Rightarrow> error option \<times> request list" where
  "requestDelete req c =
     (if length c < syncBufferSize then (None, c @ [req]) else (Some NotDeletedError, c))"

section \<open>Applying entities\<close>

definition entities_for :: "broker_entities \<Rightarrow> Host \<Rightarrow> BrokerEntity list" where
  "entities_for m h = (case map_of m h of None \<Rightarrow> [] | Some l \<Rightarrow> l)"

definition ensure_broker ::
  "'w sched \<Rightarrow> broker_entities \<Rightarrow> 'w BrokerState \<Rightarrow> ('w, error option \<times> 'w BrokerState) prog" where
  "ensure_broker sched brokerEntities broker =
     (if entities_for brokerEntities (bs_host broker) \<noteq> []
      then BrokerState_EnsureEntities sched (entities_for brokerEntities (bs_host broker)) broker
      else ret (None, broker))"

definition syncEntities ::
  "'w sched \<Rightarrow> RouterEntity list \<Rightarrow> broker_entities \<Rightarrow> 'w infraClient \<Rightarrow> ('w, error option \<times> 'w infraClient) prog" where
  "syncEntities sched entities brokerEntities i =
     bindp (if brokerEntities \<noteq> [] then applyBrokers sched (ensure_broker sched brokerEntities) i
            else ret (None, i)) (\<lambda>(err, i1).
       if err \<noteq> None then ret (err, i1)
       else if entities \<noteq> [] then applyRouters sched (RouterState_EnsureEntities sched entities) i1
       else ret (None, i1))"

definition deleteEntities ::
  "'w sched \<Rightarrow> RouterEntity list \<Rightarrow> broker_entities \<Rightarrow> 'w infraClient \<Rightarrow> ('w, error option \<times> 'w infraClient) prog" where
  "deleteEntities sched routerEntities brokerEntities i =
     bindp (applyRouters sched (RouterState_DeleteEntities sched routerEntities) i) (\<lambda>(err, i1).
       if err \<noteq> None then ret (err, i1)
       else applyBrokers sched
              (\<lambda>b. BrokerState_DeleteEntities sched (entities_for brokerEntities (bs_host b)) b) i1)"

section \<open>Synchronizing a batch\<close>

definition needs_project :: "request \<Rightarrow> bool" where
  "needs_project req \<longleftrightarrow>
     (case req_resource req of RAddress _ \<Rightarrow> True | REndpoint _ \<Rightarrow> True | _ \<Rightarrow> False)"

definition sync_valid :: "'w infraClient \<Rightarrow> request \<Rightarrow> bool" where
  "sync_valid i req \<longleftrightarrow>
     \<not> (needs_project req \<and> map_of (ic_projects i) (default_key (GetNamespace (req_resource req))) = None)"

definition not_synced :: "request \<Rightarrow> error" where
  "not_synced req =
     Errorf (''project not synced for '' @ GetNamespace (req_resource req) @ ''/'' @ GetName (req_resource req))"

definition sync_refused :: "'w infraClient \<Rightarrow> request list \<Rightarrow> replies" where
  "sync_refused i toSync = map (\<lambda>req. (req, Some (not_synced req))) (filter (\<lambda>req. \<not> sync_valid i req) toSync)"

fun store_resource :: "resource \<Rightarrow> 'w infraClient \<Rightarrow> 'w infraClient" where
  "store_resource (RAddress a) i = i\<lparr>ic_addresses := gm_put (key_of (RAddress a)) a (ic_addresses i)\<rparr>"
| "store_resource (REndpoint e) i = i\<lparr>ic_endpoints := gm_put (key_of (REndpoint e)) e (ic_endpoints i)\<rparr>"
| "store_resource (RProject p) i = i\<lparr>ic_projects := gm_put (key_of (RProject p)) p (ic_projects i)\<rparr>"
| "store_resource (ROther n ns) i = i"

definition doSync :: "'w sched \<Rightarrow> request list \<Rightarrow> 'w infraClient \<Rightarrow> ('w, replies \<times> 'w infraClient) prog" where
  "doSync sched toSync i =
     (if toSync = [] then ret ([], i)
      else if \<not> ic_initialized i then ret (map (\<lambda>req. (req, Some NotInitializedError)) toSync, i)
      else let valid = filter (sync_valid i) toSync; refused = sync_refused i toSync
           in bindp (liftO (buildEntities i valid)) (\<lambda>(built, routerEntities, brokerEntities, failed).
              bindp (syncEntities sched routerEntities brokerEntities i) (\<lambda>(err, i1).
              ret (refused @ failed @ map (\<lambda>req. (req, err)) built,
                   if err = None then fold (\<lambda>req. store_resource (req_resource req)) built i1 else i1))))"

section \<open>Deleting a batch\<close>

definition delete_valid :: "'w infraClient \<Rightarrow> request \<Rightarrow> bool" where
  "delete_valid i req \<longleftrightarrow>
     (case req_resource req of
        RProject p \<Rightarrow> \<not> list_ex (\<lambda>(k, a). mp_Namespace p = rk_Namespace k) (ic_addresses i)
      | REndpoint e \<Rightarrow> \<not> list_ex (\<lambda>(k, a). me_Namespace e = rk_Namespace k) (ic_addresses i)
      | _ \<Rightarrow> True)"

definition delete_refused :: "'w infraClient \<Rightarrow> request list \<Rightarrow> replies" where
  "delete_refused i toDelete = map (\<lambda>req. (req, Some (Errorf ''resource still in use by addresses'')))
     (filter (\<lambda>req. \<not> delete_valid i req) toDelete)"

fun remove_resource :: "resource \<Rightarrow> 'w infraClient \<Rightarrow> resource \<times> 'w infraClient" where
  "remove_resource (RAddress a) i =
     (RAddress a, i\<lparr>ic_addresses := gm_del (key_of (RAddress a)) (ic_addresses i)\<rparr>)"
| "remove_resource (REndpoint e) i =
     (let (e', i') = freePortsInternal e i
      in (REndpoint e', i'\<lparr>ic_endpoints := gm_del (key_of (REndpoint e)) (ic_endpoints i')\<rparr>))"
| "remove_resource (RProject p) i =
     (RProject p, i\<lparr>ic_projects := gm_del (key_of (RProject p)) (ic_projects i)\<rparr>)"
| "remove_resource (ROther n ns) i = (ROther n ns, i)"

fun remove_all :: "request list \<Rightarrow> 'w infraClient \<Rightarrow> replies \<times> 'w infraClient" where
  "remove_all [] i = ([], i)"
| "remove_all (req # reqs) i =
     (let (r, i1) = remove_resource (req_resource req) i; (out, i2) = remove_all reqs i1
      in ((req\<lparr>req_resource := r\<rparr>, None) # out, i2))"

definition doDelete :: "'w sched \<Rightarrow> request list \<Rightarrow> 'w infraClient \<Rightarrow> ('w, replies \<times> 'w infraClient) prog" where
  "doDelete sched toDelete i =
     (if toDelete = [] then ret ([], i)
      else if \<not> ic_initialized i then ret (map (\<lambda>req. (req, Some NotInitializedError)) toDelete, i)
      else let valid = filter (delete_valid i) toDelete; refused = delete_refused i toDelete
           in bindp (liftO (buildEntities i valid)) (\<lambda>(built, routerEntities, brokerEntities, failed).
              bindp (deleteEntities sched routerEntities brokerEntities i) (\<lambda>(err, i1).
              if err = None
              then let (out, i2) = remove_all built i1 in ret (refused @ failed @ out, i2)
              else ret (refused @ failed @ map (\<lambda>req. (req, err)) built, i1))))"

section \<open>Collecting: batches are bounded prefixes\<close>

lemma collect_split:
  "collect c acc = (batch, rest) \<Longrightarrow>
     \<exists>taken. batch = acc @ map snd taken \<and> c = taken @ rest \<and> (\<forall>(wait, r) \<in> set taken. wait \<le> 1 * second)"
proof (induction c acc rule: collect.induct)
  case (2 wait r c acc)
  consider (late) "1 * second < wait" | (full) "\<not> 1 * second < wait" "maxBatchSize \<le> length (acc @ [r])"
    | (more) "\<not> 1 * second < wait" "\<not> maxBatchSize \<le> length (acc @ [r])" by blast
  then show ?case
  proof cases
    case late
    with 2(2) show ?thesis by (intro exI [of _ "[]"]) auto
  next
    case full
    with 2(2) show ?thesis by (intro exI [of _ "[(wait, r)]"]) auto
  next
    case more
    then have "collect c (acc @ [r]) = (batch, rest)" using 2(2) by simp
    from 2(1) [OF more this] obtain taken where "batch = (acc @ [r]) @ map snd taken" "c = taken @ rest"
      "\<forall>(wait, r) \<in> set taken. wait \<le> 1 * second" by blast
    with more show ?thesis by (intro exI [of _ "(wait, r) # taken"]) auto
  qed
qed auto

lemma collect_length:
  "collect c acc = (batch, rest) \<Longrightarrow> length acc < maxBatchSize \<Longrightarrow> length batch \<le> maxBatchSize"
  by (induction c acc rule: collect.induct) (auto split: if_splits)

lemma collect_stops:
  "collect c acc = (batch, rest) \<Longrightarrow> length acc < maxBatchSize \<Longrightarrow>
     length batch = maxBatchSize \<or> rest = [] \<or> 1 * second < fst (hd rest)"
  by (induction c acc rule: collect.induct) (auto split: if_splits)


section \<open>Every request is answered once\<close>

lemma build_loop_answers:
  "build_loop i reqs built res bes out = Some (built', res', bes', out') \<Longrightarrow>
     mset (built' @ map fst out') = mset reqs + mset (built @ map fst out)"
proof (induction i reqs built res bes out rule: build_loop.induct)
  case (2 i req reqs built res bes out)
  show ?case
  proof (cases "req_resource req")
    case (RAddress a)
    show ?thesis
    proof (cases "active_in i (ma_Namespace a) = []")
      case True
      with 2 RAddress show ?thesis by simp
    next
      case False
      then obtain err res1 bes1 where b: "build_address i a (active_in i (ma_Namespace a)) res bes = Some (err, res1, bes1)"
        using "2.prems" RAddress by (auto split: option.splits)
      show ?thesis using 2 RAddress False b by (cases err) simp_all
    qed
  qed (use 2 in simp_all)
qed simp

lemma buildEntities_answers:
  "buildEntities i reqs = Some (built, res, bes, failed) \<Longrightarrow> mset (built @ map fst failed) = mset reqs"
  unfolding buildEntities_def by (drule build_loop_answers) simp

lemma mset_filter_split: "mset (filter P xs) + mset (filter (\<lambda>x. \<not> P x) xs) = mset xs"
  by (induction xs) auto

text \<open>The runs of the two batches once the client is initialized.\<close>

lemma doSync_run:
  assumes "doSync sched toSync i w = Some ((out, i'), w')" "toSync \<noteq> []" "ic_initialized i"
  obtains built res bes failed err i1
  where "buildEntities i (filter (sync_valid i) toSync) = Some (built, res, bes, failed)"
    "syncEntities sched res bes i w = Some ((err, i1), w')"
    "out = sync_refused i toSync @ failed @ map (\<lambda>req. (req, err)) built"
    "i' = (if err = None then fold (\<lambda>req. store_resource (req_resource req)) built i1 else i1)"
  using assms by (auto simp: doSync_def Let_def prog_simps)

lemma doDelete_run:
  assumes "doDelete sched toDelete i w = Some ((out, i'), w')" "toDelete \<noteq> []" "ic_initialized i"
  obtains built res bes failed err i1 fin
  where "buildEntities i (filter (delete_valid i) toDelete) = Some (built, res, bes, failed)"
    "deleteEntities sched res bes i w = Some ((err, i1), w')"
    "out = delete_refused i toDelete @ failed @ fin"
    "(fin, i') = (if err = None then remove_all built i1 else (map (\<lambda>req. (req, err)) built, i1))"
proof -
  obtain built res bes failed where b: "buildEntities i (filter (delete_valid i) toDelete) = Some (built, res, bes, failed)"
    using assms by (auto simp: doDelete_def Let_def prog_simps)
  obtain err i1 w1 where d: "deleteEntities sched res bes i w = Some ((err, i1), w1)"
    using assms b by (auto simp: doDelete_def Let_def prog_simps)
  obtain fin i2 where f: "(if err = None then remove_all built i1 else (map (\<lambda>req. (req, err)) built, i1)) = (fin, i2)"
    by fastforce
  have "out = delete_refused i toDelete @ failed @ fin \<and> i' = i2 \<and> w' = w1"
    using assms b d f
    by (auto simp: doDelete_def Let_def prog_simps split: if_splits prod.splits)
  with b d f show ?thesis by (metis that)
qed

lemma fst_pairs [simp]: "map (fst \<circ> (\<lambda>x. (x, f x))) xs = xs" "map (req_id \<circ> (fst \<circ> (\<lambda>x. (x, f x)))) xs = map req_id xs"
  by (simp_all add: comp_def)

text \<open>C24 (liveness): every request of a batch that \<open>doSync\<close> works on is answered exactly once, whatever the
  outcome, so that no caller waits forever and no answer blocks on its channel.\<close>

theorem doSync_answers:
  assumes "doSync sched toSync i w = Some ((out, i'), w')"
  shows "mset (map fst out) = mset toSync"
proof (cases "toSync = [] \<or> \<not> ic_initialized i")
  case True
  then have "out = map (\<lambda>req. (req, Some NotInitializedError)) toSync"
    using assms by (auto simp: doSync_def split: if_splits)
  then show ?thesis by (simp add: comp_def del: mset_map)
next
  case False
  then obtain built res bes failed err where
    b: "buildEntities i (filter (sync_valid i) toSync) = Some (built, res, bes, failed)"
    and out: "out = sync_refused i toSync @ failed @ map (\<lambda>req. (req, err)) built"
    using doSync_run [OF assms] by metis
  have "map fst out = filter (\<lambda>req. \<not> sync_valid i req) toSync @ map fst failed @ built"
    unfolding out by (simp add: sync_refused_def)
  then have "mset (map fst out) = mset (filter (\<lambda>req. \<not> sync_valid i req) toSync) + mset (built @ map fst failed)"
    by (simp del: mset_map)
  then show ?thesis
    unfolding buildEntities_answers [OF b] using mset_filter_split [of "sync_valid i" toSync] by simp
qed

lemma remove_all_ids: "map (req_id \<circ> fst) (fst (remove_all reqs i)) = map req_id reqs"
proof (induction reqs arbitrary: i)
  case (Cons req reqs)
  obtain r i1 where r: "remove_resource (req_resource req) i = (r, i1)"
    by (cases "remove_resource (req_resource req) i")
  obtain out i2 where out: "remove_all reqs i1 = (out, i2)" by (cases "remove_all reqs i1")
  show ?case using Cons.IH [of i1] r out by (simp add: comp_def)
qed simp

text \<open>Every request of a batch that \<open>doDelete\<close> works on is answered exactly once.\<close>

theorem doDelete_answers:
  assumes "doDelete sched toDelete i w = Some ((out, i'), w')"
  shows "mset (map (req_id \<circ> fst) out) = mset (map req_id toDelete)"
proof (cases "toDelete = [] \<or> \<not> ic_initialized i")
  case True
  then have "out = map (\<lambda>req. (req, Some NotInitializedError)) toDelete"
    using assms by (auto simp: doDelete_def split: if_splits)
  then show ?thesis by (simp add: comp_def del: mset_map)
next
  case False
  then obtain built res bes failed err i1 fin where
    b: "buildEntities i (filter (delete_valid i) toDelete) = Some (built, res, bes, failed)"
    and out: "out = delete_refused i toDelete @ failed @ fin"
    and fin: "(fin, i') = (if err = None then remove_all built i1 else (map (\<lambda>req. (req, err)) built, i1))"
    using doDelete_run [OF assms] by metis
  have "map (req_id \<circ> fst) fin = map req_id built"
    using fin remove_all_ids [of built i1] by (cases "err = None") (metis fst_conv, simp)
  then have "map (req_id \<circ> fst) out =
      map req_id (filter (\<lambda>req. \<not> delete_valid i req) toDelete @ map fst failed @ built)"
    unfolding out by (simp add: delete_refused_def comp_def)
  then have "mset (map (req_id \<circ> fst) out) =
      image_mset req_id (mset (filter (\<lambda>req. \<not> delete_valid i req) toDelete) + mset (built @ map fst failed))"
    by (metis add.commute mset_append mset_map)
  also have "\<dots> = image_mset req_id (mset toDelete)"
    unfolding buildEntities_answers [OF b] using mset_filter_split [of "delete_valid i" toDelete]
    by (metis add.commute)
  finally show ?thesis by simp
qed

end
