(* ===== verification/Infra_Batch.thy ===== *)
theory Infra_Batch
  imports Infra_Sync
begin

text \<open>
  What the batches of \<open>doSync\<close> and \<open>doDelete\<close> achieve: a request that is answered without an error
  has all its entities on all nodes, and the resources that the client remembers keep their
  invariant. The one way in which a batch can crash the program is characterized exactly.
\<close>

section \<open>Entities are collected\<close>

definition covers :: "broker_entities \<Rightarrow> broker_entities \<Rightarrow> bool" where
  "covers m m' \<longleftrightarrow> (\<forall>h. set (entities_for m h) \<subseteq> set (entities_for m' h))"

lemma covers_refl: "covers m m"
  by (simp add: covers_def)

lemma covers_trans: "covers a b \<Longrightarrow> covers b c \<Longrightarrow> covers a c"
  unfolding covers_def by blast

lemma entities_for_add:
  "entities_for (add_entities h es m) h' = entities_for m h' @ (if h' = h then es else [])"
  by (simp add: entities_for_def map_of_add_entities)

lemma merge_Cons: "merge_entities (x # r) m = merge_entities r (add_entities (fst x) (snd x) m)"
  by (simp add: merge_entities_def split_beta)

lemma entities_for_merge:
  "set (entities_for (merge_entities r m) h) = set (entities_for m h) \<union> (\<Union>(h', es) \<in> set r. if h' = h then set es else {})"
proof (induction r arbitrary: m)
  case Nil
  then show ?case by (simp add: merge_entities_def)
next
  case (Cons x r)
  show ?case unfolding merge_Cons Cons.IH by (auto simp: entities_for_add split_beta)
qed

lemma covers_merge: "covers m (merge_entities r m)" "covers r (merge_entities r m)"
proof -
  show "covers m (merge_entities r m)" unfolding covers_def entities_for_merge by blast
  have "set (entities_for r h) \<subseteq> (\<Union>(h', es) \<in> set r. if h' = h then set es else {})" for h
  proof (cases "map_of r h")
    case None
    then show ?thesis by (simp add: entities_for_def)
  next
    case (Some l)
    from map_of_SomeD [OF this] Some show ?thesis by (auto simp: entities_for_def)
  qed
  then show "covers r (merge_entities r m)" unfolding covers_def entities_for_merge by blast
qed

text \<open>The entities of an address for one endpoint are among the collected ones.\<close>

definition address_in ::
  "'w infraClient \<Rightarrow> MessagingAddress \<Rightarrow> RouterEntity list \<Rightarrow> broker_entities \<Rightarrow> MessagingEndpoint \<Rightarrow> bool" where
  "address_in i a res bes ep \<longleftrightarrow>
     (\<exists>rs bs. buildRouterAddressEntities i ep a = Some (Inr rs) \<and> buildBrokerAddressEntities i ep a = Inr bs \<and>
       set rs \<subseteq> set res \<and> covers bs bes)"

lemma address_in_mono:
  "address_in i a res bes ep \<Longrightarrow> set res \<subseteq> set res' \<Longrightarrow> covers bes bes' \<Longrightarrow> address_in i a res' bes' ep"
  unfolding address_in_def using covers_trans by blast

lemma build_address_collects:
  "build_address i a eps res bes = Some (err, res', bes') \<Longrightarrow>
     set res \<subseteq> set res' \<and> covers bes bes' \<and> (err = None \<longrightarrow> (\<forall>ep \<in> set eps. address_in i a res' bes' ep))"
proof (induction eps arbitrary: res bes)
  case Nil
  then show ?case by (simp add: covers_refl)
next
  case (Cons ep eps)
  show ?case
  proof (cases "\<exists>rs bs. buildRouterAddressEntities i ep a = Some (Inr rs) \<and> buildBrokerAddressEntities i ep a = Inr bs")
    case False
    then show ?thesis using Cons.prems covers_refl by (auto split: option.splits sum.splits)
  next
    case True
    then obtain rs bs where b: "buildRouterAddressEntities i ep a = Some (Inr rs)" "buildBrokerAddressEntities i ep a = Inr bs"
      by blast
    have "build_address i a eps (res @ rs) (merge_entities bs bes) = Some (err, res', bes')" using Cons.prems b by simp
    from Cons.IH [OF this] have IH: "set (res @ rs) \<subseteq> set res'" "covers (merge_entities bs bes) bes'"
      "err = None \<longrightarrow> (\<forall>ep \<in> set eps. address_in i a res' bes' ep)" by simp_all
    have "covers bes bes'" "covers bs bes'" using IH(2) covers_merge covers_trans by blast+
    moreover have "address_in i a res' bes' ep" unfolding address_in_def using b IH(1) \<open>covers bs bes'\<close> by simp
    ultimately show ?thesis using IH by simp
  qed
qed

definition collected :: "'w infraClient \<Rightarrow> RouterEntity list \<Rightarrow> broker_entities \<Rightarrow> resource \<Rightarrow> bool" where
  "collected i res bes r \<longleftrightarrow>
     (case r of
        RAddress a \<Rightarrow> active_in i (ma_Namespace a) \<noteq> [] \<and>
          (\<forall>ep \<in> set (active_in i (ma_Namespace a)). address_in i a res bes ep)
      | REndpoint e \<Rightarrow> set (buildRouterEndpointEntities e) \<subseteq> set res
      | RProject p \<Rightarrow> True
      | ROther n ns \<Rightarrow> False)"

lemma collected_mono:
  "collected i res bes r \<Longrightarrow> set res \<subseteq> set res' \<Longrightarrow> covers bes bes' \<Longrightarrow> collected i res' bes' r"
  unfolding collected_def by (cases r) (auto intro: address_in_mono)

lemma build_loop_collects:
  "build_loop i reqs built res bes out = Some (built', res', bes', out') \<Longrightarrow>
     \<forall>req \<in> set built. collected i res bes (req_resource req) \<Longrightarrow>
     (\<forall>req \<in> set built'. collected i res' bes' (req_resource req)) \<and> set built' \<subseteq> set built \<union> set reqs \<and>
     (\<forall>x \<in> set out'. x \<in> set out \<or> snd x \<noteq> None)"
proof (induction i reqs built res bes out rule: build_loop.induct)
  case (2 i req reqs built res bes out)
  show ?case
  proof (cases "req_resource req")
    case (RAddress a)
    show ?thesis
    proof (cases "active_in i (ma_Namespace a) = []")
      case True
      with "2.prems" "2.IH"(1) [OF RAddress True] RAddress show ?thesis by auto
    next
      case False
      then obtain err res1 bes1 where b: "build_address i a (active_in i (ma_Namespace a)) res bes = Some (err, res1, bes1)"
        using "2.prems"(1) RAddress by (auto split: option.splits)
      note c = build_address_collects [OF b]
      have old: "\<forall>req \<in> set built. collected i res1 bes1 (req_resource req)"
        using "2.prems"(2) c collected_mono by blast
      show ?thesis
      proof (cases err)
        case (Some e)
        then have "build_loop i reqs built res1 bes1 (out @ [(req, Some e)]) = Some (built', res', bes', out')"
          using "2.prems"(1) RAddress False b by simp
        from "2.IH"(3) [OF RAddress False b refl Some refl this old] show ?thesis by auto
      next
        case None
        then have "build_loop i reqs (built @ [req]) res1 bes1 out = Some (built', res', bes', out')"
          using "2.prems"(1) RAddress False b by simp
        moreover have "collected i res1 bes1 (req_resource req)"
          using c None False RAddress by (simp add: collected_def)
        moreover from this and old have "\<forall>r \<in> set (built @ [req]). collected i res1 bes1 (req_resource r)" by simp
        ultimately show ?thesis using "2.IH"(2) [OF RAddress False b refl None refl] by auto
      qed
    qed
  next
    case (REndpoint e)
    have "\<forall>r \<in> set (built @ [req]). collected i (res @ buildRouterEndpointEntities e) bes (req_resource r)"
      using "2.prems"(2) collected_mono [OF _ _ covers_refl, of i res bes _ "res @ buildRouterEndpointEntities e"]
      by (auto simp: REndpoint collected_def)
    with "2.prems"(1) "2.IH"(4) [OF REndpoint] REndpoint show ?thesis by auto
  next
    case (RProject p)
    have "\<forall>r \<in> set (built @ [req]). collected i (res @ buildRouterProjectEntities p) bes (req_resource r)"
      using "2.prems"(2) by (auto simp: RProject collected_def buildRouterProjectEntities_def)
    with "2.prems"(1) "2.IH"(5) [OF RProject] RProject show ?thesis by auto
  next
    case (ROther n ns)
    with "2.prems" "2.IH"(6) [OF ROther] show ?thesis by auto
  qed
qed simp

lemma buildEntities_collects:
  assumes "buildEntities i reqs = Some (built, res, bes, failed)"
  shows "\<forall>req \<in> set built. collected i res bes (req_resource req)" and "set built \<subseteq> set reqs"
    and "\<forall>x \<in> set failed. snd x \<noteq> None"
  using build_loop_collects [OF assms [unfolded buildEntities_def]] by simp_all

section \<open>When building crashes\<close>

text \<open>The entities of an address cannot be built when its project is not known but an endpoint is active.\<close>

definition crashes :: "'w infraClient \<Rightarrow> request \<Rightarrow> bool" where
  "crashes i req \<longleftrightarrow>
     (case req_resource req of
        RAddress a \<Rightarrow> active_in i (ma_Namespace a) \<noteq> [] \<and> map_of (ic_projects i) (default_key (ma_Namespace a)) = None
      | _ \<Rightarrow> False)"

lemma build_address_None:
  "\<forall>ep \<in> set eps. isEndpointActive ep \<Longrightarrow>
     build_address i a eps res bes = None \<longleftrightarrow> eps \<noteq> [] \<and> map_of (ic_projects i) (default_key (ma_Namespace a)) = None"
proof (induction eps arbitrary: res bes)
  case (Cons ep eps)
  show ?case
  proof (cases "map_of (ic_projects i) (default_key (ma_Namespace a)) = None")
    case True
    then have "buildRouterAddressEntities i ep a = None" using Cons.prems by (simp add: buildRouterAddressEntities_None)
    with True show ?thesis by simp
  next
    case False
    then have "buildRouterAddressEntities i ep a \<noteq> None" by (simp add: buildRouterAddressEntities_None)
    with False Cons show ?thesis by (auto split: option.splits sum.splits)
  qed
qed simp

lemma active_in_active: "\<forall>ep \<in> set (active_in i ns). isEndpointActive ep"
  by (simp add: active_in_def)

lemma build_loop_None:
  "build_loop i reqs built res bes out = None \<longleftrightarrow> (\<exists>req \<in> set reqs. crashes i req)"
proof (induction i reqs built res bes out rule: build_loop.induct)
  case (2 i req reqs built res bes out)
  show ?case
  proof (cases "req_resource req")
    case (RAddress a)
    show ?thesis
    proof (cases "active_in i (ma_Namespace a) = []")
      case True
      with 2 RAddress show ?thesis by (simp add: crashes_def)
    next
      case False
      note n = build_address_None [OF active_in_active [of i "ma_Namespace a"], of i a res bes]
      show ?thesis
      proof (cases "build_address i a (active_in i (ma_Namespace a)) res bes")
        case None
        with n False RAddress show ?thesis by (simp add: crashes_def)
      next
        case (Some x)
        obtain err res1 bes1 where x: "x = (err, res1, bes1)" by (cases x)
        have "\<not> crashes i req" using n Some False RAddress by (simp add: crashes_def)
        then show ?thesis using 2 RAddress False Some x by (cases err) simp_all
      qed
    qed
  qed (use 2 in \<open>simp_all add: crashes_def\<close>)
qed simp

lemma buildEntities_None: "buildEntities i reqs = None \<longleftrightarrow> (\<exists>req \<in> set reqs. crashes i req)"
  unfolding buildEntities_def by (rule build_loop_None)

lemma sync_valid_safe: "sync_valid i req \<Longrightarrow> \<not> crashes i req"
  by (auto simp: sync_valid_def needs_project_def crashes_def split: resource.splits)

section \<open>Applying the collected entities\<close>

text \<open>Every router has the given entities in its cache; every broker those of its host.\<close>

definition routers_have :: "RouterEntity list \<Rightarrow> 'w infraClient \<Rightarrow> bool" where
  "routers_have es i \<longleftrightarrow> (\<forall>(h, r) \<in> set (ic_routers i). \<forall>e \<in> set es. rs_lookup r e \<noteq> None)"

definition brokers_have :: "broker_entities \<Rightarrow> 'w infraClient \<Rightarrow> bool" where
  "brokers_have bes i \<longleftrightarrow> (\<forall>(h, b) \<in> set (ic_brokers i). broker_has (entities_for bes h) b)"

definition brokers_lack :: "broker_entities \<Rightarrow> 'w infraClient \<Rightarrow> bool" where
  "brokers_lack bes i \<longleftrightarrow> (\<forall>(h, b) \<in> set (ic_brokers i). broker_lacks (entities_for bes h) b)"

lemma routers_have_mono: "routers_have es i \<Longrightarrow> set es' \<subseteq> set es \<Longrightarrow> routers_have es' i"
  unfolding routers_have_def by blast

lemma brokers_have_mono: "brokers_have bes i \<Longrightarrow> covers bes' bes \<Longrightarrow> brokers_have bes' i"
  unfolding brokers_have_def covers_def broker_has_def by blast

lemma ensure_broker_op:
  fixes sched :: "'w sched"
  shows "node_post broker_good bs_host (ensure_broker sched bes) (\<lambda>b. broker_has (entities_for bes (bs_host b)) b)"
proof
  fix s :: "'w BrokerState" and w assume g: "broker_good s"
  show "\<exists>err s' w'. ensure_broker sched bes s w = Some ((err, s'), w')"
    using be_ensure.op_returns [OF g] by (simp add: ensure_broker_def)
  show "broker_good s' \<and> bs_host s' = bs_host s" if "ensure_broker sched bes s w = Some ((err, s'), w')" for err s' w'
    using that be_ensure.op_good [OF g] g by (auto simp: ensure_broker_def split: if_splits)
  show "broker_has (entities_for bes (bs_host s')) s'" if r: "ensure_broker sched bes s w = Some ((None, s'), w')" for s' w'
  proof (cases "entities_for bes (bs_host s) = []")
    case True
    then have "s' = s" using r by (simp add: ensure_broker_def)
    with True show ?thesis by (simp add: broker_has_def)
  next
    case False
    then have "BrokerState_EnsureEntities sched (entities_for bes (bs_host s)) s w = Some ((None, s'), w')"
      using r by (simp add: ensure_broker_def)
    from be_ensured.op_post [OF g this] be_ensure.op_good [OF g this] show ?thesis by simp
  qed
qed

lemma delete_broker_op:
  fixes sched :: "'w sched"
  shows "node_post broker_good bs_host (\<lambda>b. BrokerState_DeleteEntities sched (entities_for bes (bs_host b)) b)
     (\<lambda>b. broker_lacks (entities_for bes (bs_host b)) b)"
proof
  fix s :: "'w BrokerState" and w assume g: "broker_good s"
  show "\<exists>err s' w'. BrokerState_DeleteEntities sched (entities_for bes (bs_host s)) s w = Some ((err, s'), w')"
    by (rule be_delete.op_returns [OF g])
  show "broker_good s' \<and> bs_host s' = bs_host s"
    if "BrokerState_DeleteEntities sched (entities_for bes (bs_host s)) s w = Some ((err, s'), w')" for err s' w'
    by (rule be_delete.op_good [OF g that])
  show "broker_lacks (entities_for bes (bs_host s')) s'"
    if "BrokerState_DeleteEntities sched (entities_for bes (bs_host s)) s w = Some ((None, s'), w')" for s' w'
    using be_deleted.op_post [OF g that] be_delete.op_good [OF g that] by simp
qed

lemma broker_keys: "hosts_ok i \<Longrightarrow> (h, b) \<in> set (ic_brokers i) \<Longrightarrow> bs_host b = h"
  by (auto simp: hosts_ok_def nodes_ok_def)

lemma nodes_kept_ok: "nodes_kept i i' \<Longrightarrow> hosts_ok i'"
  by (simp add: nodes_kept_def)

lemma sync_brokers_ok:
  assumes "hosts_ok i"
  shows "\<exists>err i' w'. (if bes \<noteq> [] then applyBrokers sched (ensure_broker sched bes) i else ret (None, i)) w
      = Some ((err, i'), w') \<and> nodes_kept i i' \<and> (err = None \<longrightarrow> brokers_have bes i')"
proof (cases "bes = []")
  case True
  then show ?thesis using nodes_kept_refl [OF assms]
    by (auto simp: brokers_have_def entities_for_def broker_has_def)
next
  case False
  obtain err i' w' where 1: "applyBrokers sched (ensure_broker sched bes) i w = Some ((err, i'), w')" "nodes_kept i i'"
    using applyBrokers_kept [OF node_post.axioms(1) [OF ensure_broker_op] assms] by blast
  have "brokers_have bes i'" if none: "err = None"
    unfolding brokers_have_def
  proof (rule ballI, clarify)
    fix h b assume b: "(h, b) \<in> set (ic_brokers i')"
    from apply_brokers_post [OF ensure_broker_op assms 1(1) [unfolded none] b] broker_keys [OF nodes_kept_ok [OF 1(2)] b]
    show "broker_has (entities_for bes h) b" by simp
  qed
  with 1 False show ?thesis by auto
qed

lemma sync_routers_ok:
  assumes "hosts_ok i"
  shows "\<exists>err i' w'. (if es \<noteq> [] then applyRouters sched (RouterState_EnsureEntities sched es) i else ret (None, i)) w
      = Some ((err, i'), w') \<and> nodes_kept i i' \<and> ic_brokers i' = ic_brokers i \<and> (err = None \<longrightarrow> routers_have es i')"
proof (cases "es = []")
  case True
  then show ?thesis using nodes_kept_refl [OF assms] by (auto simp: routers_have_def)
next
  case False
  obtain err i' w' where 1: "applyRouters sched (RouterState_EnsureEntities sched es) i w = Some ((err, i'), w')"
    "nodes_kept i i'" "ic_brokers i' = ic_brokers i"
    using applyRouters_kept [OF node_post.axioms(1) [OF re_ensured.node_post_axioms] assms] by blast
  have "routers_have es i'" if none: "err = None"
  proof -
    have "\<forall>e \<in> set es. rs_lookup r e \<noteq> None" if r: "(h, r) \<in> set (ic_routers i')" for h r
      using apply_routers_post [OF re_ensured.node_post_axioms assms 1(1) [unfolded none] r]
      unfolding router_has_def by blast
    then show ?thesis unfolding routers_have_def by blast
  qed
  with 1 False show ?thesis by auto
qed

lemma brokers_have_cong: "ic_brokers i' = ic_brokers i \<Longrightarrow> brokers_have bes i' = brokers_have bes i"
  by (simp add: brokers_have_def)

lemma syncEntities_ok:
  assumes "hosts_ok i"
  shows "\<exists>err i' w'. syncEntities sched res bes i w = Some ((err, i'), w') \<and> nodes_kept i i' \<and>
    (err = None \<longrightarrow> routers_have res i' \<and> brokers_have bes i')"
proof -
  obtain err1 i1 w1 where 1: "(if bes \<noteq> [] then applyBrokers sched (ensure_broker sched bes) i else ret (None, i)) w
      = Some ((err1, i1), w1)" "nodes_kept i i1" "err1 = None \<longrightarrow> brokers_have bes i1"
    using sync_brokers_ok [OF assms] by blast
  obtain err2 i2 w2 where 2: "(if res \<noteq> [] then applyRouters sched (RouterState_EnsureEntities sched res) i1 else ret (None, i1)) w1
      = Some ((err2, i2), w2)" "nodes_kept i1 i2" "ic_brokers i2 = ic_brokers i1" "err2 = None \<longrightarrow> routers_have res i2"
    using sync_routers_ok [OF nodes_kept_ok [OF 1(2)]] by blast
  show ?thesis
  proof (cases err1)
    case None
    have "syncEntities sched res bes i w = Some ((err2, i2), w2)"
      unfolding syncEntities_def bindp_def 1(1) using None 2(1) by simp
    with 1 2 None nodes_kept_trans [OF 1(2) 2(2)] show ?thesis by (simp add: brokers_have_cong [OF 2(3)])
  next
    case (Some e)
    then have "syncEntities sched res bes i w = Some ((err1, i1), w1)"
      unfolding syncEntities_def bindp_def 1(1) by simp
    with 1(2) Some show ?thesis by simp
  qed
qed

lemma deleteEntities_ok:
  assumes "hosts_ok i"
  shows "\<exists>err i' w'. deleteEntities sched res bes i w = Some ((err, i'), w') \<and> nodes_kept i i' \<and>
    (err = None \<longrightarrow> brokers_lack bes i')"
proof -
  obtain err1 i1 w1 where 1: "applyRouters sched (RouterState_DeleteEntities sched res) i w = Some ((err1, i1), w1)"
    "nodes_kept i i1"
    using applyRouters_kept [OF re_delete.node_op_axioms assms] by blast
  let ?op = "\<lambda>b. BrokerState_DeleteEntities sched (entities_for bes (bs_host b)) b"
  obtain err2 i2 w2 where 2: "applyBrokers sched ?op i1 w1 = Some ((err2, i2), w2)" "nodes_kept i1 i2"
    using applyBrokers_kept [OF node_post.axioms(1) [OF delete_broker_op] nodes_kept_ok [OF 1(2)]] by blast
  have lack: "brokers_lack bes i2" if none: "err2 = None"
    unfolding brokers_lack_def
  proof (rule ballI, clarify)
    fix h b assume b: "(h, b) \<in> set (ic_brokers i2)"
    from apply_brokers_post [OF delete_broker_op nodes_kept_ok [OF 1(2)] 2(1) [unfolded none] b]
      broker_keys [OF nodes_kept_ok [OF 2(2)] b]
    show "broker_lacks (entities_for bes h) b" by simp
  qed
  show ?thesis
  proof (cases err1)
    case None
    have "deleteEntities sched res bes i w = Some ((err2, i2), w2)"
      unfolding deleteEntities_def bindp_def 1(1) using None 2(1) by simp
    with lack nodes_kept_trans [OF 1(2) 2(2)] show ?thesis by blast
  next
    case (Some e)
    then have "deleteEntities sched res bes i w = Some ((err1, i1), w1)"
      unfolding deleteEntities_def bindp_def 1(1) by simp
    with 1(2) Some show ?thesis by simp
  qed
qed

end
