(* ===== verification/Infra_Known.thy ===== *)
theory Infra_Known
  imports Infra_Batch
begin

text \<open>
  The resources that the client remembers. They are stored after a successful synchronization and
  forgotten after a successful deletion; every remembered address keeps a remembered project, which
  is what the translation of addresses relies on.
\<close>

section \<open>The invariant\<close>

definition has_project :: "'w infraClient \<Rightarrow> string \<Rightarrow> bool" where
  "has_project i ns \<longleftrightarrow> map_of (ic_projects i) (default_key ns) \<noteq> None"

definition resources_ok :: "'w infraClient \<Rightarrow> bool" where
  "resources_ok i \<longleftrightarrow> gm_ok (ic_addresses i) \<and> gm_ok (ic_endpoints i) \<and> gm_ok (ic_projects i) \<and>
     (\<forall>k a. map_of (ic_addresses i) k = Some a \<longrightarrow> k = key_of (RAddress a) \<and> has_project i (ma_Namespace a))"

fun known :: "resource \<Rightarrow> 'w infraClient \<Rightarrow> bool" where
  "known (RAddress a) i \<longleftrightarrow> map_of (ic_addresses i) (key_of (RAddress a)) \<noteq> None"
| "known (REndpoint e) i \<longleftrightarrow> map_of (ic_endpoints i) (key_of (REndpoint e)) \<noteq> None"
| "known (RProject p) i \<longleftrightarrow> map_of (ic_projects i) (key_of (RProject p)) \<noteq> None"
| "known (ROther n ns) i \<longleftrightarrow> False"

definition same_resources :: "'w infraClient \<Rightarrow> 'w infraClient \<Rightarrow> bool" where
  "same_resources i i' \<longleftrightarrow> ic_addresses i' = ic_addresses i \<and> ic_endpoints i' = ic_endpoints i \<and>
     ic_projects i' = ic_projects i"

lemma same_resources_refl [simp]: "same_resources i i"
  by (simp add: same_resources_def)

lemma nodes_kept_resources: "nodes_kept i i' \<Longrightarrow> same_resources i i'"
  by (simp add: nodes_kept_def same_resources_def same_restD)

lemma same_resources_ok: "same_resources i i' \<Longrightarrow> resources_ok i' = resources_ok i"
  by (simp add: same_resources_def resources_ok_def has_project_def)

lemma same_resources_project: "same_resources i i' \<Longrightarrow> has_project i' ns = has_project i ns"
  by (simp add: same_resources_def has_project_def)

definition same_factories :: "'w infraClient \<Rightarrow> 'w infraClient \<Rightarrow> bool" where
  "same_factories i i' \<longleftrightarrow> ic_routerStateFactory i' = ic_routerStateFactory i \<and>
     ic_brokerStateFactory i' = ic_brokerStateFactory i"

lemma same_factories_ok: "same_factories i i' \<Longrightarrow> factories_ok i' = factories_ok i"
  by (simp add: same_factories_def factories_ok_def)

lemma nodes_kept_factories: "nodes_kept i i' \<Longrightarrow> same_factories i i'"
  by (simp add: nodes_kept_def same_factories_def same_restD)

lemma sync_valid_project: "sync_valid i req \<Longrightarrow> req_resource req = RAddress a \<Longrightarrow> has_project i (ma_Namespace a)"
  by (simp add: sync_valid_def needs_project_def has_project_def)

section \<open>Storing\<close>

lemma store_frame:
  "hosts_ok (store_resource r i) = hosts_ok i" "ic_routers (store_resource r i) = ic_routers i"
  "ic_brokers (store_resource r i) = ic_brokers i" "ic_initialized (store_resource r i) = ic_initialized i"
  by (cases r; simp add: hosts_ok_def)+

lemma store_project: "has_project i ns \<Longrightarrow> has_project (store_resource r i) ns"
  by (cases r) (simp_all add: has_project_def)

lemma store_ok:
  assumes "resources_ok i" and "\<And>a. r = RAddress a \<Longrightarrow> has_project i (ma_Namespace a)"
  shows "resources_ok (store_resource r i)"
  using assms by (cases r) (auto simp: resources_ok_def has_project_def)

lemma store_known: "known r' i \<Longrightarrow> known r' (store_resource r i)"
  by (cases r'; cases r) simp_all

lemma store_self: "r \<noteq> ROther (GetName r) (GetNamespace r) \<Longrightarrow> known r (store_resource r i)"
  by (cases r) simp_all

lemma store_all_ok:
  "resources_ok i \<Longrightarrow> \<forall>req \<in> set reqs. \<forall>a. req_resource req = RAddress a \<longrightarrow> has_project i (ma_Namespace a) \<Longrightarrow>
     resources_ok (fold (\<lambda>req. store_resource (req_resource req)) reqs i)"
proof (induction reqs arbitrary: i)
  case (Cons req reqs)
  have "resources_ok (store_resource (req_resource req) i)" using Cons.prems by (intro store_ok) simp_all
  with Cons.IH Cons.prems(2) store_project show ?case by fastforce
qed simp

lemma store_all_frame:
  "hosts_ok (fold (\<lambda>req. store_resource (req_resource req)) reqs i) = hosts_ok i \<and>
   ic_routers (fold (\<lambda>req. store_resource (req_resource req)) reqs i) = ic_routers i \<and>
   ic_brokers (fold (\<lambda>req. store_resource (req_resource req)) reqs i) = ic_brokers i \<and>
   ic_initialized (fold (\<lambda>req. store_resource (req_resource req)) reqs i) = ic_initialized i"
  by (induction reqs arbitrary: i) (simp_all add: store_frame)

lemma store_all_keeps: "known r i \<Longrightarrow> known r (fold (\<lambda>req. store_resource (req_resource req)) reqs i)"
  by (induction reqs arbitrary: i) (simp_all add: store_known)

lemma store_all_known:
  "req \<in> set reqs \<Longrightarrow> req_resource req \<noteq> ROther (GetName (req_resource req)) (GetNamespace (req_resource req)) \<Longrightarrow>
     known (req_resource req) (fold (\<lambda>req. store_resource (req_resource req)) reqs i)"
  by (induction reqs arbitrary: i) (auto intro: store_all_keeps store_self)

lemma store_all_factories: "same_factories i (fold (\<lambda>req. store_resource (req_resource req)) reqs i)"
proof (induction reqs arbitrary: i)
  case (Cons req reqs)
  have "same_factories i (store_resource (req_resource req) i)"
    by (cases "req_resource req") (simp_all add: same_factories_def)
  with Cons [of "store_resource (req_resource req) i"] show ?case by (simp add: same_factories_def)
qed (simp add: same_factories_def)

section \<open>A synchronized batch\<close>

text \<open>
  The nodes of \<open>i'\<close> have everything that the resource needs according to the client \<open>i\<close>: the
  entities for every active endpoint of its namespace, or its listeners.
\<close>

definition configured :: "'w infraClient \<Rightarrow> 'w infraClient \<Rightarrow> resource \<Rightarrow> bool" where
  "configured i i' r \<longleftrightarrow>
     (case r of
        RAddress a \<Rightarrow> active_in i (ma_Namespace a) \<noteq> [] \<and>
          (\<forall>ep \<in> set (active_in i (ma_Namespace a)). \<exists>res bes.
             buildRouterAddressEntities i ep a = Some (Inr res) \<and> buildBrokerAddressEntities i ep a = Inr bes \<and>
             routers_have res i' \<and> brokers_have bes i')
      | REndpoint e \<Rightarrow> routers_have (buildRouterEndpointEntities e) i'
      | RProject p \<Rightarrow> True
      | ROther n ns \<Rightarrow> False)"

lemma collected_configured:
  assumes "collected i res bes r" and "routers_have res i'" and "brokers_have bes i'"
  shows "configured i i' r"
proof (cases r)
  case (RAddress a)
  have "\<exists>rs bs. buildRouterAddressEntities i ep a = Some (Inr rs) \<and> buildBrokerAddressEntities i ep a = Inr bs \<and>
      routers_have rs i' \<and> brokers_have bs i'" if ep: "ep \<in> set (active_in i (ma_Namespace a))" for ep
  proof -
    have "address_in i a res bes ep" using assms(1) ep RAddress by (simp add: collected_def)
    then show ?thesis
      unfolding address_in_def using routers_have_mono [OF assms(2)] brokers_have_mono [OF assms(3)] by blast
  qed
  with assms(1) RAddress show ?thesis by (simp add: configured_def collected_def)
next
  case (REndpoint e)
  with assms(1) routers_have_mono [OF assms(2)] show ?thesis by (simp add: configured_def collected_def)
qed (use assms(1) in \<open>simp_all add: configured_def collected_def\<close>)

lemma configured_cong:
  "ic_routers i'' = ic_routers i' \<Longrightarrow> ic_brokers i'' = ic_brokers i' \<Longrightarrow> configured i i'' r = configured i i' r"
  by (simp add: configured_def routers_have_def brokers_have_def split: resource.splits)

lemma collected_kind: "collected i res bes r \<Longrightarrow> r \<noteq> ROther (GetName r) (GetNamespace r)"
  by (cases r) (simp_all add: collected_def)

text \<open>The part of a batch after the client has been found to be initialized.\<close>

lemma doSync_returns:
  assumes "hosts_ok i" and "toSync \<noteq> []" and "ic_initialized i"
  shows "\<exists>built res bes failed err i1 w1.
    buildEntities i (filter (sync_valid i) toSync) = Some (built, res, bes, failed) \<and>
    syncEntities sched res bes i w = Some ((err, i1), w1) \<and> nodes_kept i i1 \<and>
    (err = None \<longrightarrow> routers_have res i1 \<and> brokers_have bes i1) \<and>
    doSync sched toSync i w = Some ((sync_refused i toSync @ failed @ map (\<lambda>req. (req, err)) built,
      if err = None then fold (\<lambda>req. store_resource (req_resource req)) built i1 else i1), w1)"
proof -
  have "\<not> (\<exists>req \<in> set (filter (sync_valid i) toSync). crashes i req)" using sync_valid_safe by auto
  then have "buildEntities i (filter (sync_valid i) toSync) \<noteq> None" unfolding buildEntities_None .
  then obtain built res bes failed where b: "buildEntities i (filter (sync_valid i) toSync) = Some (built, res, bes, failed)"
    by auto
  obtain err i1 w1 where s: "syncEntities sched res bes i w = Some ((err, i1), w1)" "nodes_kept i i1"
    "err = None \<longrightarrow> routers_have res i1 \<and> brokers_have bes i1"
    using syncEntities_ok [OF assms(1)] by blast
  have "doSync sched toSync i w = Some ((sync_refused i toSync @ failed @ map (\<lambda>req. (req, err)) built,
      if err = None then fold (\<lambda>req. store_resource (req_resource req)) built i1 else i1), w1)"
    using assms(2,3) b s(1) by (simp add: doSync_def Let_def bindp_def liftO_def)
  with b s show ?thesis by blast
qed

lemma refused_errors: "x \<in> set (sync_refused i toSync) \<Longrightarrow> snd x \<noteq> None" "x \<in> set (delete_refused i toDelete) \<Longrightarrow> snd x \<noteq> None"
  by (auto simp: sync_refused_def delete_refused_def)

lemma doSync_ok:
  assumes "hosts_ok i" and "resources_ok i"
  shows "\<exists>out i' w'. doSync sched toSync i w = Some ((out, i'), w') \<and> hosts_ok i' \<and> resources_ok i' \<and> same_factories i i' \<and>
    (\<forall>(req, err) \<in> set out. err = None \<longrightarrow> configured i i' (req_resource req) \<and> known (req_resource req) i') \<and>
    ((\<forall>(req, err) \<in> set out. err \<noteq> None) \<longrightarrow> same_resources i i')"
proof (cases "toSync = [] \<or> \<not> ic_initialized i")
  case True
  with assms show ?thesis by (auto simp: doSync_def same_factories_def)
next
  case False
  then obtain built res bes failed err i1 w1 where
    b: "buildEntities i (filter (sync_valid i) toSync) = Some (built, res, bes, failed)" and kept: "nodes_kept i i1" and
    have_es: "err = None \<longrightarrow> routers_have res i1 \<and> brokers_have bes i1" and
    run: "doSync sched toSync i w = Some ((sync_refused i toSync @ failed @ map (\<lambda>req. (req, err)) built,
      if err = None then fold (\<lambda>req. store_resource (req_resource req)) built i1 else i1), w1)"
    using doSync_returns [OF assms(1), of toSync sched w] by blast
  let ?out = "sync_refused i toSync @ failed @ map (\<lambda>req. (req, err)) built"
  let ?i' = "if err = None then fold (\<lambda>req. store_resource (req_resource req)) built i1 else i1"
  note c = buildEntities_collects [OF b]
  have res1: "resources_ok i1" using same_resources_ok [OF nodes_kept_resources [OF kept]] assms(2) by simp
  have proj: "\<forall>req \<in> set built. \<forall>a. req_resource req = RAddress a \<longrightarrow> has_project i1 (ma_Namespace a)"
    using c(2) sync_valid_project same_resources_project [OF nodes_kept_resources [OF kept]] by fastforce
  have fac: "same_factories i ?i'"
    using nodes_kept_factories [OF kept] store_all_factories [of i1 built] by (simp add: same_factories_def)
  have ok: "hosts_ok ?i'" "resources_ok ?i'"
    using nodes_kept_ok [OF kept] store_all_frame [of built i1] store_all_ok [OF res1 proj] res1 by auto
  have succ: "err = None \<and> req \<in> set built" if "(req, None) \<in> set ?out" for req
    using that refused_errors(1) [of "(req, None)" i toSync] c(3) by auto
  have good: "configured i ?i' (req_resource req) \<and> known (req_resource req) ?i'" if "(req, None) \<in> set ?out" for req
  proof -
    have s: "err = None" "req \<in> set built" using succ [OF that] by simp_all
    have "configured i i1 (req_resource req)"
      using collected_configured c(1) s have_es by blast
    then have "configured i ?i' (req_resource req)"
      using s(1) configured_cong [of ?i' i1 i "req_resource req"] store_all_frame [of built i1] by simp
    moreover have "collected i res bes (req_resource req)" using c(1) s(2) by blast
    from store_all_known [OF s(2) collected_kind [OF this]] have "known (req_resource req) ?i'" using s(1) by simp
    ultimately show ?thesis by blast
  qed
  have "same_resources i ?i'" if "\<forall>(req, e) \<in> set ?out. e \<noteq> None"
  proof (cases "err = None")
    case True
    then have "built = []" using that by (cases built) auto
    with True nodes_kept_resources [OF kept] show ?thesis by simp
  qed (use nodes_kept_resources [OF kept] in auto)
  with run ok fac good show ?thesis by blast
qed

text \<open>C3 (functional): a batch of synchronization requests never panics and keeps the invariants of the
  client. A request that is answered without an error is completely configured: every router holds the
  entities of its endpoint or of its address for every active endpoint, every broker holds the entities
  of the address that belong to it, and the resource is remembered. When no request succeeds, nothing
  is remembered that was not known before.\<close>

theorem doSync_spec:
  assumes "hosts_ok i" and "resources_ok i"
  shows "\<exists>out i' w'. doSync sched toSync i w = Some ((out, i'), w') \<and> hosts_ok i' \<and> resources_ok i' \<and>
    (\<forall>(req, err) \<in> set out. err = None \<longrightarrow> configured i i' (req_resource req) \<and> known (req_resource req) i') \<and>
    ((\<forall>(req, err) \<in> set out. err \<noteq> None) \<longrightarrow> same_resources i i')"
  using doSync_ok [OF assms, of sched toSync w] by (elim exE conjE) (intro exI conjI, assumption+)

section \<open>A deleted batch\<close>

lemma remove_frame:
  assumes "remove_resource r i = (r', i')"
  shows "hosts_ok i' = hosts_ok i" and "ic_initialized i' = ic_initialized i"
    and "ic_brokers i' = ic_brokers i" and "ic_routers i' = ic_routers i"
    and "\<not> known r' i'"
  using assms by (cases r; auto simp: freePortsInternal_def hosts_ok_def key_of_def split: if_splits)+

lemma known_removed:
  assumes "remove_resource r i = (r', i')" and "known s i'"
  shows "known s i"
proof -
  have "(map_of (ic_addresses i') k \<noteq> None \<longrightarrow> map_of (ic_addresses i) k \<noteq> None) \<and>
      (map_of (ic_endpoints i') k \<noteq> None \<longrightarrow> map_of (ic_endpoints i) k \<noteq> None) \<and>
      (map_of (ic_projects i') k \<noteq> None \<longrightarrow> map_of (ic_projects i) k \<noteq> None)" for k
    using assms(1) by (cases r) (auto simp: freePortsInternal_def split: if_splits)
  with assms(2) show ?thesis by (cases s) (metis known.simps)+
qed

lemma remove_maps:
  assumes "remove_resource r i = (r', i')"
  shows "map_of (ic_addresses i') = (case r of RAddress a \<Rightarrow> (map_of (ic_addresses i))(key_of r := None) | _ \<Rightarrow> map_of (ic_addresses i))"
    and "map_of (ic_projects i') = (case r of RProject p \<Rightarrow> (map_of (ic_projects i))(key_of r := None) | _ \<Rightarrow> map_of (ic_projects i))"
    and "gm_ok (ic_addresses i) \<Longrightarrow> gm_ok (ic_addresses i')" and "gm_ok (ic_endpoints i) \<Longrightarrow> gm_ok (ic_endpoints i')"
    and "gm_ok (ic_projects i) \<Longrightarrow> gm_ok (ic_projects i')"
  using assms by (cases r; auto simp: freePortsInternal_def split: if_splits)+

text \<open>No remembered address is in the namespace of a project that is removed.\<close>

definition unused_projects :: "'w infraClient \<Rightarrow> request list \<Rightarrow> bool" where
  "unused_projects i reqs \<longleftrightarrow>
     (\<forall>req \<in> set reqs. \<forall>p. req_resource req = RProject p \<longrightarrow>
        (\<forall>k a. map_of (ic_addresses i) k = Some a \<longrightarrow> rk_Namespace k \<noteq> mp_Namespace p))"

lemma remove_ok:
  assumes "remove_resource (req_resource req) i = (r', i')" and "resources_ok i" and "unused_projects i (req # reqs)"
  shows "resources_ok i' \<and> unused_projects i' reqs"
proof -
  note m = remove_maps [OF assms(1)]
  have sub: "map_of (ic_addresses i) k = Some a" if "map_of (ic_addresses i') k = Some a" for k a
    using that unfolding m(1) by (auto split: resource.splits if_splits)
  have proj: "has_project i' (ma_Namespace a)" if a': "map_of (ic_addresses i') k = Some a" for k a
  proof -
    note a = sub [OF a']
    have k: "k = key_of (RAddress a)" "has_project i (ma_Namespace a)" using assms(2) a by (auto simp: resources_ok_def)
    show ?thesis
    proof (cases "req_resource req")
      case (RProject p)
      have "mp_Namespace p \<noteq> ma_Namespace a"
        using assms(3) RProject a k(1) by (auto simp: unused_projects_def key_of_def)
      then show ?thesis
        using k(2) RProject unfolding has_project_def m(2) by (simp add: default_key_def key_of_def)
    qed (use k(2) in \<open>simp_all add: has_project_def m(2)\<close>)
  qed
  have "resources_ok i'"
    using m(3-5) proj sub assms(2) unfolding resources_ok_def by blast
  moreover have "unused_projects i' reqs"
    using assms(3) sub unfolding unused_projects_def by (meson list.set_intros(2))
  ultimately show ?thesis by blast
qed

lemma crashes_iff:
  "crashes i req \<longleftrightarrow> (\<exists>a. req_resource req = RAddress a \<and> active_in i (ma_Namespace a) \<noteq> [] \<and>
     map_of (ic_projects i) (default_key (ma_Namespace a)) = None)"
  by (cases "req_resource req") (simp_all add: crashes_def)

lemma crashes_valid: "crashes i req \<Longrightarrow> delete_valid i req"
  by (cases "req_resource req") (simp_all add: crashes_def delete_valid_def)

lemma remove_all_ok:
  "remove_all reqs i = (out, i') \<Longrightarrow> resources_ok i \<Longrightarrow> unused_projects i reqs \<Longrightarrow>
     resources_ok i' \<and> hosts_ok i' = hosts_ok i \<and> ic_brokers i' = ic_brokers i \<and> (\<forall>s. known s i' \<longrightarrow> known s i) \<and>
     (\<forall>(req, err) \<in> set out. err = None \<and> \<not> known (req_resource req) i')"
proof (induction reqs arbitrary: i i' out)
  case (Cons req reqs)
  obtain r i1 where r: "remove_resource (req_resource req) i = (r, i1)" by (cases "remove_resource (req_resource req) i")
  obtain out1 i2 where o: "remove_all reqs i1 = (out1, i2)" by (cases "remove_all reqs i1")
  have eq: "out = (req\<lparr>req_resource := r\<rparr>, None) # out1" "i' = i2" using Cons.prems(1) r o by simp_all
  have ok: "resources_ok i1" "unused_projects i1 reqs" using remove_ok [OF r Cons.prems(2,3)] by simp_all
  note IH = Cons.IH [OF o ok]
  note f = remove_frame [OF r]
  have "\<not> known r i2" using IH f(5) by blast
  with IH f known_removed [OF r] eq show ?case by auto
qed simp

lemma remove_all_factories: "remove_all reqs i = (out, i') \<Longrightarrow> same_factories i i'"
proof (induction reqs arbitrary: i out)
  case (Cons req reqs)
  obtain r i1 where r: "remove_resource (req_resource req) i = (r, i1)" by (cases "remove_resource (req_resource req) i")
  obtain out1 i2 where o: "remove_all reqs i1 = (out1, i2)" by (cases "remove_all reqs i1")
  have "same_factories i i1"
    using r by (cases "req_resource req") (auto simp: same_factories_def freePortsInternal_def split: if_splits)
  moreover have "i' = i2" using Cons.prems r o by simp
  ultimately show ?case using Cons.IH [of i1 out1] o by (simp add: same_factories_def)
qed (simp add: same_factories_def)

lemma delete_valid_unused:
  assumes "resources_ok i" and "set reqs \<subseteq> {req. delete_valid i req}"
  shows "unused_projects i reqs"
  unfolding unused_projects_def
proof (intro ballI allI impI)
  fix req p k a assume r: "req \<in> set reqs" "req_resource req = RProject p" "map_of (ic_addresses i) k = Some a"
  then have "delete_valid i req" using assms(2) by blast
  with r(2) map_of_SomeD [OF r(3)] show "rk_Namespace k \<noteq> mp_Namespace p"
    by (auto simp: delete_valid_def list_ex_iff)
qed

lemma unused_cong: "same_resources i i' \<Longrightarrow> unused_projects i' reqs = unused_projects i reqs"
  by (simp add: same_resources_def unused_projects_def)

lemma doDelete_None:
  assumes "hosts_ok i" and "ic_initialized i"
  shows "doDelete sched toDelete i w = None \<longleftrightarrow> (\<exists>req \<in> set toDelete. crashes i req)"
proof -
  let ?valid = "filter (delete_valid i) toDelete"
  have "doDelete sched toDelete i w = None \<longleftrightarrow> buildEntities i ?valid = None"
  proof (cases "buildEntities i ?valid")
    case None
    then have "toDelete \<noteq> []" by (auto simp: buildEntities_def)
    with None assms(2) show ?thesis by (simp add: doDelete_def Let_def bindp_def liftO_def)
  next
    case (Some x)
    obtain built res bes failed where x: "x = (built, res, bes, failed)" by (cases x)
    obtain err i1 w1 where "deleteEntities sched res bes i w = Some ((err, i1), w1)"
      using deleteEntities_ok [OF assms(1)] by blast
    with Some x show ?thesis by (simp add: doDelete_def Let_def bindp_def liftO_def split: prod.splits)
  qed
  also have "\<dots> \<longleftrightarrow> (\<exists>req \<in> set ?valid. crashes i req)" by (rule buildEntities_None)
  also have "\<dots> \<longleftrightarrow> (\<exists>req \<in> set toDelete. crashes i req)"
    using crashes_valid by auto
  finally show ?thesis .
qed

text \<open>C27 (error): a batch of deletions crashes the operator exactly when it holds the deletion of an address
  whose namespace has an active endpoint but no known project: the translation then dereferences the
  missing project.\<close>

theorem doDelete_panics:
  assumes "hosts_ok i" and "ic_initialized i"
  shows "doDelete sched toDelete i w = None \<longleftrightarrow>
    (\<exists>req \<in> set toDelete. \<exists>a. req_resource req = RAddress a \<and> active_in i (ma_Namespace a) \<noteq> [] \<and>
       map_of (ic_projects i) (default_key (ma_Namespace a)) = None)"
  using doDelete_None [OF assms] unfolding crashes_iff .

lemma doDelete_ok:
  assumes "hosts_ok i" and "resources_ok i" and "\<forall>req \<in> set toDelete. \<not> crashes i req"
  shows "\<exists>out i' w'. doDelete sched toDelete i w = Some ((out, i'), w') \<and> hosts_ok i' \<and> resources_ok i' \<and> same_factories i i' \<and>
    (\<forall>(req, err) \<in> set out. err = None \<longrightarrow> \<not> known (req_resource req) i') \<and> (\<forall>r. known r i' \<longrightarrow> known r i)"
proof (cases "toDelete = [] \<or> \<not> ic_initialized i")
  case True
  with assms show ?thesis by (auto simp: doDelete_def same_factories_def)
next
  case False
  let ?valid = "filter (delete_valid i) toDelete"
  have "buildEntities i ?valid \<noteq> None" unfolding buildEntities_None using assms(3) by auto
  then obtain built res bes failed where b: "buildEntities i ?valid = Some (built, res, bes, failed)" by auto
  note c = buildEntities_collects [OF b]
  obtain err i1 w1 where d: "deleteEntities sched res bes i w = Some ((err, i1), w1)" "nodes_kept i i1"
    using deleteEntities_ok [OF assms(1)] by blast
  obtain fin i2 where f: "remove_all built i1 = (fin, i2)" by (cases "remove_all built i1")
  note same = nodes_kept_resources [OF d(2)]
  have "unused_projects i1 built"
    using delete_valid_unused [OF assms(2), of built] c(2) unused_cong [OF same] by auto
  note r = remove_all_ok [OF f _ this, unfolded same_resources_ok [OF same], OF assms(2)]
  have known: "known s i1 = known s i" for s using same by (cases s) (simp_all add: same_resources_def)
  show ?thesis
  proof (cases "err = None")
    case True
    then have run: "doDelete sched toDelete i w = Some ((delete_refused i toDelete @ failed @ fin, i2), w1)"
      using False b d(1) f by (simp add: doDelete_def Let_def bindp_def liftO_def)
    have "\<not> known (req_resource req) i2" if "(req, None) \<in> set (delete_refused i toDelete @ failed @ fin)" for req
      using that r c(3) refused_errors(2) [of "(req, None)" i toDelete] by auto
    moreover have "same_factories i i2"
      using nodes_kept_factories [OF d(2)] remove_all_factories [OF f] by (simp add: same_factories_def)
    ultimately show ?thesis using run r known nodes_kept_ok [OF d(2)] by blast
  next
    case e: False
    then have run: "doDelete sched toDelete i w =
        Some ((delete_refused i toDelete @ failed @ map (\<lambda>req. (req, err)) built, i1), w1)"
      using False b d(1) by (auto simp: doDelete_def Let_def bindp_def liftO_def)
    have "(req, None) \<notin> set (delete_refused i toDelete @ failed @ map (\<lambda>req. (req, err)) built)" for req
      using e c(3) refused_errors(2) [of "(req, None)" i toDelete] by auto
    moreover have "resources_ok i1" using same_resources_ok [OF same] assms(2) by simp
    ultimately show ?thesis using run known nodes_kept_ok [OF d(2)] nodes_kept_factories [OF d(2)] by blast
  qed
qed


end
