(* ===== verification/Infra_SyncAll.thy ===== *)
theory Infra_SyncAll
  imports Infra_Known
begin

text \<open>
  The synchronization of everything with the current set of nodes (\<open>SyncAll\<close> and
  \<open>syncConfiguration\<close> in \<open>pkg/state/infra.go\<close>), which the infrastructure controller calls in every
  reconciliation.
\<close>

section \<open>The remembered configuration\<close>

text \<open>
  The two nested loops: the entities of every remembered address for every active endpoint of its
  namespace, and the listeners of the endpoint. The first failure ends them.
\<close>

fun conf_addresses ::
  "'w infraClient \<Rightarrow> MessagingEndpoint \<Rightarrow> (resourceKey, MessagingAddress) gomap \<Rightarrow> RouterEntity list \<Rightarrow> broker_entities
    \<Rightarrow> (error + RouterEntity list \<times> broker_entities) option" where
  "conf_addresses i endpoint [] routerEntities brokerEntities = Some (Inr (routerEntities, brokerEntities))"
| "conf_addresses i endpoint ((k, address) # addresses) routerEntities brokerEntities =
     (if me_Namespace endpoint = ma_Namespace address
      then case buildRouterAddressEntities i endpoint address of
          None \<Rightarrow> None
        | Some (Inl err) \<Rightarrow> Some (Inl err)
        | Some (Inr resultRouter) \<Rightarrow>
            (case buildBrokerAddressEntities i endpoint address of
               Inl err \<Rightarrow> Some (Inl err)
             | Inr resultBroker \<Rightarrow>
                 conf_addresses i endpoint addresses (routerEntities @ resultRouter)
                   (merge_entities resultBroker brokerEntities))
      else conf_addresses i endpoint addresses routerEntities brokerEntities)"

fun conf_endpoints ::
  "'w infraClient \<Rightarrow> (resourceKey, MessagingEndpoint) gomap \<Rightarrow> RouterEntity list \<Rightarrow> broker_entities
    \<Rightarrow> (error + RouterEntity list \<times> broker_entities) option" where
  "conf_endpoints i [] routerEntities brokerEntities = Some (Inr (routerEntities, brokerEntities))"
| "conf_endpoints i ((k, endpoint) # endpoints) routerEntities brokerEntities =
     (if isEndpointActive endpoint
      then case conf_addresses i endpoint (ic_addresses i) routerEntities brokerEntities of
          None \<Rightarrow> None
        | Some (Inl err) \<Rightarrow> Some (Inl err)
        | Some (Inr (res, bes)) \<Rightarrow>
            conf_endpoints i endpoints (res @ buildRouterEndpointEntities endpoint) bes
      else conf_endpoints i endpoints routerEntities brokerEntities)"

definition syncConfiguration :: "'w sched \<Rightarrow> 'w infraClient \<Rightarrow> ('w, error option \<times> 'w infraClient) prog" where
  "syncConfiguration sched i =
     (let i0 = initPorts i
      in bindp (liftO (conf_endpoints i0 (ic_endpoints i0) [] [])) (\<lambda>r.
           case r of
             Inl err \<Rightarrow> ret (Some err, i0)
           | Inr (routerEntities, brokerEntities) \<Rightarrow> syncEntities sched routerEntities brokerEntities i0))"

section \<open>Connectors\<close>

record ConnectorStatus =
  cst_Router :: string
  cst_Broker :: string
  cst_Connected :: bool
  cst_Message :: string

definition connectorToStatus :: "string \<Rightarrow> RouterConnector \<Rightarrow> ConnectorStatus" where
  "connectorToStatus host connector =
     \<lparr> cst_Router = host, cst_Broker = rc_Host connector,
       cst_Connected = (rc_ConnectionStatus connector = ''SUCCESS''),
       cst_Message = rc_ConnectionMsg connector \<rparr>"

definition broker_connector :: "'w BrokerState \<Rightarrow> RouterEntity" where
  "broker_connector broker = REConnector
     \<lparr> rc_Name = connectorName broker, rc_Host = Hostname (bs_host broker), rc_Port = show_int (bs_port broker),
       rc_Role = ''route-container'', rc_SslProfile = ''infra_tls'', rc_SaslMechanisms = ''EXTERNAL'',
       rc_SaslUsername = '''', rc_SaslPassword = '''', rc_LinkCapacity = 0, rc_IdleTimeoutSeconds = 16,
       rc_VerifyHostname = True, rc_PolicyVhost = '''', rc_ConnectionStatus = '''', rc_ConnectionMsg = '''' \<rparr>"

text \<open>The type assertion on each entity that was read.\<close>

fun statuses :: "string \<Rightarrow> RouterEntity list \<Rightarrow> ConnectorStatus list option" where
  "statuses host [] = Some []"
| "statuses host (REConnector c # es) = map_option (\<lambda>l. connectorToStatus host c # l) (statuses host es)"
| "statuses host (e # es) = None"

definition connect_router ::
  "'w sched \<Rightarrow> RouterEntity list \<Rightarrow> 'w RouterState \<Rightarrow> ('w, (error + ConnectorStatus list) \<times> 'w RouterState) prog" where
  "connect_router sched connectors router =
     bindp (RouterState_EnsureEntities sched connectors router) (\<lambda>(err, r1).
       case err of
         Some e \<Rightarrow> ret (Inl e, r1)
       | None \<Rightarrow>
           bindp (RouterState_ReadEntities sched connectors r1) (\<lambda>((readConnectors, err), r2).
             case err of
               Some e \<Rightarrow> ret (Inl e, r2)
             | None \<Rightarrow> bindp (liftO (statuses (Hostname (rs_host r2)) readConnectors)) (\<lambda>l. ret (Inr l, r2))))"

fun left :: "'a + 'b \<Rightarrow> 'a option" where
  "left (Inl a) = Some a"
| "left (Inr b) = None"

fun rights :: "('a + 'b list) list \<Rightarrow> 'b list" where
  "rights [] = []"
| "rights (Inl a # xs) = rights xs"
| "rights (Inr l # xs) = l @ rights xs"

definition connect_routers ::
  "'w sched \<Rightarrow> 'w infraClient \<Rightarrow> ('w, (error option \<times> ConnectorStatus list) \<times> 'w infraClient) prog" where
  "connect_routers sched i =
     bindp (apply_all sched (connect_router sched (map (\<lambda>(h, b). broker_connector b) (ic_brokers i))) (ic_routers i))
       (\<lambda>(rs, m). ret ((first_some (map left rs), rights rs), i\<lparr>ic_routers := m\<rparr>))"

section \<open>The whole synchronization\<close>

definition readinessQueue :: BrokerEntity where
  "readinessQueue = BEQueue \<lparr> bq_Name = ''readiness'', bq_Address = ''readiness'', bq_RoutingType = RoutingTypeAnycast,
     bq_MaxConsumers = 1, bq_Durable = False, bq_AutoCreateAddress = True, bq_PurgeOnNoConsumers = False \<rparr>"

definition readinessListener :: RouterEntity where
  "readinessListener = REListener \<lparr> rl_Name = ''readiness'', rl_Host = ''127.0.0.1'', rl_Port = ''7779'',
     rl_Role = ''normal'', rl_SslProfile = '''', rl_SaslMechanisms = '''', rl_LinkCapacity = 0,
     rl_IdleTimeoutSeconds = 16, rl_InitialHandshakeTimeoutSeconds = 0, rl_PolicyVhost = '''',
     rl_AuthenticatePeer = False, rl_MultiTenant = False, rl_RequireSsl = False, rl_Http = True,
     rl_Metrics = True, rl_Healthz = True, rl_Websockets = False, rl_HttpRootDir = '''' \<rparr>"

text \<open>A step that can fail, with the early return of the function around it.\<close>

definition or_return ::
  "('w, error option \<times> 's) prog \<Rightarrow> ('s \<Rightarrow> ('w, (error + 'a) \<times> 's) prog) \<Rightarrow> ('w, (error + 'a) \<times> 's) prog" where
  "or_return m f = bindp m (\<lambda>(err, s). case err of Some e \<Rightarrow> ret (Inl e, s) | None \<Rightarrow> f s)"

text \<open>The end of \<open>SyncAll\<close>: connectors, and the entities of the readiness probes.\<close>

definition connect_all :: "'w sched \<Rightarrow> 'w infraClient \<Rightarrow> ('w, (error + ConnectorStatus list) \<times> 'w infraClient) prog" where
  "connect_all sched i =
     bindp (connect_routers sched i) (\<lambda>((err, allConnectors), i1).
       case err of
         Some e \<Rightarrow> ret (Inl e, i1)
       | None \<Rightarrow>
           or_return (applyBrokers sched (BrokerState_EnsureEntities sched [readinessQueue]) i1) (\<lambda>i2.
           or_return (applyRouters sched (RouterState_EnsureEntities sched [readinessListener]) i2) (\<lambda>i3.
           ret (Inr allConnectors, i3\<lparr>ic_initialized := True\<rparr>))))"

text \<open>The part of \<open>SyncAll\<close> that works on a fixed set of nodes.\<close>

definition sync_nodes :: "'w sched \<Rightarrow> 'w rand \<Rightarrow> 'w infraClient \<Rightarrow> ('w, (error + ConnectorStatus list) \<times> 'w infraClient) prog" where
  "sync_nodes sched rand i2 =
     bindp (if ic_initialized i2 then checkResync i2 else ret i2) (\<lambda>i3.
     or_return (initialize sched rand i3) (\<lambda>i4.
     or_return (syncConfiguration sched i4) (\<lambda>i5.
     connect_all sched i5)))"

definition SyncAll ::
  "'w sched \<Rightarrow> 'w rand \<Rightarrow> Host list \<Rightarrow> Host list \<Rightarrow> TlsConfig option \<Rightarrow> 'w infraClient
    \<Rightarrow> ('w, (error + ConnectorStatus list) \<times> 'w infraClient) prog" where
  "SyncAll sched rand routers brokers tlsConfig i =
     bindp (updateRouters routers (i\<lparr>ic_tlsConfig := tlsConfig\<rparr>)) (\<lambda>i1.
     or_return (updateBrokers sched brokers True i1) (\<lambda>i2.
     sync_nodes sched rand i2))"

section \<open>The configuration never panics\<close>

text \<open>The entities of one address in one run of the inner loop.\<close>

lemma conf_addresses_ok:
  assumes "\<forall>(k, a) \<in> set addrs. me_Namespace ep = ma_Namespace a \<longrightarrow> has_project i (ma_Namespace a)"
  shows "\<exists>r. conf_addresses i ep addrs res bes = Some r \<and>
    (\<forall>res' bes'. r = Inr (res', bes') \<longrightarrow> set res \<subseteq> set res' \<and> covers bes bes' \<and>
      (\<forall>(k, a) \<in> set addrs. me_Namespace ep = ma_Namespace a \<longrightarrow> address_in i a res' bes' ep))"
  using assms
proof (induction addrs arbitrary: res bes)
  case (Cons x addrs)
  obtain k a where x: "x = (k, a)" by (cases x)
  have rest: "\<forall>(k, a) \<in> set addrs. me_Namespace ep = ma_Namespace a \<longrightarrow> has_project i (ma_Namespace a)"
    using Cons.prems by simp
  show ?case
  proof (cases "me_Namespace ep = ma_Namespace a")
    case False
    with Cons.IH [OF rest, of res bes] x show ?thesis by simp
  next
    case ns: True
    then have "buildRouterAddressEntities i ep a \<noteq> None"
      using Cons.prems x by (auto simp: buildRouterAddressEntities_None has_project_def)
    then obtain r where r: "buildRouterAddressEntities i ep a = Some r" by blast
    show ?thesis
    proof (cases "\<exists>rs bs. r = Inr rs \<and> buildBrokerAddressEntities i ep a = Inr bs")
      case False
      then have "\<exists>err. conf_addresses i ep (x # addrs) res bes = Some (Inl err)"
        using ns x r by (cases r; cases "buildBrokerAddressEntities i ep a") simp_all
      then show ?thesis by auto
    next
      case True
      then obtain rs bs where b: "r = Inr rs" "buildBrokerAddressEntities i ep a = Inr bs" by blast
      obtain r' where IH: "conf_addresses i ep addrs (res @ rs) (merge_entities bs bes) = Some r'"
        "\<forall>res' bes'. r' = Inr (res', bes') \<longrightarrow> set (res @ rs) \<subseteq> set res' \<and> covers (merge_entities bs bes) bes' \<and>
          (\<forall>(k, a) \<in> set addrs. me_Namespace ep = ma_Namespace a \<longrightarrow> address_in i a res' bes' ep)"
        using Cons.IH [OF rest] by blast
      have "set res \<subseteq> set res' \<and> covers bes bes' \<and> address_in i a res' bes' ep" if "r' = Inr (res', bes')" for res' bes'
      proof -
        note c = IH(2) [rule_format, OF that]
        have "covers bes bes'" by (rule covers_trans [OF covers_merge(1) conjunct1 [OF conjunct2 [OF c]]])
        moreover have "covers bs bes'" by (rule covers_trans [OF covers_merge(2) conjunct1 [OF conjunct2 [OF c]]])
        ultimately show ?thesis unfolding address_in_def using r b c by simp
      qed
      moreover have "conf_addresses i ep (x # addrs) res bes = Some r'" using IH(1) ns x r b by simp
      ultimately show ?thesis using IH(2) x by (intro exI [of _ r']) simp
    qed
  qed
qed (simp add: covers_refl)

text \<open>What the outer loop has collected for an endpoint.\<close>

definition endpoint_in :: "'w infraClient \<Rightarrow> RouterEntity list \<Rightarrow> broker_entities \<Rightarrow> MessagingEndpoint \<Rightarrow> bool" where
  "endpoint_in i res bes ep \<longleftrightarrow> isEndpointActive ep \<longrightarrow>
     set (buildRouterEndpointEntities ep) \<subseteq> set res \<and>
     (\<forall>(k, a) \<in> set (ic_addresses i). me_Namespace ep = ma_Namespace a \<longrightarrow> address_in i a res bes ep)"

lemma endpoint_in_mono:
  "endpoint_in i res bes ep \<Longrightarrow> set res \<subseteq> set res' \<Longrightarrow> covers bes bes' \<Longrightarrow> endpoint_in i res' bes' ep"
  unfolding endpoint_in_def by (auto intro: address_in_mono)

lemma conf_endpoints_ok:
  assumes "\<forall>(k, a) \<in> set (ic_addresses i). has_project i (ma_Namespace a)"
  shows "\<exists>r. conf_endpoints i eps res bes = Some r \<and>
    (\<forall>res' bes'. r = Inr (res', bes') \<longrightarrow> set res \<subseteq> set res' \<and> covers bes bes' \<and>
      (\<forall>(k, ep) \<in> set eps. endpoint_in i res' bes' ep))"
proof (induction eps arbitrary: res bes)
  case (Cons x eps)
  obtain k ep where x: "x = (k, ep)" by (cases x)
  show ?case
  proof (cases "isEndpointActive ep")
    case False
    with Cons.IH [of res bes] x show ?thesis by (simp add: endpoint_in_def)
  next
    case act: True
    have "\<forall>(k, a) \<in> set (ic_addresses i). me_Namespace ep = ma_Namespace a \<longrightarrow> has_project i (ma_Namespace a)"
      using assms by blast
    from conf_addresses_ok [OF this, of res bes] obtain r where
      r: "conf_addresses i ep (ic_addresses i) res bes = Some r"
      "\<forall>res' bes'. r = Inr (res', bes') \<longrightarrow> set res \<subseteq> set res' \<and> covers bes bes' \<and>
        (\<forall>(k, a) \<in> set (ic_addresses i). me_Namespace ep = ma_Namespace a \<longrightarrow> address_in i a res' bes' ep)" by blast
    show ?thesis
    proof (cases r)
      case (Inl err)
      with r act x show ?thesis by simp
    next
      case (Inr y)
      obtain res1 bes1 where y: "y = (res1, bes1)" by (cases y)
      let ?res = "res1 @ buildRouterEndpointEntities ep"
      obtain r' where IH: "conf_endpoints i eps ?res bes1 = Some r'"
        "\<forall>res' bes'. r' = Inr (res', bes') \<longrightarrow> set ?res \<subseteq> set res' \<and> covers bes1 bes' \<and>
          (\<forall>(k, ep) \<in> set eps. endpoint_in i res' bes' ep)"
        using Cons.IH by blast
      have here: "set res \<subseteq> set ?res" "covers bes bes1" "endpoint_in i ?res bes1 ep"
        using r(2) Inr y address_in_mono [OF _ _ covers_refl, of i _ res1 bes1 ep ?res]
        by (auto simp: endpoint_in_def)
      have "set res \<subseteq> set res' \<and> covers bes bes' \<and> endpoint_in i res' bes' ep" if "r' = Inr (res', bes')" for res' bes'
      proof -
        note c = IH(2) [rule_format, OF that]
        have "set ?res \<subseteq> set res'" "covers bes1 bes'" using c by simp_all
        with here(1) endpoint_in_mono [OF here(3)] covers_trans [OF here(2)] show ?thesis by auto
      qed
      moreover have "conf_endpoints i (x # eps) res bes = Some r'" using IH(1) r(1) Inr y act x by simp
      ultimately show ?thesis using IH(2) x by (intro exI [of _ r']) simp
    qed
  qed
qed (simp add: covers_refl)

text \<open>Everything that the client remembers is configured on the nodes of \<open>i'\<close>.\<close>

definition all_configured :: "'w infraClient \<Rightarrow> 'w infraClient \<Rightarrow> bool" where
  "all_configured j i' \<longleftrightarrow>
     (\<forall>(k, e) \<in> set (ic_endpoints j). isEndpointActive e \<longrightarrow> configured j i' (REndpoint e)) \<and>
     (\<forall>(k, a) \<in> set (ic_addresses j). active_in j (ma_Namespace a) \<noteq> [] \<longrightarrow> configured j i' (RAddress a))"

lemma all_configuredI:
  assumes "\<forall>(k, ep) \<in> set (ic_endpoints j). endpoint_in j res bes ep" and "routers_have res i'" and "brokers_have bes i'"
  shows "all_configured j i'"
proof -
  have "collected j res bes (REndpoint e)" if "(k, e) \<in> set (ic_endpoints j)" "isEndpointActive e" for k e
    using assms(1) that by (auto simp: collected_def endpoint_in_def)
  moreover have "collected j res bes (RAddress a)"
    if a: "(k, a) \<in> set (ic_addresses j)" "active_in j (ma_Namespace a) \<noteq> []" for k a
  proof -
    have "address_in j a res bes ep" if "ep \<in> set (active_in j (ma_Namespace a))" for ep
      using that assms(1) a(1) by (auto simp: active_in_def endpoint_in_def)
    with a(2) show ?thesis by (simp add: collected_def)
  qed
  ultimately show ?thesis
    unfolding all_configured_def using collected_configured [OF _ assms(2,3)] by auto
qed

lemma initPorts_frame:
  "ic_addresses (initPorts i) = ic_addresses i" "ic_endpoints (initPorts i) = ic_endpoints i"
  "ic_projects (initPorts i) = ic_projects i" "hosts_ok (initPorts i) = hosts_ok i"
  "ic_hostMap (initPorts i) = ic_hostMap i" "ic_brokers (initPorts i) = ic_brokers i"
  "ic_routers (initPorts i) = ic_routers i" "ic_routerStateFactory (initPorts i) = ic_routerStateFactory i"
  "ic_brokerStateFactory (initPorts i) = ic_brokerStateFactory i" "ic_initialized (initPorts i) = ic_initialized i"
  by (simp_all add: initPorts_def hosts_ok_def)

lemma syncConfiguration_ok:
  assumes "hosts_ok i" and "resources_ok i"
  shows "\<exists>err i' w'. syncConfiguration sched i w = Some ((err, i'), w') \<and> nodes_kept (initPorts i) i' \<and>
    (err = None \<longrightarrow> (\<exists>res bes. routers_have res i' \<and> brokers_have bes i' \<and>
       (\<forall>(k, ep) \<in> set (ic_endpoints (initPorts i)). endpoint_in (initPorts i) res bes ep)))"
proof -
  let ?i = "initPorts i"
  have h: "hosts_ok ?i" using assms(1) by (simp add: initPorts_frame)
  have "\<forall>(k, a) \<in> set (ic_addresses ?i). has_project ?i (ma_Namespace a)"
    using assms(2) by (auto simp: resources_ok_def initPorts_frame has_project_def gm_in_set)
  from conf_endpoints_ok [OF this, of "ic_endpoints ?i" "[]" "[]"] obtain r where
    r: "conf_endpoints ?i (ic_endpoints ?i) [] [] = Some r"
    "\<forall>res' bes'. r = Inr (res', bes') \<longrightarrow> set [] \<subseteq> set res' \<and> covers [] bes' \<and>
      (\<forall>(k, ep) \<in> set (ic_endpoints ?i). endpoint_in ?i res' bes' ep)" by blast
  show ?thesis
  proof (cases r)
    case (Inl err)
    then have "syncConfiguration sched i w = Some ((Some err, ?i), w)"
      using r(1) by (simp add: syncConfiguration_def Let_def bindp_def liftO_def)
    with nodes_kept_refl [OF h] show ?thesis by simp
  next
    case (Inr y)
    obtain res bes where y: "y = (res, bes)" by (cases y)
    obtain err i' w' where s: "syncEntities sched res bes ?i w = Some ((err, i'), w')" "nodes_kept ?i i'"
      "err = None \<longrightarrow> routers_have res i' \<and> brokers_have bes i'"
      using syncEntities_ok [OF h] by blast
    have "syncConfiguration sched i w = Some ((err, i'), w')"
      using r(1) s(1) Inr y by (simp add: syncConfiguration_def Let_def bindp_def liftO_def)
    moreover have "\<forall>(k, ep) \<in> set (ic_endpoints ?i). endpoint_in ?i res bes ep" using r(2) Inr y by blast
    ultimately show ?thesis using s(2,3) by blast
  qed
qed

section \<open>Connecting the routers\<close>

text \<open>A router whose cache holds the given entities, whatever its connection state.\<close>

definition router_keeps :: "RouterEntity list \<Rightarrow> 'w RouterState \<Rightarrow> bool" where
  "router_keeps es r \<longleftrightarrow> router_good r \<and> (\<forall>e \<in> set es. rs_lookup r e \<noteq> None)"

definition broker_keeps :: "broker_entities \<Rightarrow> 'w BrokerState \<Rightarrow> bool" where
  "broker_keeps bes b \<longleftrightarrow> broker_good b \<and> broker_has (entities_for bes (bs_host b)) b"

lemma router_keeps_nodes:
  "nodes_ok (router_keeps es) rs_host (ic_routers i) \<longleftrightarrow> nodes_ok router_good rs_host (ic_routers i) \<and> routers_have es i"
  unfolding nodes_ok_def routers_have_def router_keeps_def by fast

lemma broker_keeps_nodes:
  "nodes_ok (broker_keeps bes) bs_host (ic_brokers i) \<longleftrightarrow> nodes_ok broker_good bs_host (ic_brokers i) \<and> brokers_have bes i"
  unfolding nodes_ok_def brokers_have_def broker_keeps_def by fast

interpretation re_keep: node_post "router_keeps es" rs_host "RouterState_EnsureEntities sched es'" "router_keeps (es @ es')"
  for es sched es'
proof
  fix s :: "'a RouterState" and w assume k: "router_keeps es s"
  then have g: "router_good s" by (simp add: router_keeps_def)
  show "\<exists>err s' w'. RouterState_EnsureEntities sched es' s w = Some ((err, s'), w')"
    by (rule re_ensure.op_returns [OF g])
  have kept: "router_keeps es s' \<and> rs_host s' = rs_host s" if "RouterState_EnsureEntities sched es' s w = Some ((err, s'), w')" for err s' w'
    using re_ensure.op_good [OF g that] Router_Ensure_keeps [OF that] k unfolding router_keeps_def by fast
  then show "router_keeps es s' \<and> rs_host s' = rs_host s" if "RouterState_EnsureEntities sched es' s w = Some ((err, s'), w')" for err s' w'
    using that by blast
  show "router_keeps (es @ es') s'" if "RouterState_EnsureEntities sched es' s w = Some ((None, s'), w')" for s' w'
    using kept [OF that] re_ensured.op_post [OF g that] unfolding router_keeps_def router_has_def by auto
qed

interpretation be_keep: node_post "broker_keeps bes" bs_host "BrokerState_EnsureEntities sched es" "broker_has es"
  for bes sched es
proof
  fix s :: "'a BrokerState" and w assume k: "broker_keeps bes s"
  then have g: "broker_good s" by (simp add: broker_keeps_def)
  show "\<exists>err s' w'. BrokerState_EnsureEntities sched es s w = Some ((err, s'), w')"
    by (rule be_ensure.op_returns [OF g])
  show "broker_keeps bes s' \<and> bs_host s' = bs_host s" if "BrokerState_EnsureEntities sched es s w = Some ((err, s'), w')" for err s' w'
    using be_ensure.op_good [OF g that] Ensure_keeps [OF that] k unfolding broker_keeps_def broker_has_def by metis
  show "broker_has es s'" if "BrokerState_EnsureEntities sched es s w = Some ((None, s'), w')" for s' w'
    by (rule be_ensured.op_post [OF g that])
qed

text \<open>Reading entities changes at most the connection state of a router.\<close>

lemma readEntity_total: "router_client_total c \<Longrightarrow> RouterState_readEntity c t n w \<noteq> None"
  using request_total [of c "router_request ''READ'' t n ANull" w]
  by (auto simp: RouterState_readEntity_def RouterState_doRequest_def bindE_def bindp_def split: sum.splits)

lemma readEntity_decoded:
  assumes "RouterState_readEntity c t n w = Some (Inr v, w')"
  shows "\<exists>d. RouterEntityType_Decode t d = Inr v"
proof -
  obtain resp w1 where "(case answer_map resp of Inl err \<Rightarrow> ret (Inl err) | Inr d \<Rightarrow> ret (RouterEntityType_Decode t d)) w1
      = Some (Inr v, w')"
    using assms unfolding RouterState_readEntity_def bindE_eq_Inr by blast
  then show ?thesis by (cases "answer_map resp") auto
qed

lemma Decode_connector: "RouterEntityType_Decode RouterConnectorEntity d = Inr v \<Longrightarrow> \<exists>c. v = REConnector c"
  by (auto simp: decode_connector_def checked_def split: if_splits)

lemma read_all: "read_err rs = None \<Longrightarrow> length (read_values rs) = length rs"
  by (induction rs rule: read_values.induct) simp_all

lemma read_mem: "v \<in> set (read_values rs) \<Longrightarrow> \<exists>x. (x, Inr v) \<in> set rs"
  by (induction rs rule: read_values.induct) auto

lemma Router_Reset_entities:
  "router_good r \<Longrightarrow> \<exists>r' w'. RouterState_Reset r w = Some (r', w') \<and> router_good r' \<and> rs_host r' = rs_host r \<and>
     rs_entities r' = rs_entities r"
  by (cases "rs_initialized r") (simp_all add: RouterState_Reset_def router_good_def router_ok_def)

lemma Router_Read_ok:
  assumes "router_good r"
  shows "\<exists>vals err r' w'. RouterState_ReadEntities sched es r w = Some (((vals, err), r'), w') \<and>
    router_good r' \<and> rs_host r' = rs_host r \<and> rs_entities r' = rs_entities r \<and>
    (err = None \<longrightarrow> length vals = length es) \<and>
    ((\<forall>e \<in> set es. RouterEntity_Type e = RouterConnectorEntity) \<longrightarrow> (\<forall>v \<in> set vals. \<exists>c. v = REConnector c))"
proof (cases "rs_initialized r")
  case False
  with assms show ?thesis by (simp add: RouterState_ReadEntities_def)
next
  case True
  let ?f = "\<lambda>e. RouterState_readEntity (rs_commandClient r) (RouterEntity_Type e) (RouterEntity_GetName e)"
  have "go_group sched ?f es w \<noteq> None" unfolding go_group_def
    by (intro run_tasks_total readEntity_total) (use assms in \<open>simp add: router_good_def\<close>)
  then obtain rs w1 where rs: "go_group sched ?f es w = Some (rs, w1)" by (metis option.exhaust surj_pair)
  have len: "length rs = length es" using go_group_mset [OF rs] by (metis length_map size_mset)
  have conn: "\<exists>c. v = REConnector c"
    if v: "v \<in> set (read_values rs)" and es: "\<forall>e \<in> set es. RouterEntity_Type e = RouterConnectorEntity" for v
  proof -
    obtain e where e: "(e, Inr v) \<in> set rs" using read_mem [OF v] by blast
    obtain u u' where u: "?f e u = Some (Inr v, u')" using go_group_mem [OF rs e] by blast
    have "e \<in> set es" using go_group_set [OF rs] imageI [OF e, of fst] by simp
    then have "RouterEntity_Type e = RouterConnectorEntity" using es by blast
    with readEntity_decoded [OF u] Decode_connector show ?thesis by metis
  qed
  have "\<exists>r' w2. (if router_isConnectionError (read_err rs) then RouterState_Reset r else ret r) w1 = Some (r', w2) \<and>
      router_good r' \<and> rs_host r' = rs_host r \<and> rs_entities r' = rs_entities r"
    using Router_Reset_entities [OF assms] assms by simp
  then obtain r' w2 where reset: "(if router_isConnectionError (read_err rs) then RouterState_Reset r else ret r) w1 = Some (r', w2)"
    "router_good r'" "rs_host r' = rs_host r" "rs_entities r' = rs_entities r"
    by (elim exE conjE) (rule that)
  have "RouterState_ReadEntities sched es r w = Some (((read_values rs, read_err rs), r'), w2)"
    using True rs reset(1) by (simp add: RouterState_ReadEntities_def bindp_def)
  moreover have "read_err rs = None \<longrightarrow> length (read_values rs) = length es" using read_all [of rs] len by simp
  ultimately show ?thesis using reset(2-4) conn by (intro exI conjI) (assumption | blast)+
qed

lemma statuses_total:
  "\<forall>v \<in> set vals. \<exists>c. v = REConnector c \<Longrightarrow> \<exists>l. statuses host vals = Some l \<and> length l = length vals"
proof (induction vals)
  case (Cons v vals)
  then obtain c where "v = REConnector c" by auto
  with Cons show ?case by auto
qed simp

lemma connectors_type: "\<forall>e \<in> set (map broker_connector bs). RouterEntity_Type e = RouterConnectorEntity"
  by (simp add: broker_connector_def)

lemma connect_router_run:
  assumes "router_keeps es r"
  shows "\<exists>res r' w'. connect_router sched (map broker_connector bs) r w = Some ((res, r'), w') \<and>
    router_keeps es r' \<and> rs_host r' = rs_host r \<and>
    (\<forall>l. res = Inr l \<longrightarrow> length l = length bs \<and> router_keeps (es @ map broker_connector bs) r')"
proof -
  let ?cs = "map broker_connector bs"
  obtain err r1 w1 where e: "RouterState_EnsureEntities sched ?cs r w = Some ((err, r1), w1)"
    using re_keep.op_returns [OF assms] by blast
  note g = re_keep.op_good [OF assms e]
  show ?thesis
  proof (cases err)
    case (Some x)
    with e g show ?thesis by (simp add: connect_router_def bindp_def)
  next
    case None
    have k: "router_keeps (es @ ?cs) r1" using re_keep.op_post [OF assms] e None by blast
    then have "router_good r1" by (simp add: router_keeps_def)
    from Router_Read_ok [OF this, of sched ?cs w1] obtain vals err2 r2 w2 where
      r: "RouterState_ReadEntities sched ?cs r1 w1 = Some (((vals, err2), r2), w2)" "router_good r2"
        "rs_host r2 = rs_host r1" "rs_entities r2 = rs_entities r1" "err2 = None \<longrightarrow> length vals = length ?cs"
        "\<forall>v \<in> set vals. \<exists>c. v = REConnector c"
      using connectors_type by blast
    have k2: "router_keeps (es @ ?cs) r2" "router_keeps es r2" using k r(2,4) by (auto simp: router_keeps_def)
    obtain l where l: "statuses (Hostname (rs_host r2)) vals = Some l" "length l = length vals"
      using statuses_total [OF r(6)] by blast
    show ?thesis
    proof (cases err2)
      case (Some x)
      with e None r(1,3) g k2 show ?thesis by (simp add: connect_router_def bindp_def)
    next
      case n2: None
      then have "connect_router sched ?cs r w = Some ((Inr l, r2), w2)"
        using e None r(1) l(1) by (simp add: connect_router_def bindp_def liftO_def)
      with r(3,5) g k2 l(2) n2 show ?thesis by simp
    qed
  qed
qed

interpretation cr: node_result "router_keeps es" rs_host "connect_router sched (map broker_connector bs)"
    "\<lambda>res r. \<forall>l. res = Inr l \<longrightarrow> length l = length bs \<and> router_keeps (es @ map broker_connector bs) r"
  for es sched and bs :: "'a BrokerState list"
proof
  fix s :: "'b RouterState" and w assume k: "router_keeps es s"
  let ?op = "connect_router sched (map broker_connector bs)"
  obtain r1 s1 w1 where 1: "?op s w = Some ((r1, s1), w1)" "router_keeps es s1 \<and> rs_host s1 = rs_host s"
    "\<forall>l. r1 = Inr l \<longrightarrow> length l = length bs \<and> router_keeps (es @ map broker_connector bs) s1"
    using connect_router_run [OF k] by blast
  then show "\<exists>r s' w'. ?op s w = Some ((r, s'), w')" by blast
  show "router_keeps es s' \<and> rs_host s' = rs_host s" if "?op s w = Some ((r, s'), w')" for r s' w'
    using that 1(1,2) by simp
  show "\<forall>l. r = Inr l \<longrightarrow> length l = length bs \<and> router_keeps (es @ map broker_connector bs) s'"
    if "?op s w = Some ((r, s'), w')" for r s' w'
    using that 1(1,3) by simp
qed

lemma rights_length:
  "\<forall>r \<in> set rs. \<exists>l. r = Inr l \<and> length l = n \<Longrightarrow> length (rights rs) = length rs * n"
  by (induction rs rule: rights.induct) auto

lemma left_None: "left r = None \<longleftrightarrow> (\<exists>l. r = Inr l)"
  by (cases r) simp_all

lemma connect_routers_ok:
  assumes "nodes_ok (router_keeps es) rs_host (ic_routers i)"
  shows "\<exists>err sts m w'. connect_routers sched i w = Some (((err, sts), i\<lparr>ic_routers := m\<rparr>), w') \<and>
    nodes_ok (router_keeps es) rs_host m \<and> gm_keys m = gm_keys (ic_routers i) \<and>
    (err = None \<longrightarrow> length sts = length (ic_routers i) * length (ic_brokers i) \<and>
      nodes_ok (router_keeps (es @ map broker_connector (map snd (ic_brokers i)))) rs_host m)"
proof -
  let ?bs = "map snd (ic_brokers i)"
  have cs: "map (\<lambda>(h, b). broker_connector b) (ic_brokers i) = map broker_connector ?bs" by (simp add: split_beta)
  obtain rs m w' where a: "apply_all sched (connect_router sched (map broker_connector ?bs)) (ic_routers i) w = Some ((rs, m), w')"
    "nodes_ok (router_keeps es) rs_host m" "gm_keys m = gm_keys (ic_routers i)"
    using cr.apply_all_ok [OF assms] by blast
  note says = cr.apply_all_says [OF assms a(1)]
  have "length (rights rs) = length (ic_routers i) * length (ic_brokers i) \<and>
      nodes_ok (router_keeps (es @ map broker_connector ?bs)) rs_host m" if ok: "first_some (map left rs) = None"
  proof -
    have inr: "\<forall>r \<in> set rs. \<exists>l. r = Inr l" using ok by (simp add: left_None)
    have "\<forall>r \<in> set rs. \<exists>l. r = Inr l \<and> length l = length ?bs"
      using says(1) inr by (induction rule: list_all2_induct) auto
    then have len: "length (rights rs) = length (ic_routers i) * length (ic_brokers i)"
      using rights_length says(2) by fastforce
    have "\<forall>hs \<in> set m. router_keeps (es @ map broker_connector ?bs) (snd hs)"
      using says(1) inr by (induction rule: list_all2_induct) auto
    with a(2) len show ?thesis by (simp add: nodes_ok_def split_beta)
  qed
  moreover have "connect_routers sched i w = Some (((first_some (map left rs), rights rs), i\<lparr>ic_routers := m\<rparr>), w')"
    unfolding connect_routers_def cs bindp_def a(1) by simp
  ultimately show ?thesis using a(2,3)
    by (intro exI [of _ "first_some (map left rs)"] exI [of _ "rights rs"] exI [of _ m] exI [of _ w'] conjI impI) simp_all
qed

section \<open>The result of the synchronization\<close>

lemma nodes_card: "nodes_ok good host m \<Longrightarrow> length m = card (gm_keys m)"
  unfolding nodes_ok_def gm_ok_def by (metis distinct_card length_map list.set_map)

lemma hosts_ok_update:
  "hosts_ok i \<Longrightarrow> nodes_ok router_good rs_host m \<Longrightarrow> gm_keys m = gm_keys (ic_routers i) \<Longrightarrow> hosts_ok (i\<lparr>ic_routers := m\<rparr>)"
  "hosts_ok i \<Longrightarrow> nodes_ok broker_good bs_host m' \<Longrightarrow> gm_keys m' = gm_keys (ic_brokers i) \<Longrightarrow> hosts_ok (i\<lparr>ic_brokers := m'\<rparr>)"
  by (simp_all add: hosts_ok_def)

text \<open>The readiness entities on all brokers and all routers, on top of what they already have.\<close>

lemma ready_brokers:
  assumes "hosts_ok i" and "brokers_have bes i"
  shows "\<exists>err m w'. applyBrokers sched (BrokerState_EnsureEntities sched es) i w = Some ((err, i\<lparr>ic_brokers := m\<rparr>), w') \<and>
    hosts_ok (i\<lparr>ic_brokers := m\<rparr>) \<and> gm_keys m = gm_keys (ic_brokers i) \<and> brokers_have bes (i\<lparr>ic_brokers := m\<rparr>) \<and>
    (err = None \<longrightarrow> (\<forall>(h, b) \<in> set m. broker_has es b))"
proof -
  have n: "nodes_ok (broker_keeps bes) bs_host (ic_brokers i)"
    unfolding broker_keeps_nodes using assms by (simp add: hosts_ok_def)
  obtain errs m w' where a: "apply_all sched (BrokerState_EnsureEntities sched es) (ic_brokers i) w = Some ((errs, m), w')"
    "nodes_ok (broker_keeps bes) bs_host m" "gm_keys m = gm_keys (ic_brokers i)"
    using be_keep.apply_all_ok [OF n] by blast
  have run: "applyBrokers sched (BrokerState_EnsureEntities sched es) i w = Some ((first_some errs, i\<lparr>ic_brokers := m\<rparr>), w')"
    unfolding applyBrokers_def bindp_def a(1) by simp
  have k: "nodes_ok broker_good bs_host m" "brokers_have bes (i\<lparr>ic_brokers := m\<rparr>)"
    using broker_keeps_nodes [of bes "i\<lparr>ic_brokers := m\<rparr>"] a(2) by simp_all
  have post: "broker_has es b" if "first_some errs = None" "(h, b) \<in> set m" for h b
    by (rule be_keep.apply_all_post [OF n a(1) that])
  show ?thesis
    by (rule exI [of _ "first_some errs"], rule exI [of _ m], rule exI [of _ w'], intro conjI impI ballI)
      (use run k a(3) hosts_ok_update(2) [OF assms(1) k(1) a(3)] post in auto)
qed

lemma ready_routers:
  assumes "hosts_ok i" and "routers_have res i"
  shows "\<exists>err m w'. applyRouters sched (RouterState_EnsureEntities sched es) i w = Some ((err, i\<lparr>ic_routers := m\<rparr>), w') \<and>
    hosts_ok (i\<lparr>ic_routers := m\<rparr>) \<and> gm_keys m = gm_keys (ic_routers i) \<and>
    (err = None \<longrightarrow> routers_have (res @ es) (i\<lparr>ic_routers := m\<rparr>))"
proof -
  have n: "nodes_ok (router_keeps res) rs_host (ic_routers i)"
    unfolding router_keeps_nodes using assms by (simp add: hosts_ok_def)
  obtain errs m w' where a: "apply_all sched (RouterState_EnsureEntities sched es) (ic_routers i) w = Some ((errs, m), w')"
    "nodes_ok (router_keeps res) rs_host m" "gm_keys m = gm_keys (ic_routers i)"
    using re_keep.apply_all_ok [OF n] by blast
  have run: "applyRouters sched (RouterState_EnsureEntities sched es) i w = Some ((first_some errs, i\<lparr>ic_routers := m\<rparr>), w')"
    unfolding applyRouters_def bindp_def a(1) by simp
  have k: "nodes_ok router_good rs_host m"
    using router_keeps_nodes [of res "i\<lparr>ic_routers := m\<rparr>"] a(2) by simp
  have post: "routers_have (res @ es) (i\<lparr>ic_routers := m\<rparr>)" if "first_some errs = None"
  proof -
    have "router_keeps (res @ es) r" if "(h, r) \<in> set m" for h r
      by (rule re_keep.apply_all_post [OF n a(1) \<open>first_some errs = None\<close> that])
    then show ?thesis unfolding routers_have_def router_keeps_def by auto
  qed
  show ?thesis
    by (rule exI [of _ "first_some errs"], rule exI [of _ m], rule exI [of _ w'], intro conjI impI)
      (use run k a(3) hosts_ok_update(1) [OF assms(1) k a(3)] post in auto)
qed

text \<open>What a completed synchronization leaves behind, beyond the configured resources.\<close>

definition all_connected :: "RouterEntity list \<Rightarrow> broker_entities \<Rightarrow> 'w infraClient \<Rightarrow> 'w infraClient \<Rightarrow> bool" where
  "all_connected res bes i i' \<longleftrightarrow> ic_initialized i' \<and>
     routers_have (res @ map broker_connector (map snd (ic_brokers i)) @ [readinessListener]) i' \<and>
     brokers_have bes i' \<and> (\<forall>(h, b) \<in> set (ic_brokers i'). broker_has [readinessQueue] b)"

definition same_nodes :: "'w infraClient \<Rightarrow> 'w infraClient \<Rightarrow> bool" where
  "same_nodes i i' \<longleftrightarrow> hosts_ok i' \<and> same_resources i i' \<and> same_factories i i' \<and> ic_hostMap i' = ic_hostMap i \<and>
     gm_keys (ic_routers i') = gm_keys (ic_routers i) \<and> gm_keys (ic_brokers i') = gm_keys (ic_brokers i)"

lemma connect_all_ok:
  assumes "hosts_ok i" and "routers_have res i" and "brokers_have bes i"
  shows "\<exists>r i' w'. connect_all sched i w = Some ((r, i'), w') \<and> same_nodes i i' \<and>
    (case r of Inl err \<Rightarrow> ic_initialized i' = ic_initialized i
     | Inr sts \<Rightarrow> all_connected res bes i i' \<and> length sts = card (gm_keys (ic_routers i)) * card (gm_keys (ic_brokers i)))"
proof -
  have n: "nodes_ok (router_keeps res) rs_host (ic_routers i)"
    unfolding router_keeps_nodes using assms by (simp add: hosts_ok_def)
  let ?cs = "map broker_connector (map snd (ic_brokers i))"
  obtain err sts m w1 where 1: "connect_routers sched i w = Some (((err, sts), i\<lparr>ic_routers := m\<rparr>), w1)"
    "nodes_ok (router_keeps res) rs_host m" "gm_keys m = gm_keys (ic_routers i)"
    "err = None \<longrightarrow> length sts = length (ic_routers i) * length (ic_brokers i) \<and>
      nodes_ok (router_keeps (res @ ?cs)) rs_host m"
    using connect_routers_ok [OF n] by blast
  let ?i1 = "i\<lparr>ic_routers := m\<rparr>"
  have h1: "hosts_ok ?i1"
    using router_keeps_nodes [of res ?i1] 1(2) by (intro hosts_ok_update(1) [OF assms(1) _ 1(3)]) simp
  have b1: "brokers_have bes ?i1" using assms(3) by (simp add: brokers_have_def)
  obtain err2 m2 w2 where 2: "applyBrokers sched (BrokerState_EnsureEntities sched [readinessQueue]) ?i1 w1 =
      Some ((err2, ?i1\<lparr>ic_brokers := m2\<rparr>), w2)"
    "hosts_ok (?i1\<lparr>ic_brokers := m2\<rparr>)" "gm_keys m2 = gm_keys (ic_brokers ?i1)" "brokers_have bes (?i1\<lparr>ic_brokers := m2\<rparr>)"
    "err2 = None \<longrightarrow> (\<forall>(h, b) \<in> set m2. broker_has [readinessQueue] b)"
    using ready_brokers [OF h1 b1] by blast
  let ?i2 = "?i1\<lparr>ic_brokers := m2\<rparr>"
  show ?thesis
  proof (cases "err = None \<and> err2 = None")
    case False
    then obtain e j v where "connect_all sched i w = Some ((Inl e, j), v)" "j = ?i1 \<or> j = ?i2"
      using 1(1) 2(1) by (cases err; cases err2) (simp_all add: connect_all_def or_return_def bindp_def)
    with h1 2(2,3) 1(3) show ?thesis by (fastforce simp: same_nodes_def same_resources_def same_factories_def)
  next
    case True
    then have r2: "routers_have (res @ ?cs) ?i2"
      using 1(4) router_keeps_nodes [of "res @ ?cs" ?i1] by (simp add: routers_have_def)
    obtain err3 m3 w3 where 3: "applyRouters sched (RouterState_EnsureEntities sched [readinessListener]) ?i2 w2 =
        Some ((err3, ?i2\<lparr>ic_routers := m3\<rparr>), w3)"
      "hosts_ok (?i2\<lparr>ic_routers := m3\<rparr>)" "gm_keys m3 = gm_keys (ic_routers ?i2)"
      "err3 = None \<longrightarrow> routers_have ((res @ ?cs) @ [readinessListener]) (?i2\<lparr>ic_routers := m3\<rparr>)"
      using ready_routers [OF 2(2) r2] by blast
    let ?i3 = "?i2\<lparr>ic_routers := m3\<rparr>"
    have same: "same_nodes i ?i3" using 1(3) 2(3) 3(2,3) by (simp add: same_nodes_def same_resources_def same_factories_def)
    show ?thesis
    proof (cases err3)
      case (Some e)
      then have "connect_all sched i w = Some ((Inl e, ?i3), w3)"
        using True 1(1) 2(1) 3(1) by (simp add: connect_all_def or_return_def bindp_def)
      with same show ?thesis by simp
    next
      case None
      let ?i4 = "?i3\<lparr>ic_initialized := True\<rparr>"
      have run: "connect_all sched i w = Some ((Inr sts, ?i4), w3)"
        using None True 1(1) 2(1) 3(1) by (simp add: connect_all_def or_return_def bindp_def)
      have "same_nodes i ?i4" using same by (auto simp: same_nodes_def same_resources_def same_factories_def hosts_ok_def)
      moreover have "all_connected res bes i ?i4"
        using 3(4) None 2(4,5) True by (simp add: all_connected_def routers_have_def brokers_have_def)
      moreover have "length sts = card (gm_keys (ic_routers i)) * card (gm_keys (ic_brokers i))"
        using 1(4) True assms(1) nodes_card unfolding hosts_ok_def by metis
      ultimately show ?thesis using run by (intro exI [of _ "Inr sts"] exI [of _ ?i4] exI [of _ w3]) simp
    qed
  qed
qed

text \<open>What every early return keeps.\<close>

definition unchanged :: "'w infraClient \<Rightarrow> 'w infraClient \<Rightarrow> bool" where
  "unchanged i j \<longleftrightarrow> hosts_ok j \<and> same_resources i j \<and> ic_initialized j = ic_initialized i"

lemma unchanged_trans: "unchanged i j \<Longrightarrow> unchanged j k \<Longrightarrow> unchanged i k"
  by (simp add: unchanged_def same_resources_def)

lemma unchanged_rest: "same_rest i j \<Longrightarrow> hosts_ok j \<Longrightarrow> unchanged i j"
  by (simp add: unchanged_def same_resources_def same_restD)

lemma unchanged_kept: "nodes_kept i j \<Longrightarrow> unchanged i j"
  by (simp add: unchanged_rest nodes_kept_def)

lemma unchanged_ports: "hosts_ok i \<Longrightarrow> unchanged i (initPorts i)"
  by (simp add: unchanged_def same_resources_def initPorts_frame)

lemma resync_ok:
  "hosts_ok i \<Longrightarrow> \<exists>i' w'. (if ic_initialized i then checkResync i else ret i) w = Some (i', w') \<and> nodes_kept i i'"
  using checkResync_ok [of i w] nodes_kept_refl [of i] by simp

text \<open>
  The nodes of \<open>i'\<close> hold everything that the client remembers, every router has a connector to
  every broker, and the entities of the readiness probes exist. What has to be configured is computed
  by a client with the same nodes and resources.
\<close>

definition synced :: "'w infraClient \<Rightarrow> bool" where
  "synced i' \<longleftrightarrow> (\<exists>j. same_nodes i' j \<and> all_configured j i') \<and>
     (\<exists>j. same_nodes i' j \<and> routers_have (map broker_connector (map snd (ic_brokers j)) @ [readinessListener]) i') \<and>
     (\<forall>(h, b) \<in> set (ic_brokers i'). broker_has [readinessQueue] b)"

lemma same_nodes_trans: "same_nodes i j \<Longrightarrow> same_nodes j k \<Longrightarrow> same_nodes i k"
  by (simp add: same_nodes_def same_resources_def same_factories_def)

lemma same_nodes_sym: "same_nodes i j \<Longrightarrow> hosts_ok i \<Longrightarrow> same_nodes j i"
  by (simp add: same_nodes_def same_resources_def same_factories_def)

lemma same_nodes_kept: "nodes_kept i j \<Longrightarrow> same_nodes i j"
  using nodes_kept_resources [of i j] nodes_kept_factories [of i j] by (simp add: same_nodes_def nodes_kept_def)

lemma same_nodes_ports: "hosts_ok i \<Longrightarrow> same_nodes i (initPorts i)"
  by (simp add: same_nodes_def same_resources_def same_factories_def initPorts_frame)

lemma same_nodes_ok: "same_nodes i j \<Longrightarrow> hosts_ok j"
  by (simp add: same_nodes_def)

lemma same_nodes_initialized: "nodes_kept i j \<Longrightarrow> ic_initialized j = ic_initialized i"
  by (simp add: nodes_kept_def same_restD)

lemma sync_nodes_ok:
  assumes "hosts_ok i" and "resources_ok i" and "rand_ok rand"
  shows "\<exists>r i' w'. sync_nodes sched rand i w = Some ((r, i'), w') \<and> same_nodes i i' \<and>
    (case r of Inl err \<Rightarrow> ic_initialized i' = ic_initialized i
     | Inr sts \<Rightarrow> ic_initialized i' \<and> synced i' \<and> length sts = card (gm_keys (ic_routers i)) * card (gm_keys (ic_brokers i)))"
proof -
  obtain i3 w3 where 3: "(if ic_initialized i then checkResync i else ret i) w = Some (i3, w3)" "nodes_kept i i3"
    using resync_ok [OF assms(1)] by blast
  obtain err4 i4 w4 where 4: "initialize sched rand i3 w3 = Some ((err4, i4), w4)" "nodes_kept i3 i4"
    using initialize_ok [OF nodes_kept_ok [OF 3(2)] assms(3)] by blast
  note k4 = nodes_kept_trans [OF 3(2) 4(2)]
  have h4: "hosts_ok i4" "resources_ok i4"
    using nodes_kept_ok [OF k4] same_resources_ok [OF nodes_kept_resources [OF k4]] assms(2) by simp_all
  show ?thesis
  proof (cases err4)
    case (Some e)
    then have "sync_nodes sched rand i w = Some ((Inl e, i4), w4)"
      using 3(1) 4(1) by (simp add: sync_nodes_def or_return_def bindp_def)
    with same_nodes_kept [OF k4] same_nodes_initialized [OF k4] show ?thesis by simp
  next
    case n4: None
    obtain err5 i5 w5 where 5: "syncConfiguration sched i4 w4 = Some ((err5, i5), w5)" "nodes_kept (initPorts i4) i5"
      "err5 = None \<longrightarrow> (\<exists>res bes. routers_have res i5 \<and> brokers_have bes i5 \<and>
         (\<forall>(k, ep) \<in> set (ic_endpoints (initPorts i4)). endpoint_in (initPorts i4) res bes ep))"
      using syncConfiguration_ok [OF h4] by blast
    have s5: "same_nodes i i5"
      using same_nodes_trans same_nodes_kept [OF k4] same_nodes_ports [OF h4(1)] same_nodes_kept [OF 5(2)] by blast
    have init5: "ic_initialized i5 = ic_initialized i"
      using same_nodes_initialized [OF 5(2)] same_nodes_initialized [OF k4] by (simp add: initPorts_frame)
    show ?thesis
    proof (cases err5)
      case (Some e)
      then have "sync_nodes sched rand i w = Some ((Inl e, i5), w5)"
        using 3(1) 4(1) 5(1) n4 by (simp add: sync_nodes_def or_return_def bindp_def)
      with s5 init5 show ?thesis by simp
    next
      case None
      then obtain res bes where rb: "routers_have res i5" "brokers_have bes i5"
        "\<forall>(k, ep) \<in> set (ic_endpoints (initPorts i4)). endpoint_in (initPorts i4) res bes ep" using 5(3) by blast
      obtain r i' w' where c: "connect_all sched i5 w5 = Some ((r, i'), w')" "same_nodes i5 i'"
        "case r of Inl err \<Rightarrow> ic_initialized i' = ic_initialized i5
         | Inr sts \<Rightarrow> all_connected res bes i5 i' \<and> length sts = card (gm_keys (ic_routers i5)) * card (gm_keys (ic_brokers i5))"
        using connect_all_ok [OF nodes_kept_ok [OF 5(2)] rb(1,2)] by blast
      have run: "sync_nodes sched rand i w = Some ((r, i'), w')"
        using 3(1) 4(1) 5(1) c(1) n4 None by (simp add: sync_nodes_def or_return_def bindp_def)
      have s': "same_nodes i i'" by (rule same_nodes_trans [OF s5 c(2)])
      have "synced i'" if con: "all_connected res bes i5 i'"
      proof -
        note con = con [unfolded all_connected_def]
        have r: "routers_have res i'" "routers_have (map broker_connector (map snd (ic_brokers i5)) @ [readinessListener]) i'"
          by (rule routers_have_mono [OF conjunct1 [OF conjunct2 [OF con]]], auto)+
        have bk: "same_nodes i' i5" by (rule same_nodes_sym [OF c(2) nodes_kept_ok [OF 5(2)]])
        have "same_nodes i5 (initPorts i4)"
          by (rule same_nodes_sym [OF same_nodes_kept [OF 5(2)]]) (simp add: initPorts_frame h4(1))
        from same_nodes_trans [OF bk this] bk all_configuredI [OF rb(3) r(1)] r(2) con
        show ?thesis unfolding synced_def by blast
      qed
      then have "case r of Inl err \<Rightarrow> ic_initialized i' = ic_initialized i
         | Inr sts \<Rightarrow> ic_initialized i' \<and> synced i' \<and> length sts = card (gm_keys (ic_routers i)) * card (gm_keys (ic_brokers i))"
        using c(3) init5 s5 by (cases r) (simp_all add: all_connected_def same_nodes_def)
      with run s' show ?thesis by blast
    qed
  qed
qed

lemma SyncAll_ok:
  assumes "hosts_ok i" and "factories_ok i" and "resources_ok i" and "rand_ok rand"
  shows "\<exists>r i' w'. SyncAll sched rand routers brokers tlsConfig i w = Some ((r, i'), w') \<and>
    hosts_ok i' \<and> resources_ok i' \<and> same_resources i i' \<and> same_factories i i' \<and>
    (case r of Inl err \<Rightarrow> ic_initialized i' = ic_initialized i
     | Inr sts \<Rightarrow> ic_initialized i' \<and> synced i' \<and>
         gm_keys (ic_routers i') = wanted_set routers \<and> gm_keys (ic_brokers i') = wanted_set brokers \<and>
         length sts = card (wanted_set routers) * card (wanted_set brokers))"
proof -
  let ?i = "i\<lparr>ic_tlsConfig := tlsConfig\<rparr>"
  have h: "hosts_ok ?i" "factories_ok ?i" using assms(1,2) by (simp_all add: hosts_ok_def factories_ok_def)
  have s0: "same_resources i ?i" "ic_initialized ?i = ic_initialized i" by (simp_all add: same_resources_def)
  obtain i1 w1 where 1: "updateRouters routers ?i w = Some (i1, w1)" "same_rest ?i i1" "hosts_ok i1"
    "gm_keys (ic_routers i1) = wanted_set routers"
    using updateRouters_ok [OF h] by blast
  have f1: "factories_ok i1" using same_rest_factories [OF 1(2)] h(2) by simp
  obtain err2 i2 w2 where 2: "updateBrokers sched brokers True i1 w1 = Some ((err2, i2), w2)" "same_rest i1 i2" "hosts_ok i2"
    "gm_keys (ic_routers i2) = gm_keys (ic_routers i1)" "err2 = None \<longrightarrow> gm_keys (ic_brokers i2) = wanted_set brokers"
    using updateBrokers_ok [OF 1(3) f1, of sched brokers True w1 "\<lambda>_. True"]
    by (elim exE conjE) (rule that, (assumption | simp)+)
  have fac: "same_factories i i2" using same_restD [OF 1(2)] same_restD [OF 2(2)] by (simp add: same_factories_def)
  have u2: "same_resources i i2" "ic_initialized i2 = ic_initialized i"
    using unchanged_trans [OF unchanged_rest [OF 1(2,3)] unchanged_rest [OF 2(2,3)]] s0
    by (simp_all add: unchanged_def same_resources_def)
  have ok2: "resources_ok i2" using same_resources_ok [OF u2(1)] assms(3) by simp
  show ?thesis
  proof (cases err2)
    case (Some e)
    then have "SyncAll sched rand routers brokers tlsConfig i w = Some ((Inl e, i2), w2)"
      using 1(1) 2(1) by (simp add: SyncAll_def or_return_def bindp_def)
    with 2(3) u2 ok2 fac show ?thesis by simp
  next
    case None
    obtain r i' w' where n: "sync_nodes sched rand i2 w2 = Some ((r, i'), w')" "same_nodes i2 i'"
      "case r of Inl err \<Rightarrow> ic_initialized i' = ic_initialized i2
       | Inr sts \<Rightarrow> ic_initialized i' \<and> synced i' \<and> length sts = card (gm_keys (ic_routers i2)) * card (gm_keys (ic_brokers i2))"
      using sync_nodes_ok [OF 2(3) ok2 assms(4)] by blast
    have run: "SyncAll sched rand routers brokers tlsConfig i w = Some ((r, i'), w')"
      using None 1(1) 2(1) n(1) by (simp add: SyncAll_def or_return_def bindp_def)
    have same: "same_resources i i'" using u2(1) n(2) by (simp add: same_nodes_def same_resources_def same_factories_def)
    have fac': "same_factories i i'" using fac n(2) by (simp add: same_nodes_def same_factories_def)
    have keys: "gm_keys (ic_routers i2) = wanted_set routers" "gm_keys (ic_brokers i2) = wanted_set brokers"
      "gm_keys (ic_routers i') = wanted_set routers" "gm_keys (ic_brokers i') = wanted_set brokers"
      using n(2) 1(4) 2(4,5) None by (simp_all add: same_nodes_def)
    have "case r of Inl err \<Rightarrow> ic_initialized i' = ic_initialized i
     | Inr sts \<Rightarrow> ic_initialized i' \<and> synced i' \<and>
         gm_keys (ic_routers i') = wanted_set routers \<and> gm_keys (ic_brokers i') = wanted_set brokers \<and>
         length sts = card (wanted_set routers) * card (wanted_set brokers)"
      using n(3) u2(2) unfolding keys by (cases r) simp_all
    with run same_nodes_ok [OF n(2)] same fac' same_resources_ok [OF same] assms(3) show ?thesis by blast
  qed
qed

text \<open>C1 (functional): \<open>SyncAll\<close> never panics, whatever the nodes answer, and keeps everything that the client
  remembers. When it fails, it does not change whether the client counts as initialized. When it succeeds,
  the client is initialized and has exactly one state for each wanted router and broker; all nodes hold
  everything that the remembered endpoints and addresses need; every router has a connector to every
  broker; and one connector status is reported for each pair of a router and a broker, which is the
  capacity of the channel that collects them.\<close>

theorem SyncAll_spec:
  assumes "hosts_ok i" and "factories_ok i" and "resources_ok i" and "rand_ok rand"
  shows "\<exists>r i' w'. SyncAll sched rand routers brokers tlsConfig i w = Some ((r, i'), w') \<and>
    hosts_ok i' \<and> resources_ok i' \<and> same_resources i i' \<and>
    (case r of Inl err \<Rightarrow> ic_initialized i' = ic_initialized i
     | Inr sts \<Rightarrow> ic_initialized i' \<and> synced i' \<and>
         gm_keys (ic_routers i') = wanted_set routers \<and> gm_keys (ic_brokers i') = wanted_set brokers \<and>
         length sts = card (wanted_set routers) * card (wanted_set brokers))"
  using SyncAll_ok [OF assms, of sched routers brokers tlsConfig w] by (elim exE conjE) (intro exI conjI, assumption+)

end
