(* ===== verification/Broker_Fake.thy ===== *)
theory Broker_Fake
  imports Broker_State
begin

text \<open>
  A concrete broker behind the client interface, in the spirit of
  \<open>pkg/amqpcommand/test/fake_client.go\<close>: its world is the list of the entities it holds, it
  carries out every creation and deletion and answers every listing. It shows that the
  hypotheses on the client can be met, and the properties of the broker state are evaluated on it.
\<close>

type_synonym fake_world = "(BrokerEntityType \<times> string) list"

definition fake_ops :: "(string \<times> (bool \<times> BrokerEntityType)) list" where
  "fake_ops =
     [(''createQueue'', (True, BrokerQueueEntity)), (''destroyQueue'', (False, BrokerQueueEntity)),
      (''createAddress'', (True, BrokerAddressEntity)), (''deleteAddress'', (False, BrokerAddressEntity)),
      (''createDivert'', (True, BrokerDivertEntity)), (''destroyDivert'', (False, BrokerDivertEntity)),
      (''addAddressSettings'', (True, BrokerAddressSettingEntity)),
      (''removeAddressSettings'', (False, BrokerAddressSettingEntity))]"

definition fake_listings :: "(string \<times> BrokerEntityType) list" where
  "fake_listings = [(''getQueueNames'', BrokerQueueEntity), (''getAddressNames'', BrokerAddressEntity),
     (''getDivertNames'', BrokerDivertEntity)]"

definition fake_reply :: "json \<Rightarrow> Message" where
  "fake_reply j = \<lparr> ApplicationProperties = [(''_AMQ_OperationSucceeded'', ABool True)], Value = AJson j \<rparr>"

definition fake_operation :: "Message \<Rightarrow> string" where
  "fake_operation m =
     (case map_of (ApplicationProperties m) ''_AMQ_OperationName'' of Some (AString s) \<Rightarrow> s | _ \<Rightarrow> '''')"

definition fake_name :: "Message \<Rightarrow> string" where
  "fake_name m =
     (case Value m of
        AJson (JArr (JStr n # _)) \<Rightarrow> n
      | AJson (JArr (JText (JObj obj) # _)) \<Rightarrow> get_str (fld obj ''name'')
      | _ \<Rightarrow> '''')"

definition fake_request :: "Message \<Rightarrow> (fake_world, error + Message) prog" where
  "fake_request m = (\<lambda>w.
     case map_of fake_ops (fake_operation m) of
       Some (add, t) \<Rightarrow>
         Some (Inr (fake_reply JNull),
           if add then (t, fake_name m) # w else filter (\<lambda>k. k \<noteq> (t, fake_name m)) w)
     | None \<Rightarrow>
         (case map_of fake_listings (fake_operation m) of
            Some t \<Rightarrow> Some (Inr (fake_reply (JArr [JArr (map (\<lambda>k. JStr (snd k)) (filter (\<lambda>k. fst k = t) w))])), w)
          | None \<Rightarrow> Some (Inr (fake_reply (JArr [])), w)))"

definition fake_client :: "fake_world Client" where
  "fake_client = \<lparr> Client_Start = (\<lambda>w. w), Client_Stop = (\<lambda>w. w), Client_ReconnectCount = (\<lambda>w. 0),
     Client_RequestWithTimeout = fake_request \<rparr>"

definition fake_state :: "fake_world BrokerState" where
  "fake_state = \<lparr> bs_host = \<lparr> Hostname = ''b'', Ip = ''ip'' \<rparr>, bs_port = 5671, bs_nextResync = 0,
     bs_initialized = True, bs_commandClient = fake_client, bs_entities = (\<lambda>_. Some []),
     bs_reconnectCount = 0 \<rparr>"

definition fake_address :: BrokerEntity where
  "fake_address = BEAddress \<lparr> ba_Name = ''a'', ba_RoutingType = RoutingTypeAnycast \<rparr>"

definition fake_bq :: BrokerQueue where
  "fake_bq = \<lparr> bq_Name = ''a'', bq_Address = ''a'', bq_RoutingType = RoutingTypeAnycast,
     bq_MaxConsumers = -1, bq_Durable = True, bq_AutoCreateAddress = False, bq_PurgeOnNoConsumers = False \<rparr>"

definition fake_filled :: "fake_world BrokerState" where
  "fake_filled = fake_state\<lparr>bs_entities :=
     ((\<lambda>_. Some [])(BrokerAddressEntity \<mapsto> [(''a'', fake_address)],
                     BrokerQueueEntity \<mapsto> [(''a'', BEQueue fake_bq)]))\<rparr>"

lemmas fake_defs = fake_ops_def fake_listings_def fake_reply_def fake_operation_def fake_name_def
  fake_request_def fake_client_def newManagementMessage_def

lemmas create_defs = BrokerQueue_Create_def BrokerAddress_Create_def BrokerDivert_Create_def
  BrokerAddressSetting_Create_def BrokerQueue_Delete_def BrokerAddress_Delete_def
  BrokerDivert_Delete_def BrokerAddressSetting_Delete_def request_ok_def doRequest_def success_def

lemma fake_create: "BrokerEntity_Create fake_client e w = Some (None, entity_key e # w)"
  by (cases e)
    (simp_all add: create_defs fake_defs bindp_def liftO_def entity_key_def queue_config_def
      setting_params_def fld_def)

lemma fake_delete: "BrokerEntity_Delete fake_client e w = Some (None, filter (\<lambda>k. k \<noteq> entity_key e) w)"
  by (cases e)
    (simp_all add: create_defs fake_defs bindp_def liftO_def entity_key_def)

lemma fake_total: "client_total fake_client"
  by (auto simp: client_total_def fake_defs success_def split: option.splits)

lemma fake_node: "broker_node fake_client set"
  by (auto simp: broker_node_def fake_create fake_delete) (simp_all add: fake_client_def)

definition in_order :: "'w sched" where
  "in_order w n = [0..<n]"

lemma fake_ensure:
  "BrokerState_EnsureEntities in_order [BEQueue fake_bq, fake_address] fake_state [] =
     Some ((None, fake_filled), [(BrokerQueueEntity, ''a''), (BrokerAddressEntity, ''a'')])"
  by (simp add: BrokerState_EnsureEntities_def fake_state_def fake_filled_def fake_address_def fake_bq_def
      lookup2_def maxOrder_def upt_rec go_group_def schedule_def in_order_def fake_create bindp_def
      completed_def isConnectionError_def liftO_def entity_key_def del: BrokerEntity_Create.simps)

lemma fake_remove:
  "BrokerState_DeleteEntities in_order [fake_address, BEQueue fake_bq] fake_filled
       [(BrokerQueueEntity, ''a''), (BrokerAddressEntity, ''a'')] =
     Some ((None, fake_state), [])"
proof -
  have "((\<lambda>_. Some [])(BrokerAddressEntity \<mapsto> [], BrokerQueueEntity \<mapsto> []))
      = (\<lambda>_. Some ([] :: (string, BrokerEntity) gomap))" by auto
  then show ?thesis
    by (simp add: BrokerState_DeleteEntities_def fake_state_def fake_filled_def fake_address_def fake_bq_def
      lookup2_def maxOrder_def upt_rec go_group_def schedule_def in_order_def fake_delete bindp_def
      completed_def isConnectionError_def liftO_def entity_key_def fun_upd_twist
      del: BrokerEntity_Delete.simps)
qed

lemma fake_state_ok: "broker_ok fake_state" "bs_commandClient fake_state = fake_client"
  by (auto simp: fake_state_def broker_ok_def store_ok_def)

section \<open>Witnesses\<close>

theorem EnsureEntities_success_witness:
  "(\<exists>x. bs_lookup fake_filled (BEQueue fake_bq) = Some x \<and> BrokerEntity_Equals x (BEQueue fake_bq)) \<and>
   (\<exists>x. bs_lookup fake_filled fake_address = Some x \<and> BrokerEntity_Equals x fake_address)"
proof -
  have "\<forall>e \<in> set [BEQueue fake_bq, fake_address].
      \<exists>x. bs_lookup fake_filled e = Some x \<and> BrokerEntity_Equals x e"
    using EnsureEntities_success [OF fake_ensure] by blast
  then show ?thesis by (metis list.set_intros)
qed

theorem EnsureEntities_idempotent_witness:
  "BrokerState_EnsureEntities in_order [BEQueue fake_bq, fake_address] fake_filled [] =
     Some ((None, fake_filled), [])"
  by (rule EnsureEntities_idempotent [OF fake_ensure])

theorem EnsureEntities_order_witness: "bs_lookup fake_filled fake_address \<noteq> None"
  by (rule EnsureEntities_order [OF fake_ensure, of fake_bq])
    (simp_all add: lookup2_def fake_state_def fake_filled_def fake_address_def fake_bq_def)

theorem DeleteEntities_success_witness:
  "lookup2 (bs_entities fake_state) BrokerAddressEntity ''a'' = None"
  using DeleteEntities_success [OF fake_remove, of BrokerAddressEntity "''a''"]
  by (simp add: fake_address_def)

theorem DeleteEntities_order_witness: "bs_lookup fake_state (BEQueue fake_bq) = None"
  by (rule DeleteEntities_order [OF fake_remove, of fake_address])
    (simp_all add: lookup2_def fake_state_def fake_filled_def fake_address_def fake_bq_def)

theorem BrokerState_invariant_witness:
  "\<exists>err b' w'. BrokerState_Initialize 7 fake_state [] = Some ((err, b'), w') \<and> broker_ok b'"
  using BrokerState_invariant [of fake_state] fake_state_ok fake_total by simp


end
