(* ===== verification/Router_Fake.thy ===== *)
theory Router_Fake
  imports Router_State Broker_Fake
begin

text \<open>
  A concrete router behind the client interface. Its world is the list of the entities it
  holds. It creates and deletes what it is asked for, except that it refuses to delete
  listeners with the error of a router that serves HTTP on them, and it answers every query
  with an empty table. The properties of the router state are evaluated on it.
\<close>

type_synonym router_world = "(string \<times> string) list"

definition router_answer :: "int \<Rightarrow> avalue \<Rightarrow> Message" where
  "router_answer code body =
     \<lparr> ApplicationProperties = [(''statusCode'', AInt code),
         (''statusDescription'', AString ''HTTP listeners cannot be deleted'')], Value = body \<rparr>"

definition router_prop :: "Message \<Rightarrow> string \<Rightarrow> string" where
  "router_prop m k = (case map_of (ApplicationProperties m) k of Some (AString s) \<Rightarrow> s | _ \<Rightarrow> '''')"

definition router_serve :: "Message \<Rightarrow> (router_world, error + Message) prog" where
  "router_serve m = (\<lambda>w.
     let key = (router_prop m ''type'', router_prop m ''name'') in
     if router_prop m ''operation'' = ''CREATE'' then Some (Inr (router_answer 201 ANull), key # w)
     else if router_prop m ''operation'' = ''DELETE'' then
       (if fst key = RouterEntityType_string RouterListenerEntity
        then Some (Inr (router_answer 500 ANull), w)
        else Some (Inr (router_answer 204 ANull), filter (\<lambda>k. k \<noteq> key) w))
     else Some (Inr (router_answer 200 (AMap [(''attributeNames'', AList []), (''results'', AList [])])), w))"

definition router_fake :: "router_world Client" where
  "router_fake = \<lparr> Client_Start = (\<lambda>w. w), Client_Stop = (\<lambda>w. w), Client_ReconnectCount = (\<lambda>w. 0),
     Client_RequestWithTimeout = router_serve \<rparr>"

definition fake_router :: "router_world RouterState" where
  "fake_router = \<lparr> rs_host = \<lparr> Hostname = ''r'', Ip = ''ip'' \<rparr>, rs_port = 55671, rs_nextResync = 0,
     rs_initialized = True, rs_commandClient = router_fake, rs_entities = (\<lambda>_. Some []),
     rs_reconnectCount = 0 \<rparr>"

definition fake_profile :: RouterEntity where
  "fake_profile = RESslProfile \<lparr> sp_Name = ''p'', sp_Ciphers = '''', sp_Protocols = ''TLSv1.2'',
     sp_CaCertFile = '''', sp_CertFile = ''c'', sp_PrivateKeyFile = ''k'' \<rparr>"

definition fake_listener :: RouterEntity where
  "fake_listener = REListener \<lparr> rl_Name = ''l'', rl_Host = ''0.0.0.0'', rl_Port = ''40000'',
     rl_Role = ''normal'', rl_SslProfile = ''p'', rl_SaslMechanisms = '''', rl_LinkCapacity = 0,
     rl_IdleTimeoutSeconds = 16, rl_InitialHandshakeTimeoutSeconds = 0, rl_PolicyVhost = '''',
     rl_AuthenticatePeer = False, rl_MultiTenant = False, rl_RequireSsl = True, rl_Http = True,
     rl_Metrics = False, rl_Healthz = False, rl_Websockets = True, rl_HttpRootDir = '''' \<rparr>"

definition fake_changed :: RouterEntity where
  "fake_changed = RESslProfile \<lparr> sp_Name = ''p'', sp_Ciphers = '''', sp_Protocols = ''TLSv1.3'',
     sp_CaCertFile = '''', sp_CertFile = ''c'', sp_PrivateKeyFile = ''k'' \<rparr>"

definition router_filled :: "router_world RouterState" where
  "router_filled = fake_router\<lparr>rs_entities :=
     ((\<lambda>_. Some [])(RouterSslProfileEntity \<mapsto> [(''p'', fake_profile)],
                     RouterListenerEntity \<mapsto> [(''l'', fake_listener)]))\<rparr>"

definition router_kept :: "router_world RouterState" where
  "router_kept = fake_router\<lparr>rs_entities :=
     ((\<lambda>_. Some [])(RouterSslProfileEntity \<mapsto> [], RouterListenerEntity \<mapsto> [(''l'', fake_listener)]))\<rparr>"

definition filled_world :: router_world where
  "filled_world = [(RouterEntityType_string RouterListenerEntity, ''l''),
     (RouterEntityType_string RouterSslProfileEntity, ''p'')]"

lemmas router_fake_defs = router_answer_def router_prop_def router_serve_def router_fake_def
  router_request_def RouterState_doRequest_def

lemmas router_state_defs = fake_router_def router_filled_def router_kept_def fake_profile_def
  fake_listener_def fake_changed_def filled_world_def

lemma router_fake_create:
  "create_task router_fake e w =
     Some (None, (RouterEntityType_string (RouterEntity_Type e), RouterEntity_GetName e) # w)"
  by (simp add: create_task_def RouterState_createEntity_def router_fake_defs getStatusCode_def bindp_def)

lemma router_fake_delete:
  "RouterEntity_Type e = RouterSslProfileEntity \<Longrightarrow>
     delete_task router_fake e w =
       Some ((None, True),
         filter (\<lambda>k. k \<noteq> (RouterEntityType_string (RouterEntity_Type e), RouterEntity_GetName e)) w)"
  by (simp add: delete_task_def RouterState_deleteEntity_def router_fake_defs getStatusCode_def bindp_def)

lemma router_fake_refuse:
  "RouterEntity_Type e = RouterListenerEntity \<Longrightarrow> delete_task router_fake e w = Some ((None, False), w)"
  by (simp add: delete_task_def RouterState_deleteEntity_def router_fake_defs getStatusCode_def bindp_def
      status_error_def getStatusDescription_def show_int_def show_nat.simps)

lemma router_fake_total: "router_client_total router_fake"
  by (auto simp: router_client_total_def router_fake_def router_serve_def Let_def query_request_def
      router_prop_def router_answer_def table_ok_def)

lemma fake_router_ok: "router_ok fake_router" "rs_commandClient fake_router = router_fake"
  by (auto simp: fake_router_def router_ok_def store_ok_def)

lemma router_fake_ensure:
  "RouterState_EnsureEntities in_order [fake_listener, fake_profile] fake_router [] =
     Some ((None, router_filled), filled_world)"
  by (simp add: RouterState_EnsureEntities_def router_state_defs lookup2_def router_maxOrder_def upt_rec
      go_group_def schedule_def in_order_def router_fake_create bindp_def completed_def
      router_isConnectionError_def liftO_def)

lemma router_fake_remove:
  "RouterState_DeleteEntities in_order [fake_listener, fake_profile] router_filled filled_world =
     Some ((None, router_kept), [(RouterEntityType_string RouterListenerEntity, ''l'')])"
  by (simp add: RouterState_DeleteEntities_def router_state_defs go_group_def schedule_def in_order_def
      upt_rec router_fake_delete router_fake_refuse bindp_def delete_err_def delete_completed_def
      router_isConnectionError_def fun_upd_twist)

section \<open>Witnesses\<close>

theorem Router_EnsureEntities_success_witness:
  "RouterState_EnsureEntities in_order [fake_listener, fake_profile] router_filled [] =
     Some ((None, router_filled), [])"
proof -
  have "consistent [fake_listener, fake_profile]"
    by (simp add: consistent_def fake_listener_def fake_profile_def)
  with Router_EnsureEntities_success [OF router_fake_ensure] show ?thesis by blast
qed

theorem Router_EnsureEntities_no_update_witness:
  "\<exists>err. RouterState_EnsureEntities in_order [fake_changed] router_filled [] =
     Some ((Some err, router_filled), [])"
  by (rule Router_EnsureEntities_no_update [of _ fake_changed _ fake_profile])
    (simp_all add: router_state_defs lookup2_def)

theorem Router_EnsureEntities_order_witness: "rs_lookup router_filled fake_profile \<noteq> None"
  by (rule Router_EnsureEntities_order
        [OF router_fake_ensure, of RouterListenerEntity "''l''" fake_listener])
    (simp_all add: router_state_defs lookup2_def)

theorem Router_DeleteEntities_success_witness:
  "rs_lookup router_kept fake_profile = None \<and> rs_lookup router_kept fake_listener \<noteq> None"
proof -
  have refused: "\<not> (\<exists>err v v'. RouterState_deleteEntity (rs_commandClient router_filled)
      (RouterEntity_Type fake_profile) (RouterEntity_GetName fake_profile) v = Some (Some err, v'))"
    by (simp add: router_state_defs RouterState_deleteEntity_def router_fake_defs getStatusCode_def bindp_def)
  have "rs_lookup router_kept fake_profile = None"
    using Router_DeleteEntities_success [OF router_fake_remove, of RouterSslProfileEntity "''p''"] refused
    by auto
  then show ?thesis by (simp add: router_state_defs lookup2_def)
qed

theorem RouterState_invariant_witness:
  "\<exists>err r' w'. RouterState_Initialize 7 fake_router [] = Some ((err, r'), w') \<and> router_ok r' \<and>
     (err = None) = rs_initialized r'"
  using RouterState_invariant [of fake_router] fake_router_ok router_fake_total by simp

section \<open>A creation that is answered by \<open>404\<close>\<close>

text \<open>\<open>createEntity\<close> has the status check of \<open>deleteEntity\<close>, with its exception for 404.\<close>

definition absent_fake :: "router_world Client" where
  "absent_fake = router_fake\<lparr>Client_RequestWithTimeout :=
     (\<lambda>m w. Some (Inr \<lparr> ApplicationProperties = [(''statusCode'', AInt 404)], Value = ANull \<rparr>, w))\<rparr>"

definition absent_router :: "router_world RouterState" where
  "absent_router = fake_router\<lparr>rs_commandClient := absent_fake\<rparr>"


end
