(* ===== verification/Infra_Fake.thy ===== *)
theory Infra_Fake
  imports Infra_Sync Router_Fake
begin

text \<open>
  A concrete infrastructure: one router, one broker, a project with an active endpoint, and nodes
  that acknowledge every request. It shows that the hypotheses on the nodes can be met, and the
  properties of the infrastructure client are evaluated on it.
\<close>

definition ack_broker :: "unit Client" where
  "ack_broker = \<lparr> Client_Start = (\<lambda>w. w), Client_Stop = (\<lambda>w. w), Client_ReconnectCount = (\<lambda>w. 0),
     Client_RequestWithTimeout = (\<lambda>m w. Some (Inr (fake_reply JNull), w)) \<rparr>"

definition ack_router :: "unit Client" where
  "ack_router = \<lparr> Client_Start = (\<lambda>w. w), Client_Stop = (\<lambda>w. w), Client_ReconnectCount = (\<lambda>w. 0),
     Client_RequestWithTimeout = (\<lambda>m w.
       Some (Inr (router_answer 200 (AMap [(''attributeNames'', AList []), (''results'', AList [])])), w)) \<rparr>"

definition ack_broker_state :: "Host \<Rightarrow> unit BrokerState" where
  "ack_broker_state h = \<lparr> bs_host = h, bs_port = 5671, bs_nextResync = 0, bs_initialized = True,
     bs_commandClient = ack_broker, bs_entities = (\<lambda>_. Some []), bs_reconnectCount = 0 \<rparr>"

definition ack_router_state :: "Host \<Rightarrow> unit RouterState" where
  "ack_router_state h = \<lparr> rs_host = h, rs_port = 55671, rs_nextResync = 0, rs_initialized = True,
     rs_commandClient = ack_router, rs_entities = (\<lambda>_. Some []), rs_reconnectCount = 0 \<rparr>"

definition host_r :: Host where "host_r = \<lparr> Hostname = ''r'', Ip = ''1'' \<rparr>"
definition host_b :: Host where "host_b = \<lparr> Hostname = ''b'', Ip = ''2'' \<rparr>"

definition fake_project :: MessagingProject where
  "fake_project = \<lparr> mp_Name = ''default'', mp_Namespace = ''n'', mp_DeletionTimestamp = None, mp_Finalizers = [],
     mp_Spec = \<lparr> ps_MessagingInfrastructureRef = None, ps_Capabilities = [] \<rparr>,
     mp_Status = \<lparr> pst_Phase = ''Active'', pst_Message = '''',
       pst_MessagingInfrastructureRef = \<lparr> ref_Name = ''i'', ref_Namespace = ''n'' \<rparr>,
       pst_Conditions = [], pst_Capabilities = [], pst_Broker = None \<rparr> \<rparr>"

definition transactional_project :: MessagingProject where
  "transactional_project = set_project_broker
     \<lparr> mb_State = MessagingAddressBrokerScheduled, mb_Host = ''b'' \<rparr> fake_project"

definition fake_queue :: "string \<Rightarrow> MessagingAddress" where
  "fake_queue name = \<lparr> ma_Name = name, ma_Namespace = ''n'', ma_DeletionTimestamp = None, ma_Finalizers = [],
     ma_Spec = \<lparr> as_Address = None, as_Anycast = None, as_Multicast = None,
       as_Queue = Some \<lparr> DeadLetterAddress = '''', ExpiryAddress = '''' \<rparr>, as_Topic = None,
       as_Subscription = None, as_DeadLetter = None \<rparr>,
     ma_Status = \<lparr> ast_Phase = '''', ast_Message = '''', ast_Conditions = [],
       ast_Brokers = [\<lparr> mb_State = MessagingAddressBrokerScheduled, mb_Host = ''b'' \<rparr>], ast_Type = ''queue'' \<rparr> \<rparr>"

definition fake_infra :: "MessagingProject \<Rightarrow> unit infraClient" where
  "fake_infra project =
     \<lparr> ic_routers = [(host_r, ack_router_state host_r)], ic_brokers = [(host_b, ack_broker_state host_b)],
       ic_hostMap = [''r'' \<mapsto> host_r, ''b'' \<mapsto> host_b], ic_initialized = True, ic_tlsConfig = None,
       ic_ports = [], ic_addresses = [],
       ic_endpoints = [(key_of (REndpoint (example_endpoint ''n'' ''e'' example_ports)),
                        example_endpoint ''n'' ''e'' example_ports)],
       ic_projects = [(default_key ''n'', project)],
       ic_routerStateFactory = (\<lambda>h p t w. Some (ack_router_state h, w)),
       ic_brokerStateFactory = (\<lambda>h p t w. Some (ack_broker_state h, w)),
       ic_clock = (\<lambda>w. 0), ic_resyncInterval = 1800 * second \<rparr>"

lemma ack_broker_good: "broker_good (ack_broker_state h)" "bs_host (ack_broker_state h) = h"
  by (auto simp: broker_good_def broker_ok_def ack_broker_state_def store_ok_def client_total_def
      ack_broker_def fake_reply_def success_def)

lemma ack_router_good: "router_good (ack_router_state h)" "rs_host (ack_router_state h) = h"
  by (auto simp: router_good_def router_ok_def ack_router_state_def store_ok_def router_client_total_def
      ack_router_def router_answer_def table_ok_def)

lemma fake_infra_hosts: "hosts_ok (fake_infra p)"
  by (simp add: hosts_ok_def fake_infra_def nodes_ok_def gm_ok_def ack_broker_good ack_router_good)

lemma fake_infra_factories: "factories_ok (fake_infra p)"
  by (simp add: factories_ok_def fake_infra_def ack_broker_good ack_router_good)

lemma fake_infra_simps [simp]:
  "ic_initialized (fake_infra p)" "ic_projects (fake_infra p) = [(default_key ''n'', p)]"
  "ic_brokers (fake_infra p) = [(host_b, ack_broker_state host_b)]"
  "ic_routers (fake_infra p) = [(host_r, ack_router_state host_r)]"
  "ic_addresses (fake_infra p) = []"
  by (simp_all add: fake_infra_def)

lemmas queue_defs = fake_queue_def fake_project_def example_endpoint_def

section \<open>Nodes\<close>

theorem updateRouters_spec_witness:
  "\<exists>i' w'. updateRouters [host_r, \<lparr> Hostname = ''s'', Ip = ''3'' \<rparr>] (fake_infra fake_project) () = Some (i', w') \<and>
     map_of (ic_routers i') host_r = Some (ack_router_state host_r)"
proof -
  have h: "hostmap_ok (\<lambda>n. n \<noteq> ''b'') (fake_infra fake_project)"
    by (simp add: hostmap_ok_def fake_infra_def host_r_def host_b_def)
  from updateRouters_spec [OF fake_infra_hosts fake_infra_factories _ h,
      of "[host_r, \<lparr> Hostname = ''s'', Ip = ''3'' \<rparr>]" "()"]
  show ?thesis by (auto simp: host_r_def)
qed


theorem randomResync_bounds_witness:
  "\<exists>t w'. randomResync (\<lambda>n w. Some (0, w)) 5 (fake_infra fake_project) () = Some (t, w') \<and>
     5 + 1810 * second \<le> t \<and> t < 5 + 1830 * second"
proof (rule randomResync_bounds)
  show "rand_ok (\<lambda>n w :: unit. Some (0, w))" by (simp add: rand_ok_def)
  show "ic_resyncInterval (fake_infra fake_project) =
      ic_resyncInterval (NewInfra (\<lambda>h p t. panic) (\<lambda>h p t. panic) (\<lambda>w. 0))"
    by (simp only: NewInfra_def fake_infra_def infraClient.simps)
qed

theorem ScheduleAddress_spec_witness:
  "ScheduleAddress (fake_queue ''q'') (fake_infra transactional_project) =
     (None, set_address_brokers [\<lparr> mb_State = MessagingAddressBrokerScheduled, mb_Host = ''b'' \<rparr>] (fake_queue ''q''))"
  using ScheduleAddress_spec [OF fake_infra_simps(1) fake_infra_hosts, of "fake_queue ''q''" transactional_project]
  by (simp add: fake_queue_def transactional_project_def set_project_broker_def)

section \<open>Entities\<close>

definition fake_links :: "RouterEntity list" where
  "fake_links = queue_links ''messaging.n'' (fake_queue ''q'') ''messaging.n/q'' ''b'' (ack_broker_state host_b)"

lemma fake_queue_built:
  "buildRouterAddressEntities (fake_infra fake_project) (example_endpoint ''n'' ''e'' []) (fake_queue ''q'') =
     Some (Inr (router_address (addressName ''messaging.n'' (fake_queue ''q'')) ''messaging.n/q'' ''balanced'' True # fake_links))"
  by (simp add: buildRouterAddressEntities_def isEndpointActive_def MessagingEndpointActive_def queue_defs
      address_entities_def fake_links_def cons_address_def broker_of_def host_of_def fake_infra_def
      MessagingAddress_GetAddress_def qualifiedAddress_def host_b_def Let_def)

theorem address_connections_witness:
  "\<exists>state. state \<in> snd ` set (ic_brokers (fake_infra fake_project)) \<and>
     connection_of (hd fake_links) = Some (connectorName state)"
proof -
  have e: "hd fake_links \<in> set (router_address (addressName ''messaging.n'' (fake_queue ''q'')) ''messaging.n/q'' ''balanced'' True # fake_links)"
    by (simp add: fake_links_def queue_links_def)
  have "connection_of (hd fake_links) = Some (connectorName (ack_broker_state host_b))"
    by (simp add: fake_links_def queue_links_def auto_link_def)
  from address_connections [OF fake_queue_built e this] this show ?thesis by auto
qed




section \<open>Batches\<close>

definition fake_request_of :: "nat \<Rightarrow> resource \<Rightarrow> request" where
  "fake_request_of n r = \<lparr> req_id = n, req_resource = r \<rparr>"


lemma fake_sync:
  "doSync in_order [fake_request_of 1 (RProject fake_project)] (fake_infra fake_project) () =
     Some (([(fake_request_of 1 (RProject fake_project), None)], fake_infra fake_project), ())"
  by (simp add: doSync_def fake_request_of_def sync_refused_def sync_valid_def needs_project_def buildEntities_def
      buildRouterProjectEntities_def syncEntities_def bindp_def liftO_def applyBrokers_def apply_all_def go_group_def
      schedule_def in_order_def ensure_broker_def entities_for_def ack_broker_state_def fake_infra_def
      key_of_def default_key_def fake_project_def)

theorem doSync_answers_witness:
  "mset (map fst [(fake_request_of 1 (RProject fake_project), None :: error option)]) =
     mset [fake_request_of 1 (RProject fake_project)]"
  by (rule doSync_answers [OF fake_sync])

lemma fake_delete_all:
  "\<exists>out i' w'. doDelete in_order [fake_request_of 1 (RProject fake_project)]
       ((fake_infra fake_project)\<lparr>ic_initialized := False\<rparr>) () =
     Some ((out, i'), w')"
  by (simp add: doDelete_def)

theorem doDelete_answers_witness:
  "\<exists>out i' w'. doDelete in_order [fake_request_of 1 (RProject fake_project)]
       ((fake_infra fake_project)\<lparr>ic_initialized := False\<rparr>) () = Some ((out, i'), w') \<and>
     mset (map (req_id \<circ> fst) out) = {#1#}"
proof -
  obtain out i' w' where d: "doDelete in_order [fake_request_of 1 (RProject fake_project)]
       ((fake_infra fake_project)\<lparr>ic_initialized := False\<rparr>) () = Some ((out, i'), w')"
    using fake_delete_all by blast
  from doDelete_answers [OF d] d show ?thesis by (simp add: fake_request_of_def)
qed

end
