(* ===== verification/Infra_Run.thy ===== *)
theory Infra_Run
  imports Infra_SyncAll Infra_Fake
begin

text \<open>
  The life of an infrastructure client: every method takes the lock, so a run is a sequence of
  complete calls. The invariant holds in every state that a new client can reach, whatever the nodes
  answer, however the goroutines are scheduled and in whatever order the Go maps are visited.
\<close>

section \<open>Steps\<close>

text \<open>The maps of a client in another order: every visit of a Go map may use its own.\<close>

definition reordered :: "'w infraClient \<Rightarrow> 'w infraClient \<Rightarrow> bool" where
  "reordered i i' \<longleftrightarrow> (\<exists>rs bs ps as es pr.
     i' = i\<lparr>ic_routers := rs, ic_brokers := bs, ic_ports := ps, ic_addresses := as, ic_endpoints := es, ic_projects := pr\<rparr> \<and>
     mset rs = mset (ic_routers i) \<and> mset bs = mset (ic_brokers i) \<and> mset ps = mset (ic_ports i) \<and>
     mset as = mset (ic_addresses i) \<and> mset es = mset (ic_endpoints i) \<and> mset pr = mset (ic_projects i))"

inductive infra_step :: "'w infraClient \<Rightarrow> 'w infraClient \<Rightarrow> bool" where
  sync_all: "SyncAll sched rand routers brokers tlsConfig i w = Some ((r, i'), w') \<Longrightarrow> rand_ok rand \<Longrightarrow> infra_step i i'"
| sync: "doSync sched reqs i w = Some ((out, i'), w') \<Longrightarrow> infra_step i i'"
| delete: "doDelete sched reqs i w = Some ((out, i'), w') \<Longrightarrow> infra_step i i'"
| delete_broker: "DeleteBroker sched host i w = Some ((err, i'), w') \<Longrightarrow> infra_step i i'"
| allocate: "AllocatePorts endpoint protocols i = (err, endpoint', i') \<Longrightarrow> infra_step i i'"
| free: "FreePorts endpoint i = (endpoint', i') \<Longrightarrow> infra_step i i'"
| order: "reordered i i' \<Longrightarrow> infra_step i i'"

inductive reachable :: "'w infraClient \<Rightarrow> 'w infraClient \<Rightarrow> bool" for i0 where
  start: "reachable i0 i0"
| step: "reachable i0 i \<Longrightarrow> infra_step i i' \<Longrightarrow> reachable i0 i'"

section \<open>The invariant\<close>

definition client_ok :: "'w infraClient \<Rightarrow> bool" where
  "client_ok i \<longleftrightarrow> hosts_ok i \<and> factories_ok i \<and> resources_ok i"

lemma gm_ok_reorder: "mset m' = mset m \<Longrightarrow> gm_ok m' = gm_ok m"
  unfolding gm_ok_def by (metis mset_eq_imp_distinct_iff mset_map)

lemma map_of_reorder:
  assumes "mset m' = mset m" and "gm_ok m"
  shows "map_of m' = map_of m"
proof
  fix k
  have "set m' = set m" "gm_ok m'" using assms mset_eq_setD gm_ok_reorder by blast+
  then have "map_of m' k = Some v \<longleftrightarrow> map_of m k = Some v" for v
    using gm_in_set [of m' k v] gm_in_set [of m k v] assms(2) by simp
  then show "map_of m' k = map_of m k" by (metis option.exhaust)
qed

lemma reordered_ok:
  assumes "reordered i i'" and "client_ok i"
  shows "client_ok i'"
proof -
  obtain rs bs ps as es pr where i': "i' = i\<lparr>ic_routers := rs, ic_brokers := bs, ic_ports := ps, ic_addresses := as,
      ic_endpoints := es, ic_projects := pr\<rparr>"
    and m: "mset rs = mset (ic_routers i)" "mset bs = mset (ic_brokers i)" "mset as = mset (ic_addresses i)"
      "mset es = mset (ic_endpoints i)" "mset pr = mset (ic_projects i)"
    using assms(1) unfolding reordered_def by blast
  note ok = assms(2) [unfolded client_ok_def hosts_ok_def nodes_ok_def resources_ok_def]
  have "set rs = set (ic_routers i)" "set bs = set (ic_brokers i)" using m(1,2) mset_eq_setD by blast+
  then have "hosts_ok i'"
    using ok gm_ok_reorder [OF m(1)] gm_ok_reorder [OF m(2)] unfolding i' hosts_ok_def nodes_ok_def by simp
  moreover have "map_of as = map_of (ic_addresses i)" "map_of pr = map_of (ic_projects i)"
    using map_of_reorder [OF m(3)] map_of_reorder [OF m(5)] ok by blast+
  then have "resources_ok i'"
    using ok gm_ok_reorder [OF m(3)] gm_ok_reorder [OF m(4)] gm_ok_reorder [OF m(5)]
    unfolding i' resources_ok_def has_project_def by simp
  moreover have "factories_ok i'" using ok unfolding i' factories_ok_def by simp
  ultimately show ?thesis by (simp add: client_ok_def)
qed

lemma client_okI:
  "hosts_ok i' \<Longrightarrow> resources_ok i' \<Longrightarrow> same_factories i i' \<Longrightarrow> client_ok i \<Longrightarrow> client_ok i'"
  using same_factories_ok [of i i'] by (simp add: client_ok_def)

lemma delete_step_ok:
  assumes "doDelete sched reqs i w = Some ((out, i'), w')" and "client_ok i"
  shows "client_ok i'"
proof (cases "ic_initialized i")
  case False
  with assms show ?thesis by (auto simp: doDelete_def split: if_splits)
next
  case True
  have ok: "hosts_ok i" "resources_ok i" using assms(2) by (simp_all add: client_ok_def)
  have "\<forall>req \<in> set reqs. \<not> crashes i req" using doDelete_None [OF ok(1) True, of sched reqs w] assms(1) by simp
  from doDelete_ok [OF ok this, of sched w] assms(1) have "hosts_ok i' \<and> resources_ok i' \<and> same_factories i i'" by auto
  with client_okI [OF _ _ _ assms(2)] show ?thesis by blast
qed

lemma rest_step_ok:
  assumes "same_rest i i'" and "hosts_ok i'" and "client_ok i"
  shows "client_ok i'"
proof -
  have "same_resources i i'" "same_factories i i'"
    using same_restD [OF assms(1)] by (simp_all add: same_resources_def same_factories_def)
  with same_resources_ok [of i i'] client_okI [OF assms(2) _ _ assms(3)] assms(3) show ?thesis
    by (simp add: client_ok_def)
qed

lemma delete_broker_step_ok:
  assumes "DeleteBroker sched host i w = Some ((err, i'), w')" and "client_ok i"
  shows "client_ok i'"
proof -
  let ?new = "map bs_host (filter (\<lambda>b. Hostname (bs_host b) \<noteq> host) (map snd (ic_brokers i)))"
  have "hosts_ok i" "factories_ok i" using assms(2) by (simp_all add: client_ok_def)
  from updateBrokers_ok [OF this, of sched ?new False w "\<lambda>_. True"]
  obtain err1 i1 w1 where u: "updateBrokers sched ?new False i w = Some ((err1, i1), w1)" "same_rest i i1" "hosts_ok i1"
    by (elim exE conjE) (rule that)
  have "i' = i \<or> i' = i1"
    using assms(1) u(1) by (auto simp: DeleteBroker_def Let_def split: if_splits)
  with rest_step_ok [OF u(2,3) assms(2)] assms(2) show ?thesis by blast
qed

lemma ports_step_ok: "client_ok (i\<lparr>ic_ports := ps\<rparr>) = client_ok i"
  by (simp add: client_ok_def hosts_ok_def factories_ok_def resources_ok_def has_project_def)

lemma infra_step_ok: "infra_step i i' \<Longrightarrow> client_ok i \<Longrightarrow> client_ok i'"
proof (induction rule: infra_step.induct)
  case (sync_all sched rand routers brokers tlsConfig i w r i' w')
  have "hosts_ok i" "factories_ok i" "resources_ok i" using sync_all.prems by (simp_all add: client_ok_def)
  from SyncAll_ok [OF this sync_all(2), of sched routers brokers tlsConfig w] sync_all(1)
  have "hosts_ok i' \<and> resources_ok i' \<and> same_factories i i'" by auto
  with client_okI [OF _ _ _ sync_all.prems] show ?case by blast
next
  case (sync sched reqs i w out i' w')
  have "hosts_ok i" "resources_ok i" using sync.prems by (simp_all add: client_ok_def)
  from doSync_ok [OF this, of sched reqs w] sync(1)
  have "hosts_ok i' \<and> resources_ok i' \<and> same_factories i i'" by auto
  with client_okI [OF _ _ _ sync.prems] show ?case by blast
next
  case (delete sched reqs i w out i' w')
  from delete_step_ok [OF this] show ?case .
next
  case (delete_broker sched host i w err i' w')
  from delete_broker_step_ok [OF this] show ?case .
next
  case (allocate endpoint protocols i err endpoint' i')
  then show ?case by (auto simp: AllocatePorts_def ports_step_ok split: if_splits prod.splits)
next
  case (free endpoint i endpoint' i')
  then show ?case by (auto simp: FreePorts_def freePortsInternal_def ports_step_ok split: if_splits)
next
  case (order i i')
  from reordered_ok [OF this] show ?case .
qed

lemma reachable_ok: "reachable i0 i \<Longrightarrow> client_ok i0 \<Longrightarrow> client_ok i"
  by (induction rule: reachable.induct) (auto intro: infra_step_ok)

lemma NewInfra_fields:
  "ic_routers (NewInfra rf bf clk) = []" "ic_brokers (NewInfra rf bf clk) = []"
  "ic_addresses (NewInfra rf bf clk) = []" "ic_endpoints (NewInfra rf bf clk) = []"
  "ic_projects (NewInfra rf bf clk) = []" "ic_routerStateFactory (NewInfra rf bf clk) = rf"
  "ic_brokerStateFactory (NewInfra rf bf clk) = bf" "ic_initialized (NewInfra rf bf clk) = False"
  by (simp_all only: NewInfra_def infraClient.simps)

lemma NewInfra_ok: "factories_ok (NewInfra rf bf clk) \<Longrightarrow> client_ok (NewInfra rf bf clk)"
  by (simp add: client_ok_def hosts_ok_def nodes_ok_def resources_ok_def NewInfra_fields)

text \<open>C2 (invariant): in every state that a new client can reach through its methods, under any schedule of the
  goroutines, any answers of the nodes and any order of the maps, the invariants hold: every node state
  is well formed and filed under its host, and every remembered address has a remembered project. In such a
  state, neither a batch of synchronizations nor \<open>SyncAll\<close> can panic.\<close>

theorem reachable_invariant:
  assumes "reachable (NewInfra rf bf clk) i" and "factories_ok (NewInfra rf bf clk)" and "rand_ok rand"
  shows "hosts_ok i \<and> resources_ok i \<and> doSync sched reqs i w \<noteq> None \<and>
    SyncAll sched rand routers brokers tlsConfig i w \<noteq> None"
proof -
  have ok: "hosts_ok i" "factories_ok i" "resources_ok i"
    using reachable_ok [OF assms(1) NewInfra_ok [OF assms(2)]] by (simp_all add: client_ok_def)
  have "doSync sched reqs i w \<noteq> None" using doSync_ok [OF ok(1,3), of sched reqs w] by auto
  moreover have "SyncAll sched rand routers brokers tlsConfig i w \<noteq> None"
    using SyncAll_ok [OF ok assms(3), of sched routers brokers tlsConfig w] by auto
  ultimately show ?thesis using ok by blast
qed

section \<open>A crash\<close>

text \<open>A client without nodes, on which the calls are easy to follow.\<close>

definition bare :: "bool \<Rightarrow> portmap \<Rightarrow> (resourceKey, MessagingEndpoint) gomap \<Rightarrow> (resourceKey, MessagingProject) gomap
    \<Rightarrow> unit infraClient" where
  "bare initialized ports endpoints projects =
     \<lparr> ic_routers = [], ic_brokers = [], ic_hostMap = Map.empty, ic_initialized = initialized, ic_tlsConfig = None,
       ic_ports = ports, ic_addresses = [], ic_endpoints = endpoints, ic_projects = projects,
       ic_routerStateFactory = (\<lambda>h p t w. Some (ack_router_state h, w)),
       ic_brokerStateFactory = (\<lambda>h p t w. Some (ack_broker_state h, w)),
       ic_clock = (\<lambda>w. 0), ic_resyncInterval = 1800 * second \<rparr>"

definition new_infra :: "unit infraClient" where
  "new_infra = NewInfra (\<lambda>h p t w. Some (ack_router_state h, w)) (\<lambda>h p t w. Some (ack_broker_state h, w)) (\<lambda>w. 0)"

lemma new_bare: "new_infra = bare False (map (\<lambda>i. (i, None)) [40000..40099]) [] []"
  unfolding new_infra_def NewInfra_def bare_def by (rule refl)

lemma new_infra_factories: "factories_ok new_infra"
  unfolding new_infra_def by (simp add: factories_ok_def NewInfra_fields ack_broker_good ack_router_good)

abbreviation crash_endpoint :: MessagingEndpoint where
  "crash_endpoint \<equiv> example_endpoint ''n'' ''e'' []"

abbreviation crash_key :: resourceKey where
  "crash_key \<equiv> key_of (REndpoint crash_endpoint)"

lemma zero_rand: "rand_ok (\<lambda>n w. Some (0, w))"
  by (simp add: rand_ok_def)

lemma bare_sync_all:
  "SyncAll in_order (\<lambda>n w. Some (0, w)) [] [] None (bare False ps [] []) () = Some ((Inr [], bare True ps [] []), ())"
  by (simp add: SyncAll_def sync_nodes_def connect_all_def connect_routers_def updateRouters_def updateBrokers_def
      or_return_def bindp_def wanted_hosts_def initialize_def applyRouters_def applyBrokers_def apply_all_def
      syncConfiguration_def initPorts_def Let_def liftO_def syncEntities_def bare_def)

lemma bare_sync_project:
  "doSync in_order [fake_request_of 1 (RProject fake_project)] (bare True ps [] []) () =
     Some (([(fake_request_of 1 (RProject fake_project), None)], bare True ps [] [(default_key ''n'', fake_project)]), ())"
  by (simp add: doSync_def fake_request_of_def sync_refused_def sync_valid_def needs_project_def buildEntities_def
      buildRouterProjectEntities_def syncEntities_def bindp_def liftO_def bare_def
      key_of_def default_key_def fake_project_def)

lemma bare_sync_endpoint:
  "doSync in_order [fake_request_of 2 (REndpoint crash_endpoint)] (bare True ps [] [(default_key ''n'', p)]) () =
     Some (([(fake_request_of 2 (REndpoint crash_endpoint), None)],
       bare True ps [(crash_key, crash_endpoint)] [(default_key ''n'', p)]), ())"
  by (simp add: doSync_def fake_request_of_def sync_refused_def sync_valid_def needs_project_def buildEntities_def
      buildRouterEndpointEntities_def syncEntities_def bindp_def liftO_def bare_def default_key_def key_of_def
      example_endpoint_def)

lemma bare_delete_project:
  "doDelete in_order [fake_request_of 3 (RProject fake_project)]
     (bare True ps [(crash_key, crash_endpoint)] [(default_key ''n'', p)]) () =
     Some (([(fake_request_of 3 (RProject fake_project), None)], bare True ps [(crash_key, crash_endpoint)] []), ())"
  by (simp add: doDelete_def fake_request_of_def delete_refused_def delete_valid_def buildEntities_def
      buildRouterProjectEntities_def deleteEntities_def applyRouters_def applyBrokers_def apply_all_def bindp_def liftO_def
      bare_def default_key_def key_of_def fake_project_def)

lemma crash_reachable: "reachable new_infra (bare True (map (\<lambda>i. (i, None)) [40000..40099]) [(crash_key, crash_endpoint)] [])"
proof -
  let ?ps = "map (\<lambda>i. (i, None)) [40000..40099]"
  have "reachable new_infra (bare True ?ps [] [])"
    unfolding new_bare by (rule reachable.step [OF reachable.start infra_step.sync_all [OF bare_sync_all zero_rand]])
  then have "reachable new_infra (bare True ?ps [] [(default_key ''n'', fake_project)])"
    using infra_step.sync [OF bare_sync_project] by (rule reachable.step)
  then have "reachable new_infra (bare True ?ps [(crash_key, crash_endpoint)] [(default_key ''n'', fake_project)])"
    using infra_step.sync [OF bare_sync_endpoint] by (rule reachable.step)
  then show ?thesis using infra_step.delete [OF bare_delete_project] by (rule reachable.step)
qed

lemma crash_state: "crashes (bare True ps [(crash_key, crash_endpoint)] []) (fake_request_of 4 (RAddress (fake_queue ''q'')))"
  by (simp add: crashes_def fake_request_of_def bare_def active_in_def isEndpointActive_def MessagingEndpointActive_def
      example_endpoint_def fake_queue_def)

lemma bare_hosts: "hosts_ok (bare b ps es pr)"
  by (simp add: hosts_ok_def nodes_ok_def bare_def)

lemma bare_initialized: "ic_initialized (bare True ps es pr)"
  by (simp add: bare_def)

text \<open>C34 (error): the crash of a deletion can really happen. A client reaches, through successful calls only, a
  state in which the deletion of an address dereferences a missing project: a project and an active
  endpoint are synchronized, and the project is deleted before the endpoint.\<close>

theorem delete_crash:
  "\<exists>i. reachable new_infra i \<and>
     doDelete in_order [fake_request_of 4 (RAddress (fake_queue ''q''))] i () = None"
proof -
  let ?i = "bare True (map (\<lambda>i. (i, None)) [40000..40099]) [(crash_key, crash_endpoint)] []"
  have "doDelete in_order [fake_request_of 4 (RAddress (fake_queue ''q''))] ?i () = None"
    using doDelete_None [OF bare_hosts bare_initialized] crash_state by fastforce
  with crash_reachable show ?thesis by blast
qed

section \<open>Witnesses\<close>

lemma fake_infra_resources: "resources_ok (fake_infra p)"
  by (simp add: resources_ok_def fake_infra_def gm_ok_def)

theorem doSync_spec_witness:
  "\<exists>out i' w'. doSync in_order [fake_request_of 1 (RProject fake_project)] (fake_infra fake_project) () = Some ((out, i'), w') \<and>
     hosts_ok i' \<and> resources_ok i'"
  using doSync_spec [OF fake_infra_hosts fake_infra_resources] by metis

theorem doDelete_panics_witness:
  "doDelete in_order [fake_request_of 4 (RAddress (fake_queue ''q''))] (bare True [] [(crash_key, crash_endpoint)] []) () = None"
proof -
  have "\<exists>req \<in> set [fake_request_of 4 (RAddress (fake_queue ''q''))]. \<exists>a. req_resource req = RAddress a \<and>
      active_in (bare True [] [(crash_key, crash_endpoint)] []) (ma_Namespace a) \<noteq> [] \<and>
      map_of (ic_projects (bare True [] [(crash_key, crash_endpoint)] [])) (default_key (ma_Namespace a)) = None"
    using crash_state [of "[]"] unfolding crashes_iff by simp
  with doDelete_panics [OF bare_hosts bare_initialized] show ?thesis by blast
qed


theorem SyncAll_spec_witness:
  "\<exists>r i' w'. SyncAll in_order (\<lambda>n w. Some (0, w)) [host_r] [host_b] None (fake_infra fake_project) () = Some ((r, i'), w') \<and>
     hosts_ok i' \<and> resources_ok i'"
  using SyncAll_spec [OF fake_infra_hosts [of fake_project] fake_infra_factories [of fake_project]
      fake_infra_resources [of fake_project] zero_rand, of in_order "[host_r]" "[host_b]" None "()"]
  by (elim exE conjE) (intro exI conjI, assumption+)

theorem reachable_invariant_witness:
  "SyncAll in_order (\<lambda>n w. Some (0, w)) [host_r] [host_b] None
     (bare True (map (\<lambda>i. (i, None)) [40000..40099]) [(crash_key, crash_endpoint)] []) () \<noteq> None"
  using reachable_invariant [OF crash_reachable [unfolded new_infra_def] new_infra_factories [unfolded new_infra_def] zero_rand]
  by blast

end
