(* ===== verification/Infra_Stop.thy ===== *)
theory Infra_Stop
  imports Infra
begin

text \<open>
  Starting and stopping an infrastructure client: the two goroutines of \<open>Start\<close>, \<open>Shutdown\<close> and
  the manager that owns the clients (\<open>pkg/state/infra.go\<close>, \<open>pkg/state/manager.go\<close>). The goroutines
  and the caller of \<open>Shutdown\<close> are a state machine over the lock and the unbuffered stop channels.
\<close>

section \<open>Goroutines, lock and channels\<close>

datatype worker = Syncer | Deleter

text \<open>
  Where a goroutine is: at the \<open>select\<close> of its loop, collecting requests, waiting for the lock with a
  batch of requests, working on the batch with the lock, about to confirm that it stops, or gone.
\<close>

datatype worker_pc = WSelect | WCollect | WLock | WWork | WStopping | WStopped

text \<open>Where the caller of \<open>Shutdown\<close> is: not there yet, waiting for the lock, and then holding it.\<close>

datatype shutdown_pc = SIdle | SLock | SStopSyncer | SWaitSyncer | SStopDeleter | SWaitDeleter | SClose | SDone

datatype lock_owner = Worker worker | Closer

record machine =
  ms_lock :: "lock_owner option"
  ms_syncer :: worker_pc
  ms_deleter :: worker_pc
  ms_shutdown :: shutdown_pc

fun pc :: "worker \<Rightarrow> machine \<Rightarrow> worker_pc" where
  "pc Syncer s = ms_syncer s"
| "pc Deleter s = ms_deleter s"

fun set_pc :: "worker \<Rightarrow> worker_pc \<Rightarrow> machine \<Rightarrow> machine" where
  "set_pc Syncer p s = s\<lparr>ms_syncer := p\<rparr>"
| "set_pc Deleter p s = s\<lparr>ms_deleter := p\<rparr>"

fun stop_pc :: "worker \<Rightarrow> shutdown_pc" where
  "stop_pc Syncer = SStopSyncer"
| "stop_pc Deleter = SStopDeleter"

fun wait_pc :: "worker \<Rightarrow> shutdown_pc" where
  "wait_pc Syncer = SWaitSyncer"
| "wait_pc Deleter = SWaitDeleter"

fun next_pc :: "worker \<Rightarrow> shutdown_pc" where
  "next_pc Syncer = SStopDeleter"
| "next_pc Deleter = SClose"

text \<open>
  The default case of the \<open>select\<close> is only taken when nobody offers a value on the stop channel; the
  channels are unbuffered, so a send and its receive are one step.
\<close>

inductive machine_step :: "machine \<Rightarrow> machine \<Rightarrow> bool" where
  poll: "pc a s = WSelect \<Longrightarrow> ms_shutdown s \<noteq> stop_pc a \<Longrightarrow> machine_step s (set_pc a WCollect s)"
| nothing: "pc a s = WCollect \<Longrightarrow> machine_step s (set_pc a WSelect s)"
| batch: "pc a s = WCollect \<Longrightarrow> machine_step s (set_pc a WLock s)"
| lock: "pc a s = WLock \<Longrightarrow> ms_lock s = None \<Longrightarrow> machine_step s (set_pc a WWork (s\<lparr>ms_lock := Some (Worker a)\<rparr>))"
| unlock: "pc a s = WWork \<Longrightarrow> machine_step s (set_pc a WSelect (s\<lparr>ms_lock := None\<rparr>))"
| stop: "pc a s = WSelect \<Longrightarrow> ms_shutdown s = stop_pc a \<Longrightarrow>
    machine_step s (set_pc a WStopping (s\<lparr>ms_shutdown := wait_pc a\<rparr>))"
| stopped: "pc a s = WStopping \<Longrightarrow> ms_shutdown s = wait_pc a \<Longrightarrow>
    machine_step s (set_pc a WStopped (s\<lparr>ms_shutdown := next_pc a\<rparr>))"
| shutdown: "ms_shutdown s = SIdle \<Longrightarrow> machine_step s (s\<lparr>ms_shutdown := SLock\<rparr>)"
| shutdown_lock: "ms_shutdown s = SLock \<Longrightarrow> ms_lock s = None \<Longrightarrow>
    machine_step s (s\<lparr>ms_shutdown := SStopSyncer, ms_lock := Some Closer\<rparr>)"
| shutdown_nodes: "ms_shutdown s = SClose \<Longrightarrow> machine_step s (s\<lparr>ms_shutdown := SDone, ms_lock := None\<rparr>)"

inductive_cases machine_stepE: "machine_step s s'"

abbreviation machine_steps :: "machine \<Rightarrow> machine \<Rightarrow> bool" where
  "machine_steps \<equiv> machine_step\<^sup>*\<^sup>*"

definition started :: machine where
  "started = \<lparr> ms_lock = None, ms_syncer = WSelect, ms_deleter = WSelect, ms_shutdown = SIdle \<rparr>"

section \<open>Mutual exclusion\<close>

definition closing :: "shutdown_pc \<Rightarrow> bool" where
  "closing p \<longleftrightarrow> p \<notin> {SIdle, SLock, SDone}"

definition lock_ok :: "machine \<Rightarrow> bool" where
  "lock_ok s \<longleftrightarrow>
     (\<forall>a. pc a s = WWork \<longleftrightarrow> ms_lock s = Some (Worker a)) \<and>
     (closing (ms_shutdown s) \<longleftrightarrow> ms_lock s = Some Closer) \<and>
     (ms_syncer s \<in> {WStopping, WStopped} \<longrightarrow> ms_shutdown s \<in> {SWaitSyncer, SStopDeleter, SWaitDeleter, SClose, SDone}) \<and>
     (ms_deleter s \<in> {WStopping, WStopped} \<longrightarrow> ms_shutdown s \<in> {SWaitDeleter, SClose, SDone}) \<and>
     (ms_shutdown s = SWaitSyncer \<longrightarrow> ms_syncer s = WStopping) \<and>
     (ms_shutdown s = SWaitDeleter \<longrightarrow> ms_deleter s = WStopping) \<and>
     (ms_shutdown s \<in> {SStopDeleter, SWaitDeleter, SClose, SDone} \<longrightarrow> ms_syncer s = WStopped) \<and>
     (ms_shutdown s \<in> {SClose, SDone} \<longrightarrow> ms_deleter s = WStopped)"

lemma all_worker: "(\<forall>a. P a) \<longleftrightarrow> P Syncer \<and> P Deleter"
  by (metis worker.exhaust)

lemma lock_ok_started: "lock_ok started"
  by (simp add: lock_ok_def started_def closing_def all_worker)

lemma lock_ok_step:
  assumes "machine_step s s'" and "lock_ok s"
  shows "lock_ok s'"
  using assms
proof (cases rule: machine_step.cases)
  case (poll a)
  then show ?thesis using assms(2) by (cases a) (auto simp: lock_ok_def closing_def all_worker)
next
  case (nothing a)
  then show ?thesis using assms(2) by (cases a) (auto simp: lock_ok_def closing_def all_worker)
next
  case (batch a)
  then show ?thesis using assms(2) by (cases a) (auto simp: lock_ok_def closing_def all_worker)
next
  case (lock a)
  then show ?thesis using assms(2) by (cases a) (auto simp: lock_ok_def closing_def all_worker)
next
  case (unlock a)
  then show ?thesis using assms(2) by (cases a) (auto simp: lock_ok_def closing_def all_worker)
next
  case (stop a)
  then show ?thesis using assms(2) by (cases a) (auto simp: lock_ok_def closing_def all_worker)
next
  case (stopped a)
  then show ?thesis using assms(2) by (cases a) (auto simp: lock_ok_def closing_def all_worker)
qed (use assms(2) in \<open>auto simp: lock_ok_def closing_def all_worker\<close>)

lemma lock_ok_steps: "machine_steps s s' \<Longrightarrow> lock_ok s \<Longrightarrow> lock_ok s'"
  by (induction rule: rtranclp_induct) (auto intro: lock_ok_step)

section \<open>When a shutdown ends\<close>

text \<open>A goroutine that has yet to be stopped waits for the lock that the caller of \<open>Shutdown\<close> holds.\<close>

definition stuck :: "machine \<Rightarrow> bool" where
  "stuck s \<longleftrightarrow> ms_lock s = Some Closer \<and>
     (ms_syncer s = WLock \<and> ms_shutdown s = SStopSyncer \<or>
      ms_deleter s = WLock \<and> ms_shutdown s \<in> {SStopSyncer, SWaitSyncer, SStopDeleter})"

lemma stuck_step:
  assumes "machine_step s s'" and "stuck s" and "lock_ok s"
  shows "stuck s'"
  using assms
proof (cases rule: machine_step.cases)
  case (unlock a)
  then show ?thesis using assms(2,3) by (auto simp: stuck_def lock_ok_def)
next
  case (poll a)
  then show ?thesis using assms(2) by (cases a) (auto simp: stuck_def)
next
  case (nothing a)
  then show ?thesis using assms(2) by (cases a) (auto simp: stuck_def)
next
  case (batch a)
  then show ?thesis using assms(2) by (cases a) (auto simp: stuck_def)
next
  case (stop a)
  then show ?thesis using assms(2) by (cases a) (auto simp: stuck_def)
next
  case (stopped a)
  then show ?thesis using assms(2) by (cases a) (auto simp: stuck_def)
qed (use assms(2) in \<open>auto simp: stuck_def\<close>)

lemma stuck_steps: "machine_steps s s' \<Longrightarrow> stuck s \<Longrightarrow> lock_ok s \<Longrightarrow> stuck s'"
proof (induction rule: rtranclp_induct)
  case (step s1 s2)
  then show ?case using stuck_step [OF step(2)] lock_ok_steps [OF step(1)] by blast
qed

lemma to_select:
  assumes "pc a s \<in> {WSelect, WCollect}"
  shows "machine_steps s (set_pc a WSelect s)"
proof (cases "pc a s = WSelect")
  case True
  then have "set_pc a WSelect s = s" by (cases a) simp_all
  then show ?thesis by simp
next
  case False
  with assms have "pc a s = WCollect" by simp
  from machine_step.nothing [OF this] show ?thesis by (rule r_into_rtranclp)
qed

text \<open>One goroutine that does not wait for the lock can be stopped.\<close>

lemma stop_worker:
  assumes "pc a s \<in> {WSelect, WCollect}" and "ms_shutdown s = stop_pc a"
  shows "machine_steps s (set_pc a WStopped (s\<lparr>ms_shutdown := next_pc a\<rparr>))"
proof -
  let ?s1 = "set_pc a WSelect s"
  let ?s2 = "set_pc a WStopping (?s1\<lparr>ms_shutdown := wait_pc a\<rparr>)"
  have "machine_step ?s1 ?s2" using assms(2) by (intro machine_step.stop) (cases a; simp)+
  moreover have "machine_step ?s2 (set_pc a WStopped (?s2\<lparr>ms_shutdown := next_pc a\<rparr>))"
    by (intro machine_step.stopped) (cases a; simp)+
  moreover have "set_pc a WStopped (?s2\<lparr>ms_shutdown := next_pc a\<rparr>) = set_pc a WStopped (s\<lparr>ms_shutdown := next_pc a\<rparr>)"
    by (cases a) simp_all
  ultimately show ?thesis using to_select [OF assms(1)] by (metis rtranclp.rtrancl_into_rtrancl)
qed

text \<open>C23 (liveness): once \<open>Shutdown\<close> has taken the lock, it can complete exactly when neither goroutine has
  collected a batch and waits for the lock. If one of them does, \<open>Shutdown\<close> waits for the goroutine and
  the goroutine for the lock: both are blocked forever.\<close>

theorem Shutdown_completes:
  assumes "machine_steps started s" and "ms_shutdown s = SStopSyncer"
  shows "(\<exists>s'. machine_steps s s' \<and> ms_shutdown s' = SDone) \<longleftrightarrow> ms_syncer s \<noteq> WLock \<and> ms_deleter s \<noteq> WLock"
proof -
  have ok: "lock_ok s" by (rule lock_ok_steps [OF assms(1) lock_ok_started])
  then have pcs: "ms_lock s = Some Closer" "ms_syncer s \<in> {WSelect, WCollect, WLock}" "ms_deleter s \<in> {WSelect, WCollect, WLock}"
    using assms(2) by (cases "ms_syncer s"; cases "ms_deleter s"; simp add: lock_ok_def closing_def all_worker)+
  show ?thesis
  proof (cases "ms_syncer s = WLock \<or> ms_deleter s = WLock")
    case True
    then have "stuck s" using pcs(1) assms(2) by (auto simp: stuck_def)
    then have "ms_shutdown s' \<noteq> SDone" if "machine_steps s s'" for s'
      using stuck_steps [OF that _ ok] by (auto simp: stuck_def)
    with True show ?thesis by blast
  next
    case False
    let ?s1 = "set_pc Syncer WStopped (s\<lparr>ms_shutdown := SStopDeleter\<rparr>)"
    let ?s2 = "set_pc Deleter WStopped (?s1\<lparr>ms_shutdown := SClose\<rparr>)"
    have "machine_steps s ?s1" using stop_worker [of Syncer s] pcs(2) False assms(2) by auto
    moreover have "machine_steps ?s1 ?s2" using stop_worker [of Deleter ?s1] pcs(3) False by auto
    moreover have "machine_step ?s2 (?s2\<lparr>ms_shutdown := SDone, ms_lock := None\<rparr>)"
      by (intro machine_step.shutdown_nodes) simp
    ultimately have "machine_steps s (?s2\<lparr>ms_shutdown := SDone, ms_lock := None\<rparr>)"
      by (meson rtranclp.rtrancl_into_rtrancl rtranclp_trans)
    moreover have "ms_shutdown (?s2\<lparr>ms_shutdown := SDone, ms_lock := None\<rparr>) = SDone" by simp
    ultimately show ?thesis using False by blast
  qed
qed

definition blocked :: machine where
  "blocked = \<lparr> ms_lock = Some Closer, ms_syncer = WLock, ms_deleter = WSelect, ms_shutdown = SStopSyncer \<rparr>"

lemma blocked_reachable: "machine_steps started blocked"
proof -
  have "machine_step started (set_pc Syncer WCollect started)" by (intro machine_step.poll) (simp_all add: started_def)
  moreover have "machine_step (set_pc Syncer WCollect started) (set_pc Syncer WLock (set_pc Syncer WCollect started))"
    by (intro machine_step.batch) simp
  moreover have "set_pc Syncer WLock (set_pc Syncer WCollect started) = started\<lparr>ms_syncer := WLock\<rparr>" by simp
  moreover have "machine_step (started\<lparr>ms_syncer := WLock\<rparr>) (started\<lparr>ms_syncer := WLock, ms_shutdown := SLock\<rparr>)"
    using machine_step.shutdown [of "started\<lparr>ms_syncer := WLock\<rparr>"] by (simp add: started_def)
  moreover have "machine_step (started\<lparr>ms_syncer := WLock, ms_shutdown := SLock\<rparr>) blocked"
    using machine_step.shutdown_lock [of "started\<lparr>ms_syncer := WLock, ms_shutdown := SLock\<rparr>"]
    by (simp add: started_def blocked_def)
  ultimately show ?thesis by (metis rtranclp.rtrancl_into_rtrancl rtranclp.rtrancl_refl)
qed

theorem Shutdown_completes_witness: "\<not> (\<exists>s'. machine_steps blocked s' \<and> ms_shutdown s' = SDone)"
  using Shutdown_completes [OF blocked_reachable] by (simp add: blocked_def)

section \<open>Closing the nodes and the manager\<close>

text \<open>What \<open>Shutdown\<close> does with the lock after both goroutines have stopped.\<close>

fun close_all :: "('s \<Rightarrow> ('w, unit) prog) \<Rightarrow> (Host, 's) gomap \<Rightarrow> ('w, unit) prog" where
  "close_all shutdown [] = ret ()"
| "close_all shutdown ((h, s) # m) = bindp (shutdown s) (\<lambda>_. close_all shutdown m)"

definition infra_Shutdown :: "'w infraClient \<Rightarrow> ('w, error option) prog" where
  "infra_Shutdown i =
     bindp (close_all RouterState_Shutdown (ic_routers i)) (\<lambda>_.
     bindp (close_all BrokerState_Shutdown (ic_brokers i)) (\<lambda>_. ret None))"

type_synonym 'w manager = "(resourceKey, 'w infraClient) gomap"

definition GetClient :: "'w infraClient \<Rightarrow> resourceKey \<Rightarrow> 'w manager \<Rightarrow> 'w infraClient \<times> 'w manager" where
  "GetClient newClient key clients =
     (case map_of clients key of
        Some client \<Rightarrow> (client, clients)
      | None \<Rightarrow> (newClient, gm_put key newClient clients))"

definition DeleteClient :: "resourceKey \<Rightarrow> 'w manager \<Rightarrow> ('w, error option \<times> 'w manager) prog" where
  "DeleteClient key clients =
     (case map_of clients key of
        None \<Rightarrow> ret (None, clients)
      | Some client \<Rightarrow>
          bindp (infra_Shutdown client) (\<lambda>err.
            if err \<noteq> None then ret (err, clients) else ret (None, gm_del key clients)))"

lemma close_all_total:
  assumes "\<And>s w. \<exists>w'. shutdown s w = Some ((), w')"
  shows "\<exists>w'. close_all shutdown m w = Some ((), w')"
proof (induction m arbitrary: w)
  case (Cons hs m)
  obtain h s where hs: "hs = (h, s)" by (cases hs)
  obtain w1 where "shutdown s w = Some ((), w1)" using assms by blast
  with Cons.IH [of w1] hs show ?case by (simp add: bindp_def)
qed simp

lemma Shutdown_returns: "\<exists>w'. infra_Shutdown i w = Some (None, w')"
proof -
  obtain w1 where 1: "close_all RouterState_Shutdown (ic_routers i) w = Some ((), w1)"
    using close_all_total [of RouterState_Shutdown "ic_routers i" w] by (auto simp: RouterState_Shutdown_def)
  obtain w2 where "close_all BrokerState_Shutdown (ic_brokers i) w1 = Some ((), w2)"
    using close_all_total [of BrokerState_Shutdown "ic_brokers i" w1] by (auto simp: BrokerState_Shutdown_def)
  with 1 show ?thesis by (simp add: infra_Shutdown_def bindp_def)
qed

lemma DeleteClient_gone:
  "\<exists>clients' w'. DeleteClient key clients w = Some ((None, clients'), w') \<and> map_of clients' = (map_of clients)(key := None)"
proof (cases "map_of clients key")
  case None
  then have "(map_of clients)(key := None) = map_of clients" by auto
  with None show ?thesis by (simp add: DeleteClient_def)
next
  case (Some client)
  obtain w1 where "infra_Shutdown client w = Some (None, w1)" using Shutdown_returns [of client w] by auto
  with Some show ?thesis by (simp add: DeleteClient_def bindp_def)
qed

end
