(* ===== verification/Filter_Values.thy ===== *)
theory Filter_Values
  imports Complex_Main Prelude
begin

text \<open>
  The values that the filter expressions of the console compute with, and their comparison
  (\<open>pkg/consolegraphql/filter/support.go\<close>: \<open>widenNumeric\<close>, \<open>intFloatPromotion\<close> and the switch of
  \<open>ComparisonExpr.Eval\<close>). A value of an interface type is tagged with its dynamic type; a type that
  is declared over a basic one has a name, and is another type than the basic one.
\<close>

section \<open>Values\<close>

datatype int_kind = KInt | KInt8 | KInt16 | KInt32 | KInt64 | KUint | KUint8 | KUint16 | KUint32 | KUint64

datatype float_kind = Float32 | Float64

fun int_bits :: "int_kind \<Rightarrow> nat" where
  "int_bits KInt = 64" | "int_bits KInt8 = 8" | "int_bits KInt16 = 16" | "int_bits KInt32 = 32" | "int_bits KInt64 = 64"
| "int_bits KUint = 64" | "int_bits KUint8 = 8" | "int_bits KUint16 = 16" | "int_bits KUint32 = 32" | "int_bits KUint64 = 64"

fun signed :: "int_kind \<Rightarrow> bool" where
  "signed KInt = True" | "signed KInt8 = True" | "signed KInt16 = True" | "signed KInt32 = True" | "signed KInt64 = True"
| "signed KUint = False" | "signed KUint8 = False" | "signed KUint16 = False" | "signed KUint32 = False" | "signed KUint64 = False"

fun float_bits :: "float_kind \<Rightarrow> nat" where
  "float_bits Float32 = 32" | "float_bits Float64 = 64"

datatype float_value = Fin rat | PInf | NInf | NaN

datatype gvalue =
    VInt string int_kind int
  | VFloat string float_kind float_value
  | VBool string bool
  | VString string string
  | VTime int
  | VMetaTime int
  | VNull
  | VOther string

datatype gtype =
    TInt string int_kind
  | TFloat string float_kind
  | TBool string
  | TString string
  | TTime
  | TMetaTime
  | TNull
  | TOther string

text \<open>The dynamic type of a value.\<close>

fun TypeOf :: "gvalue \<Rightarrow> gtype" where
  "TypeOf (VInt n k i) = TInt n k"
| "TypeOf (VFloat n k f) = TFloat n k"
| "TypeOf (VBool n b) = TBool n"
| "TypeOf (VString n s) = TString n"
| "TypeOf (VTime t) = TTime"
| "TypeOf (VMetaTime t) = TMetaTime"
| "TypeOf VNull = TNull"
| "TypeOf (VOther n) = TOther n"

section \<open>Conversions\<close>

definition in_range :: "int_kind \<Rightarrow> int \<Rightarrow> bool" where
  "in_range k i \<longleftrightarrow>
     (if signed k then - (2 ^ (int_bits k - 1)) \<le> i \<and> i < 2 ^ (int_bits k - 1) else 0 \<le> i \<and> i < 2 ^ int_bits k)"

text \<open>The conversion between integer types truncates to the width of the target.\<close>

definition wrap_int :: "int_kind \<Rightarrow> int \<Rightarrow> int" where
  "wrap_int k i =
     (let m = i mod 2 ^ int_bits k
      in if signed k \<and> 2 ^ (int_bits k - 1) \<le> m then m - 2 ^ int_bits k else m)"

definition max_signed :: "int_kind \<Rightarrow> int" where
  "max_signed k = 2 ^ (int_bits k - 1) - 1"

text \<open>
  Whether \<open>widenNumeric\<close> wants to convert a value to a type, before the widths are compared. A value
  that is not numeric is never converted.
\<close>

fun wants :: "gvalue \<Rightarrow> gtype \<Rightarrow> bool" where
  "wants (VInt n k i) (TInt n' k') \<longleftrightarrow>
     (if signed k then signed k' \<or> 0 \<le> i else \<not> signed k' \<or> i \<le> max_signed k')"
| "wants (VFloat n k f) (TFloat n' k') \<longleftrightarrow> True"
| "wants v t \<longleftrightarrow> False"

fun convert :: "gvalue \<Rightarrow> gtype \<Rightarrow> gvalue" where
  "convert (VInt n k i) (TInt n' k') = (if int_bits k \<le> int_bits k' then VInt n' k' (wrap_int k' i) else VInt n k i)"
| "convert (VFloat n k f) (TFloat n' k') = (if float_bits k \<le> float_bits k' then VFloat n' k' f else VFloat n k f)"
| "convert v t = v"

definition widenNumeric :: "gvalue \<Rightarrow> gtype \<Rightarrow> gvalue" where
  "widenNumeric s dst = (if dst = TypeOf s then s else if wants s dst then convert s dst else s)"

text \<open>
  The nearest floating point number of an integer, ties to even: all integers of 64 bits are within
  the range of both types, with 24 and 53 bits of precision.
\<close>

function surplus :: "nat \<Rightarrow> nat \<Rightarrow> nat" where
  "surplus p n = (if n < 2 ^ p then 0 else Suc (surplus p (n div 2)))"
  by auto
termination
proof (relation "measure snd")
  show "((p, n div 2), (p, n)) \<in> measure snd" if "\<not> n < 2 ^ p" for p n :: nat
  proof -
    have "0 < n" using that by (metis gr0I zero_less_numeral zero_less_power)
    then show ?thesis by simp
  qed
qed simp

declare surplus.simps [simp del]

definition round_nat :: "nat \<Rightarrow> nat \<Rightarrow> nat" where
  "round_nat p n =
     (let k = surplus p n; q = n div 2 ^ k; r = n mod 2 ^ k
      in (if 2 ^ k < 2 * r \<or> (2 ^ k = 2 * r \<and> odd q) then q + 1 else q) * 2 ^ k)"

fun precision :: "float_kind \<Rightarrow> nat" where
  "precision Float32 = 24" | "precision Float64 = 53"

definition to_float :: "float_kind \<Rightarrow> int \<Rightarrow> float_value" where
  "to_float k i = Fin (of_int (sgn i * int (round_nat (precision k) (nat \<bar>i\<bar>))))"

text \<open>
  The second argument becomes a floating point number when the first one is one and the second one an
  integer; only the predeclared types are looked at.
\<close>

fun intFloatPromotion :: "gvalue \<Rightarrow> gvalue \<Rightarrow> gvalue" where
  "intFloatPromotion (VFloat n k f) (VInt n' k' i) =
     (if n = '''' \<and> n' = '''' then VFloat '''' k (to_float k i) else VInt n' k' i)"
| "intFloatPromotion l r = r"

section \<open>Operators\<close>

definition EqualStr :: string where "EqualStr = ''=''"
definition LessThanStr :: string where "LessThanStr = ''<''"
definition GreaterThanStr :: string where "GreaterThanStr = ''>''"
definition LessEqualStr :: string where "LessEqualStr = ''<=''"
definition GreaterEqualStr :: string where "GreaterEqualStr = ''>=''"
definition NotEqualStr :: string where "NotEqualStr = ''!=''"
definition LikeStr :: string where "LikeStr = ''like''"
definition NotLikeStr :: string where "NotLikeStr = ''not like''"
definition IsNull :: string where "IsNull = ''is null''"
definition IsNotNull :: string where "IsNotNull = ''is not null''"

lemmas operator_defs = EqualStr_def LessThanStr_def GreaterThanStr_def LessEqualStr_def GreaterEqualStr_def
  NotEqualStr_def LikeStr_def NotLikeStr_def IsNull_def IsNotNull_def

text \<open>The switch over the operator for ordered types; an operator that it does not know gives false.\<close>

definition ordered_op :: "string \<Rightarrow> bool \<Rightarrow> bool \<Rightarrow> bool \<Rightarrow> bool" where
  "ordered_op operator eq lt gt =
     (if operator = EqualStr then eq
      else if operator = NotEqualStr then \<not> eq
      else if operator = GreaterThanStr then gt
      else if operator = GreaterEqualStr then gt \<or> eq
      else if operator = LessThanStr then lt
      else if operator = LessEqualStr then lt \<or> eq
      else False)"

definition int_op :: "string \<Rightarrow> int \<Rightarrow> int \<Rightarrow> bool" where
  "int_op operator l r = ordered_op operator (l = r) (l < r) (l > r)"

fun float_eq :: "float_value \<Rightarrow> float_value \<Rightarrow> bool" where
  "float_eq (Fin a) (Fin b) \<longleftrightarrow> a = b"
| "float_eq PInf PInf \<longleftrightarrow> True"
| "float_eq NInf NInf \<longleftrightarrow> True"
| "float_eq a b \<longleftrightarrow> False"

fun float_less :: "float_value \<Rightarrow> float_value \<Rightarrow> bool" where
  "float_less (Fin a) (Fin b) \<longleftrightarrow> a < b"
| "float_less (Fin a) PInf \<longleftrightarrow> True"
| "float_less NInf (Fin b) \<longleftrightarrow> True"
| "float_less NInf PInf \<longleftrightarrow> True"
| "float_less a b \<longleftrightarrow> False"

definition float_op :: "string \<Rightarrow> float_value \<Rightarrow> float_value \<Rightarrow> bool" where
  "float_op operator l r = ordered_op operator (float_eq l r) (float_less l r) (float_less r l)"

definition bool_op :: "string \<Rightarrow> bool \<Rightarrow> bool \<Rightarrow> bool" where
  "bool_op operator l r = (if operator = EqualStr then l = r else if operator = NotEqualStr then l \<noteq> r else False)"

section \<open>Integers of different types\<close>

lemma wrap_exact: "in_range k i \<Longrightarrow> wrap_int k i = i"
proof (cases "signed k")
  case False
  then show "in_range k i \<Longrightarrow> ?thesis" by (simp add: in_range_def wrap_int_def Let_def)
next
  case True
  assume r: "in_range k i"
  have w: "(2 :: int) ^ int_bits k = 2 * 2 ^ (int_bits k - 1)"
    by (cases k) simp_all
  show ?thesis
  proof (cases "0 \<le> i")
    case pos: True
    then have "i mod 2 ^ int_bits k = i" using r True w by (simp add: in_range_def)
    with r True show ?thesis by (simp add: wrap_int_def Let_def in_range_def)
  next
    case False
    have "(i + 2 ^ int_bits k) mod 2 ^ int_bits k = i + 2 ^ int_bits k"
      using r True False w by (intro mod_pos_pos_trivial) (simp_all add: in_range_def)
    then have "i mod 2 ^ int_bits k = i + 2 ^ int_bits k" by simp
    with r True w show ?thesis by (simp add: wrap_int_def Let_def in_range_def)
  qed
qed

text \<open>A conversion that happens keeps the number.\<close>

lemma in_range_bounds:
  "in_range KInt i \<longleftrightarrow> -9223372036854775808 \<le> i \<and> i < 9223372036854775808"
  "in_range KInt8 i \<longleftrightarrow> -128 \<le> i \<and> i < 128"
  "in_range KInt16 i \<longleftrightarrow> -32768 \<le> i \<and> i < 32768"
  "in_range KInt32 i \<longleftrightarrow> -2147483648 \<le> i \<and> i < 2147483648"
  "in_range KInt64 i \<longleftrightarrow> -9223372036854775808 \<le> i \<and> i < 9223372036854775808"
  "in_range KUint i \<longleftrightarrow> 0 \<le> i \<and> i < 18446744073709551616"
  "in_range KUint8 i \<longleftrightarrow> 0 \<le> i \<and> i < 256"
  "in_range KUint16 i \<longleftrightarrow> 0 \<le> i \<and> i < 65536"
  "in_range KUint32 i \<longleftrightarrow> 0 \<le> i \<and> i < 4294967296"
  "in_range KUint64 i \<longleftrightarrow> 0 \<le> i \<and> i < 18446744073709551616"
  by (simp_all add: in_range_def)

lemma wants_in_range:
  assumes "in_range k i" and "wants (VInt n k i) (TInt n' k')" and "int_bits k \<le> int_bits k'"
  shows "in_range k' i"
  using assms by (cases k; cases k'; simp add: in_range_bounds max_signed_def)

text \<open>Whether two integers have a common type in which both can be represented.\<close>

definition fits :: "int_kind \<Rightarrow> int \<Rightarrow> int_kind \<Rightarrow> bool" where
  "fits k i k' \<longleftrightarrow> int_bits k \<le> int_bits k' \<and> (if signed k then signed k' \<or> 0 \<le> i else \<not> signed k' \<or> i \<le> max_signed k')"

lemma widen_int:
  assumes "in_range k i"
  shows "widenNumeric (VInt n k i) (TInt n' k') = (if fits k i k' then VInt n' k' i else VInt n k i)"
proof (cases "fits k i k'")
  case True
  then have "wants (VInt n k i) (TInt n' k')" "int_bits k \<le> int_bits k'" by (auto simp: fits_def)
  with True wrap_exact [OF wants_in_range [OF assms this]] show ?thesis by (auto simp: widenNumeric_def)
next
  case False
  then show ?thesis by (auto simp: widenNumeric_def fits_def)
qed

end
