(* ===== verification/Filter_Like.thy ===== *)
theory Filter_Like
  imports Prelude
begin

text \<open>
  The \<open>LIKE\<close> operator (\<open>like\<close> in \<open>pkg/consolegraphql/filter/support.go\<close>). The pattern is rewritten as
  the text of a regular expression, which package \<open>regexp\<close> compiles and matches. The model rewrites
  the same text and reads it back with the part of the syntax of \<open>regexp\<close> that can occur: anchors,
  escaped and plain characters, the dot and the repeated dot. Text outside of this part would be
  \<open>None\<close>, like the panic of the source; it is shown not to occur. Strings are sequences of characters.
\<close>

section \<open>The text of the regular expression\<close>

definition backslash :: char where "backslash = CHR 0x5C"
definition newline :: char where "newline = CHR 0x0A"

definition special :: "char \<Rightarrow> bool" where
  "special c \<longleftrightarrow> c \<in> set (backslash # ''.+*?()|[]{}^$'')"

definition QuoteMeta :: "string \<Rightarrow> string" where
  "QuoteMeta s = concat (map (\<lambda>c. if special c then [backslash, c] else [c]) s)"

definition ReplaceAll :: "char \<Rightarrow> string \<Rightarrow> string \<Rightarrow> string" where
  "ReplaceAll old new s = concat (map (\<lambda>c. if c = old then new else [c]) s)"

definition like_re :: "string \<Rightarrow> string" where
  "like_re likePattern =
     ''^'' @ ReplaceAll (CHR ''_'') ''.'' (ReplaceAll (CHR ''%'') ''.*'' (QuoteMeta likePattern)) @ ''$''"

section \<open>Regular expressions\<close>

datatype re_item = Lit char | AnyChar | AnyChars

fun items :: "string \<Rightarrow> re_item list option" where
  "items [] = None"
| "items [c] = (if c = CHR ''$'' then Some [] else None)"
| "items (c # d # cs) =
     (if c = backslash then if special d then map_option ((#) (Lit d)) (items cs) else None
      else if c = CHR ''.'' \<and> d = CHR ''*'' then map_option ((#) AnyChars) (items cs)
      else if c = CHR ''.'' then map_option ((#) AnyChar) (items (d # cs))
      else if special c then None
      else map_option ((#) (Lit c)) (items (d # cs)))"

text \<open>The dot matches every character but a newline.\<close>

fun matches :: "re_item list \<Rightarrow> string \<Rightarrow> bool" where
  "matches [] s \<longleftrightarrow> s = []"
| "matches (Lit c # rs) [] \<longleftrightarrow> False"
| "matches (Lit c # rs) (x # s) \<longleftrightarrow> x = c \<and> matches rs s"
| "matches (AnyChar # rs) [] \<longleftrightarrow> False"
| "matches (AnyChar # rs) (x # s) \<longleftrightarrow> x \<noteq> newline \<and> matches rs s"
| "matches (AnyChars # rs) [] \<longleftrightarrow> matches rs []"
| "matches (AnyChars # rs) (x # s) \<longleftrightarrow> matches rs (x # s) \<or> (x \<noteq> newline \<and> matches (AnyChars # rs) s)"

fun MatchString :: "string \<Rightarrow> string \<Rightarrow> bool option" where
  "MatchString [] s = None"
| "MatchString (c # re) s = (if c = CHR ''^'' then map_option (\<lambda>rs. matches rs s) (items re) else None)"

definition like :: "string \<Rightarrow> string \<Rightarrow> bool option" where
  "like str likePattern = MatchString (like_re likePattern) str"

section \<open>The meaning of a pattern\<close>

text \<open>The strings that a pattern stands for.\<close>

fun pattern_strings :: "string \<Rightarrow> string set" where
  "pattern_strings [] = {[]}"
| "pattern_strings (c # p) =
     (if c = CHR ''%'' then {u @ v | u v. newline \<notin> set u \<and> v \<in> pattern_strings p}
      else if c = CHR ''_'' then {x # v | x v. x \<noteq> newline \<and> v \<in> pattern_strings p}
      else {c # v | v. v \<in> pattern_strings p})"

fun item_of :: "char \<Rightarrow> re_item" where
  "item_of c = (if c = CHR ''%'' then AnyChars else if c = CHR ''_'' then AnyChar else Lit c)"

text \<open>How each character of the pattern ends up in the text.\<close>

lemma char_text:
  "ReplaceAll (CHR ''_'') ''.'' (ReplaceAll (CHR ''%'') ''.*'' (QuoteMeta (c # p))) =
     (if c = CHR ''%'' then ''.*'' else if c = CHR ''_'' then ''.'' else if special c then [backslash, c] else [c]) @
     ReplaceAll (CHR ''_'') ''.'' (ReplaceAll (CHR ''%'') ''.*'' (QuoteMeta p))"
  by (auto simp: ReplaceAll_def QuoteMeta_def special_def backslash_def)

lemma text_start:
  "hd (ReplaceAll (CHR ''_'') ''.'' (ReplaceAll (CHR ''%'') ''.*'' (QuoteMeta p)) @ ''$'') \<noteq> CHR ''*''"
proof (cases p)
  case Nil
  then show ?thesis by (simp add: ReplaceAll_def QuoteMeta_def)
next
  case (Cons c q)
  then show ?thesis by (simp add: char_text) (auto simp: special_def backslash_def)
qed

lemma items_lit:
  assumes "\<not> special c" and "t \<noteq> []"
  shows "items (c # t) = map_option ((#) (Lit c)) (items t)"
proof -
  obtain d ds where "t = d # ds" using assms(2) by (cases t) auto
  with assms(1) show ?thesis by (auto simp: special_def)
qed

lemma items_any:
  assumes "t \<noteq> []" and "hd t \<noteq> CHR ''*''"
  shows "items (CHR ''.'' # t) = map_option ((#) AnyChar) (items t)"
proof -
  obtain d ds where "t = d # ds" using assms(1) by (cases t) auto
  with assms(2) show ?thesis by (simp add: backslash_def)
qed

lemma items_text:
  "items (ReplaceAll (CHR ''_'') ''.'' (ReplaceAll (CHR ''%'') ''.*'' (QuoteMeta p)) @ ''$'') = Some (map item_of p)"
proof (induction p)
  case Nil
  then show ?case by (simp add: ReplaceAll_def QuoteMeta_def)
next
  case (Cons c p)
  show ?case
  proof (cases "c = CHR ''%'' \<or> c = CHR ''_''")
    case True
    then show ?thesis using Cons items_any [OF _ text_start] by (auto simp: char_text backslash_def)
  next
    case False
    then show ?thesis using Cons items_lit [of c] by (auto simp: char_text)
  qed
qed

lemma matches_any_chars: "matches (AnyChars # rs) s \<longleftrightarrow> (\<exists>u v. s = u @ v \<and> newline \<notin> set u \<and> matches rs v)"
proof (induction s)
  case (Cons x s)
  show ?case
  proof
    assume "matches (AnyChars # rs) (x # s)"
    then consider "matches rs (x # s)" | "x \<noteq> newline" "matches (AnyChars # rs) s" by auto
    then show "\<exists>u v. x # s = u @ v \<and> newline \<notin> set u \<and> matches rs v"
    proof cases
      case 1
      then show ?thesis by (intro exI [of _ "[]"] exI [of _ "x # s"]) simp
    next
      case 2
      then obtain u v where "s = u @ v" "newline \<notin> set u" "matches rs v" using Cons.IH by blast
      with 2(1) show ?thesis by (intro exI [of _ "x # u"] exI [of _ v]) auto
    qed
  next
    assume "\<exists>u v. x # s = u @ v \<and> newline \<notin> set u \<and> matches rs v"
    then obtain u v where uv: "x # s = u @ v" "newline \<notin> set u" "matches rs v" by blast
    show "matches (AnyChars # rs) (x # s)"
    proof (cases u)
      case Nil
      with uv have "matches rs (x # s)" by simp
      then show ?thesis by simp
    next
      case (Cons y u')
      with uv have "x \<noteq> newline" "s = u' @ v" "newline \<notin> set u'" by auto
      with uv(3) Cons.IH show ?thesis by auto
    qed
  qed
qed auto

lemma matches_pattern: "matches (map item_of p) s \<longleftrightarrow> s \<in> pattern_strings p"
proof (induction p arbitrary: s)
  case (Cons c p)
  consider (pct) "c = CHR ''%''" | (us) "c = CHR ''_''" | (lit) "c \<noteq> CHR ''%''" "c \<noteq> CHR ''_''" by blast
  then show ?case
  proof cases
    case pct
    then show ?thesis using Cons by (simp add: matches_any_chars)
  next
    case us
    then show ?thesis using Cons by (cases s) auto
  next
    case lit
    then show ?thesis using Cons by (cases s) auto
  qed
qed simp

text \<open>C16 (equivalence): \<open>like\<close> never panics and holds exactly for the strings that the pattern stands for: \<open>%\<close> for
  any characters and \<open>_\<close> for one, where neither of them matches a newline, and every other character,
  including those that have a meaning in regular expressions, for itself.\<close>

theorem like_spec: "like str likePattern = Some (str \<in> pattern_strings likePattern)"
  by (simp add: like_def like_re_def items_text matches_pattern)

lemma like_total: "\<exists>b. like str likePattern = Some b"
  by (simp add: like_def like_re_def items_text)

end
