(* ===== verification/Filter_Expr.thy ===== *)
theory Filter_Expr
  imports Filter_Values Filter_Like
begin

text \<open>
  The filter expressions of the console (\<open>pkg/consolegraphql/filter/support.go\<close>): their evaluation on an
  object and their traversal. Evaluation gives a value or an error; \<open>None\<close> is a panic. The JSON path
  library is a parameter: a path carries the function that looks it up in an object and returns, for
  every result, the printable value if there is one.
\<close>

section \<open>Comparison\<close>

text \<open>
  The switch over the types of the two operands. Only predeclared types are looked at, and both
  operands must have the same one.
\<close>

definition compare_signed :: "string \<Rightarrow> gvalue \<Rightarrow> gvalue \<Rightarrow> bool" where
  "compare_signed operator left right =
     (case (left, right) of
        (VInt n k l, VInt n' k' r) \<Rightarrow> signed k \<and> n = '''' \<and> n' = '''' \<and> k = k' \<and> int_op operator l r
      | _ \<Rightarrow> False)"

definition compare_unsigned :: "string \<Rightarrow> gvalue \<Rightarrow> gvalue \<Rightarrow> bool" where
  "compare_unsigned operator left right =
     (case (left, right) of
        (VInt n k l, VInt n' k' r) \<Rightarrow> \<not> signed k \<and> n = '''' \<and> n' = '''' \<and> k = k' \<and> int_op operator l r
      | _ \<Rightarrow> False)"

definition compare_floats :: "string \<Rightarrow> gvalue \<Rightarrow> gvalue \<Rightarrow> bool" where
  "compare_floats operator left right =
     (case (left, right) of
        (VFloat n k l, VFloat n' k' r) \<Rightarrow> n = '''' \<and> n' = '''' \<and> k = k' \<and> float_op operator l r
      | _ \<Rightarrow> False)"

definition compare_bools :: "string \<Rightarrow> gvalue \<Rightarrow> gvalue \<Rightarrow> bool" where
  "compare_bools operator left right =
     (case (left, right) of
        (VBool n l, VBool n' r) \<Rightarrow> n = '''' \<and> n' = '''' \<and> bool_op operator l r
      | _ \<Rightarrow> False)"

definition compare_strings :: "string \<Rightarrow> gvalue \<Rightarrow> gvalue \<Rightarrow> bool option" where
  "compare_strings operator left right =
     (case (left, right) of
        (VString n l, VString n' r) \<Rightarrow>
          if n \<noteq> '''' \<or> n' \<noteq> '''' then Some False
          else if operator = EqualStr then Some (l = r)
          else if operator = NotEqualStr then Some (l \<noteq> r)
          else if operator = LikeStr then like l r
          else if operator = NotLikeStr then map_option Not (like l r)
          else Some False
      | _ \<Rightarrow> Some False)"

definition compare_values :: "string \<Rightarrow> gvalue \<Rightarrow> gvalue \<Rightarrow> bool option" where
  "compare_values operator left right =
     (case left of
        VInt n k i \<Rightarrow> Some (if signed k then compare_signed operator left right else compare_unsigned operator left right)
      | VFloat n k f \<Rightarrow> Some (compare_floats operator left right)
      | VBool n b \<Rightarrow> Some (compare_bools operator left right)
      | VString n s \<Rightarrow> compare_strings operator left right
      | _ \<Rightarrow> Some False)"

text \<open>The conversions before it, in the order of the source.\<close>

definition compare_converted :: "string \<Rightarrow> gvalue \<Rightarrow> gvalue \<Rightarrow> bool option" where
  "compare_converted operator left right =
     (let left1 = widenNumeric left (TypeOf right);
          right1 = widenNumeric right (TypeOf left1);
          right2 = intFloatPromotion left1 right1;
          left2 = intFloatPromotion right2 left1
      in compare_values operator left2 right2)"

section \<open>Expressions\<close>

datatype 'o Expr =
    AndExpr "'o Expr" "'o Expr"
  | OrExpr "'o Expr" "'o Expr"
  | NotExpr "'o Expr"
  | IsNullExpr string "'o Expr"
  | ComparisonExpr string "'o Expr" "'o Expr"
  | BoolVal bool
  | StringVal string
  | IntVal int
  | FloatVal float_value
  | nullVal
  | JSONPathVal "'o \<Rightarrow> error + gvalue option list list" string

type_synonym evaluation = "(error + gvalue) option"

definition bindv :: "evaluation \<Rightarrow> (gvalue \<Rightarrow> evaluation) \<Rightarrow> evaluation" where
  "bindv m f = (case m of None \<Rightarrow> None | Some (Inl err) \<Rightarrow> Some (Inl err) | Some (Inr v) \<Rightarrow> f v)"

abbreviation value_of :: "gvalue \<Rightarrow> evaluation" where
  "value_of v \<equiv> Some (Inr v)"

abbreviation truth :: "bool \<Rightarrow> evaluation" where
  "truth b \<equiv> Some (Inr (VBool '''' b))"

definition AndExpr_Eval :: "evaluation \<Rightarrow> evaluation \<Rightarrow> evaluation" where
  "AndExpr_Eval left right =
     bindv left (\<lambda>l. if l = VBool '''' True
                     then bindv right (\<lambda>r. case r of VBool n b \<Rightarrow> truth (n = '''' \<and> b) | _ \<Rightarrow> truth False)
                     else truth False)"

definition OrExpr_Eval :: "evaluation \<Rightarrow> evaluation \<Rightarrow> evaluation" where
  "OrExpr_Eval left right =
     bindv left (\<lambda>l. if l = VBool '''' True then truth True
                     else bindv right (\<lambda>r. case r of VBool n b \<Rightarrow> truth (n = '''' \<and> b) | _ \<Rightarrow> truth False))"

definition NotExpr_Eval :: "evaluation \<Rightarrow> evaluation" where
  "NotExpr_Eval val =
     bindv val (\<lambda>v. case v of VBool n b \<Rightarrow> truth (n = '''' \<and> \<not> b) | _ \<Rightarrow> truth False)"

definition IsNullExpr_Eval :: "string \<Rightarrow> evaluation \<Rightarrow> evaluation" where
  "IsNullExpr_Eval operator val =
     bindv val (\<lambda>v. if operator = IsNull then truth (v = VNull)
                    else if operator = IsNotNull then truth (v \<noteq> VNull)
                    else truth False)"

definition ComparisonExpr_Eval :: "string \<Rightarrow> evaluation \<Rightarrow> evaluation \<Rightarrow> evaluation" where
  "ComparisonExpr_Eval operator left right =
     bindv left (\<lambda>l. bindv right (\<lambda>r. case compare_converted operator l r of None \<Rightarrow> None | Some b \<Rightarrow> truth b))"

definition JSONPathVal_Eval :: "error + gvalue option list list \<Rightarrow> evaluation" where
  "JSONPathVal_Eval results =
     (case results of
        Inl err \<Rightarrow> Some (Inl err)
      | Inr ((Some v # _) # _) \<Rightarrow> value_of v
      | Inr _ \<Rightarrow> value_of VNull)"

fun Expr_Eval :: "'o Expr \<Rightarrow> 'o \<Rightarrow> evaluation" where
  "Expr_Eval (AndExpr l r) v = AndExpr_Eval (Expr_Eval l v) (Expr_Eval r v)"
| "Expr_Eval (OrExpr l r) v = OrExpr_Eval (Expr_Eval l v) (Expr_Eval r v)"
| "Expr_Eval (NotExpr e) v = NotExpr_Eval (Expr_Eval e v)"
| "Expr_Eval (IsNullExpr operator e) v = IsNullExpr_Eval operator (Expr_Eval e v)"
| "Expr_Eval (ComparisonExpr operator l r) v = ComparisonExpr_Eval operator (Expr_Eval l v) (Expr_Eval r v)"
| "Expr_Eval (BoolVal b) v = truth b"
| "Expr_Eval (StringVal s) v = value_of (VString '''' s)"
| "Expr_Eval (IntVal i) v = value_of (VInt '''' KInt i)"
| "Expr_Eval (FloatVal f) v = value_of (VFloat '''' Float64 f)"
| "Expr_Eval nullVal v = value_of VNull"
| "Expr_Eval (JSONPathVal jp path) v = JSONPathVal_Eval (jp v)"

text \<open>The nodes that \<open>visit\<close> is called with, in order.\<close>

fun Expr_Traverse :: "('o Expr \<Rightarrow> bool) \<Rightarrow> 'o Expr \<Rightarrow> 'o Expr list" where
  "Expr_Traverse accept (AndExpr l r) =
     (if accept (AndExpr l r) then Expr_Traverse accept l @ [AndExpr l r] @ Expr_Traverse accept r else [])"
| "Expr_Traverse accept (OrExpr l r) =
     (if accept (OrExpr l r) then Expr_Traverse accept l @ [OrExpr l r] @ Expr_Traverse accept r else [])"
| "Expr_Traverse accept (NotExpr e) =
     (if accept (NotExpr e) then Expr_Traverse accept e @ [NotExpr e] else [])"
| "Expr_Traverse accept (IsNullExpr operator e) =
     (if accept (IsNullExpr operator e) then Expr_Traverse accept e @ [IsNullExpr operator e] else [])"
| "Expr_Traverse accept (ComparisonExpr operator l r) =
     (if accept (ComparisonExpr operator l r)
      then Expr_Traverse accept l @ [ComparisonExpr operator l r] @ Expr_Traverse accept r else [])"
| "Expr_Traverse accept e = [e]"

section \<open>Comparing integers\<close>

text \<open>Two integers can be brought to one type in which both are represented.\<close>

definition comparable :: "int_kind \<Rightarrow> int \<Rightarrow> int_kind \<Rightarrow> int \<Rightarrow> bool" where
  "comparable k l k' r \<longleftrightarrow> fits k l k' \<or> fits k' r k"

lemma compare_same_kind:
  "compare_values operator (VInt '''' k l) (VInt '''' k' r) = Some (k = k' \<and> int_op operator l r)"
  by (auto simp: compare_values_def compare_signed_def compare_unsigned_def)

lemma compare_converted_int:
  assumes "in_range k l" and "in_range k' r"
  shows "compare_converted operator (VInt '''' k l) (VInt '''' k' r) = Some (comparable k l k' r \<and> int_op operator l r)"
proof (cases "fits k l k'")
  case True
  then have "widenNumeric (VInt '''' k l) (TInt '''' k') = VInt '''' k' l" using widen_int [OF assms(1)] by simp
  moreover have "widenNumeric (VInt '''' k' r) (TInt '''' k') = VInt '''' k' r" by (simp add: widenNumeric_def)
  ultimately show ?thesis using True by (simp add: compare_converted_def Let_def compare_same_kind comparable_def)
next
  case False
  then have "widenNumeric (VInt '''' k l) (TInt '''' k') = VInt '''' k l" using widen_int [OF assms(1)] by simp
  moreover have "k \<noteq> k'" using False by (auto simp: fits_def split: if_splits)
  ultimately show ?thesis using False widen_int [OF assms(2), of "''''" "''''" k]
    by (simp add: compare_converted_def Let_def compare_same_kind comparable_def)
qed

lemma comparable_iff:
  assumes "in_range k l" and "in_range k' r"
  shows "comparable k l k' r \<longleftrightarrow> signed k = signed k' \<or>
    (signed k \<and> (0 \<le> l \<or> int_bits k' \<le> int_bits k \<and> r \<le> max_signed k)) \<or>
    (signed k' \<and> (0 \<le> r \<or> int_bits k \<le> int_bits k' \<and> l \<le> max_signed k'))"
  using assms by (cases k; cases k'; auto simp: comparable_def fits_def max_signed_def in_range_bounds)

text \<open>C22 (bounds): two integers of any two types are compared as numbers, without a wrap-around, unless one of
  them is negative and the other one is unsigned and either wider or too big for the signed type of the
  first. In that case every comparison is false, also \<open>!=\<close> and \<open><\<close>.\<close>

theorem integer_comparison:
  assumes "in_range k l" and "in_range k' r"
  shows "ComparisonExpr_Eval operator (value_of (VInt '''' k l)) (value_of (VInt '''' k' r)) =
    truth ((signed k \<and> \<not> signed k' \<longrightarrow> 0 \<le> l \<or> int_bits k' \<le> int_bits k \<and> r \<le> max_signed k) \<and>
           (\<not> signed k \<and> signed k' \<longrightarrow> 0 \<le> r \<or> int_bits k \<le> int_bits k' \<and> l \<le> max_signed k') \<and> int_op operator l r)"
  using compare_converted_int [OF assms, of operator] comparable_iff [OF assms]
  by (auto simp: ComparisonExpr_Eval_def bindv_def)


theorem integer_comparison_witness:
  "ComparisonExpr_Eval ''!='' (value_of (VInt '''' KInt8 (- 1))) (value_of (VInt '''' KUint64 5)) = truth False"
  using integer_comparison [of KInt8 "- 1" KUint64 5 "''!=''"] by (simp add: in_range_bounds)

section \<open>Truth\<close>

lemma compare_strings_total: "\<exists>b. compare_strings operator l r = Some b"
proof -
  obtain b where "\<forall>s t. \<exists>b. like s t = Some b" using like_total by blast
  then show ?thesis by (auto simp: compare_strings_def split: gvalue.splits)
qed

lemma compare_converted_total: "\<exists>b. compare_converted operator l r = Some b"
  using compare_strings_total
  by (auto simp: compare_converted_def Let_def compare_values_def split: gvalue.splits)

lemma bindv_total: "m \<noteq> None \<Longrightarrow> (\<And>v. f v \<noteq> None) \<Longrightarrow> bindv m f \<noteq> None"
  by (auto simp: bindv_def split: option.splits sum.splits)

lemma bool_result: "(case r of VBool n b \<Rightarrow> truth (n = '''' \<and> b) | _ \<Rightarrow> truth False) = truth (r = VBool '''' True)"
  by (cases r) auto

lemma not_result: "(case v of VBool n b \<Rightarrow> truth (n = '''' \<and> \<not> b) | _ \<Rightarrow> truth False) = truth (v = VBool '''' False)"
  by (cases v) auto

lemma Eval_total: "Expr_Eval e v \<noteq> None"
proof (induction e)
  case (ComparisonExpr operator l r)
  have "(case compare_converted operator a b of None \<Rightarrow> None | Some c \<Rightarrow> truth c) \<noteq> None" for a b
    using compare_converted_total [of operator a b] by auto
  with ComparisonExpr show ?case
    unfolding Expr_Eval.simps ComparisonExpr_Eval_def by (intro bindv_total)
qed (auto simp: AndExpr_Eval_def OrExpr_Eval_def NotExpr_Eval_def IsNullExpr_Eval_def JSONPathVal_Eval_def
    bindv_def bool_result not_result split: sum.splits list.splits option.splits)

fun is_value :: "'o Expr \<Rightarrow> bool" where
  "is_value (AndExpr l r) = False" | "is_value (OrExpr l r) = False" | "is_value (NotExpr e) = False"
| "is_value (IsNullExpr operator e) = False" | "is_value (ComparisonExpr operator l r) = False"
| "is_value e = True"

text \<open>
  The reference: a two-valued logic in which a condition holds or does not hold. What is not the
  boolean true, like a missing field, does not hold; nor does its negation, unless it is a boolean.
\<close>

fun holds :: "'o Expr \<Rightarrow> 'o \<Rightarrow> bool" where
  "holds (AndExpr l r) v \<longleftrightarrow> holds l v \<and> holds r v"
| "holds (OrExpr l r) v \<longleftrightarrow> holds l v \<or> holds r v"
| "holds (NotExpr e) v \<longleftrightarrow> (is_value e \<longrightarrow> Expr_Eval e v = truth False) \<and> \<not> holds e v"
| "holds (IsNullExpr operator e) v \<longleftrightarrow> IsNullExpr_Eval operator (Expr_Eval e v) = truth True"
| "holds (ComparisonExpr operator l r) v \<longleftrightarrow> ComparisonExpr_Eval operator (Expr_Eval l v) (Expr_Eval r v) = truth True"
| "holds e v \<longleftrightarrow> Expr_Eval e v = truth True"

definition truth_value :: "evaluation \<Rightarrow> bool" where
  "truth_value m \<longleftrightarrow> (\<exists>b. m = truth b)"

text \<open>A condition evaluates to a boolean or to an error.\<close>

lemma condition_bool: "\<not> is_value e \<Longrightarrow> Expr_Eval e v = Some (Inr x) \<Longrightarrow> \<exists>b. x = VBool '''' b"
  by (cases e) (auto simp: AndExpr_Eval_def OrExpr_Eval_def NotExpr_Eval_def IsNullExpr_Eval_def ComparisonExpr_Eval_def bindv_def
      split: option.splits sum.splits gvalue.splits if_splits)

lemma Eval_holds: "Expr_Eval e v = Some (Inr x) \<Longrightarrow> holds e v \<longleftrightarrow> x = VBool '''' True"
proof (induction e arbitrary: x)
  case (AndExpr l r)
  then show ?case
    by (auto simp: AndExpr_Eval_def bindv_def bool_result split: option.splits sum.splits if_splits)
next
  case (OrExpr l r)
  then show ?case
    by (auto simp: OrExpr_Eval_def bindv_def bool_result split: option.splits sum.splits if_splits)
next
  case (NotExpr e)
  obtain y where y: "Expr_Eval e v = Some (Inr y)"
    using NotExpr.prems by (auto simp: NotExpr_Eval_def bindv_def split: option.splits sum.splits)
  have x: "x = VBool '''' (y = VBool '''' False)"
    using NotExpr.prems y by (auto simp: NotExpr_Eval_def bindv_def not_result)
  show ?case using NotExpr.IH [OF y] condition_bool [OF _ y] y x by auto
qed auto



end
