(* ===== verification/Filter_Sort.thy ===== *)
theory Filter_Sort
  imports Filter_Expr "HOL-Library.List_Lexorder" "HOL-Library.Char_ord" "HOL-Library.Product_Lexorder"
begin

text \<open>
  Sorting the rows of a query (\<open>Order.compare\<close> and \<open>OrderBy.Sort\<close> in
  \<open>pkg/consolegraphql/filter/support.go\<close>).
\<close>

section \<open>Comparing two rows\<close>

definition AscScr :: string where "AscScr = ''asc''"
definition DescScr :: string where "DescScr = ''desc''"

record 'o Order =
  ord_Expr :: "'o Expr"
  ord_Direction :: string

definition three_way :: "int \<Rightarrow> bool \<Rightarrow> bool \<Rightarrow> int" where
  "three_way pgtq eq gt = (if eq then 0 else if gt then pgtq else - pgtq)"

text \<open>The switch over the types; values of types that are not ordered, or of different types, count as equal.\<close>

fun compare_ordered :: "int \<Rightarrow> gvalue \<Rightarrow> gvalue \<Rightarrow> int" where
  "compare_ordered pgtq (VString n p) (VString n' q) =
     (if n = '''' \<and> n' = '''' then three_way pgtq (p = q) (p > q) else 0)"
| "compare_ordered pgtq (VInt n k p) (VInt n' k' q) =
     (if n = '''' \<and> n' = '''' \<and> k = k' then three_way pgtq (p = q) (p > q) else 0)"
| "compare_ordered pgtq (VFloat n k p) (VFloat n' k' q) =
     (if n = '''' \<and> n' = '''' \<and> k = k' then three_way pgtq (float_eq p q) (float_less q p) else 0)"
| "compare_ordered pgtq (VTime p) (VTime q) = three_way pgtq (p = q) (p > q)"
| "compare_ordered pgtq (VMetaTime p) (VMetaTime q) = three_way pgtq (p = q) (\<not> p < q)"
| "compare_ordered pgtq p q = 0"

definition compare_keys :: "int \<Rightarrow> gvalue \<Rightarrow> gvalue \<Rightarrow> int" where
  "compare_keys pgtq pv qv =
     (if pv = VNull then if qv = VNull then 0 else - pgtq
      else if qv = VNull then pgtq
      else compare_ordered pgtq pv qv)"

definition Order_compare :: "'o Order \<Rightarrow> 'o \<Rightarrow> 'o \<Rightarrow> (error + int) option" where
  "Order_compare ord p q =
     (let pgtq = (if ord_Direction ord = DescScr then - 1 else 1) in
      case Expr_Eval (ord_Expr ord) p of
        None \<Rightarrow> None
      | Some (Inl err) \<Rightarrow> Some (Inl err)
      | Some (Inr pv) \<Rightarrow>
          (case Expr_Eval (ord_Expr ord) q of
             None \<Rightarrow> None
           | Some (Inl err) \<Rightarrow> Some (Inl err)
           | Some (Inr qv) \<Rightarrow> Some (Inr (compare_keys pgtq pv qv))))"

section \<open>Sorting\<close>

text \<open>
  The function \<open>less\<close>: the first key that tells the rows apart decides, and an error makes it false. The
  error itself is lost: it is assigned to a variable of the inner scope.
\<close>

fun rows_less :: "'o Order list \<Rightarrow> 'o \<Rightarrow> 'o \<Rightarrow> bool option" where
  "rows_less [] p q = Some False"
| "rows_less (ord # ords) p q =
     (case Order_compare ord p q of
        None \<Rightarrow> None
      | Some (Inl err) \<Rightarrow> Some False
      | Some (Inr rv) \<Rightarrow>
          if rv > 0 then Some False else if rv < 0 then Some True else rows_less ords p q)"

text \<open>
  \<open>sort.SliceStable\<close>: every element moves to the left while it is less than its neighbour. The elements
  before it are kept in reverse order. (Beyond twenty elements the library merges sorted blocks; that
  gives the same result for every strict weak order, where the stable result is unique.)
\<close>

fun sift :: "('a \<Rightarrow> 'a \<Rightarrow> bool option) \<Rightarrow> 'a \<Rightarrow> 'a list \<Rightarrow> 'a list option" where
  "sift lt x [] = Some [x]"
| "sift lt x (y # ys) =
     (case lt x y of
        None \<Rightarrow> None
      | Some True \<Rightarrow> map_option ((#) y) (sift lt x ys)
      | Some False \<Rightarrow> Some (x # y # ys))"

fun sift_all :: "('a \<Rightarrow> 'a \<Rightarrow> bool option) \<Rightarrow> 'a list \<Rightarrow> 'a list \<Rightarrow> 'a list option" where
  "sift_all lt front [] = Some (rev front)"
| "sift_all lt front (x # xs) =
     (case sift lt x front of None \<Rightarrow> None | Some front' \<Rightarrow> sift_all lt front' xs)"

definition SliceStable :: "('a \<Rightarrow> 'a \<Rightarrow> bool option) \<Rightarrow> 'a list \<Rightarrow> 'a list option" where
  "SliceStable lt xs = sift_all lt [] xs"

definition OrderBy_Sort :: "'o Order list \<Rightarrow> 'o list \<Rightarrow> ('o list \<times> error option) option" where
  "OrderBy_Sort ords slice =
     (if ords = [] then Some (slice, None)
      else map_option (\<lambda>s. (s, None)) (SliceStable (rows_less ords) slice))"

section \<open>Stable sorting\<close>

definition tied :: "('a \<Rightarrow> 'a \<Rightarrow> bool option) \<Rightarrow> 'a \<Rightarrow> 'a \<Rightarrow> bool" where
  "tied lt p q \<longleftrightarrow> lt p q = Some False \<and> lt q p = Some False"

text \<open>
  What \<open>sort.SliceStable\<close> asks of its function: on the elements of \<open>A\<close> it returns, and it is a
  strict weak order.
\<close>

locale weak_order =
  fixes lt :: "'a \<Rightarrow> 'a \<Rightarrow> bool option" and A :: "'a set"
  assumes lt_total: "x \<in> A \<Longrightarrow> y \<in> A \<Longrightarrow> lt x y \<noteq> None"
    and lt_asym: "x \<in> A \<Longrightarrow> y \<in> A \<Longrightarrow> lt x y = Some True \<Longrightarrow> lt y x = Some False"
    and lt_cotrans: "x \<in> A \<Longrightarrow> y \<in> A \<Longrightarrow> z \<in> A \<Longrightarrow> lt x y = Some False \<Longrightarrow> lt y z = Some False \<Longrightarrow> lt x z = Some False"
begin

lemma sift_works:
  assumes "x \<in> A" and "set ys \<subseteq> A" and "sorted_wrt (\<lambda>q p. lt q p = Some False) ys"
  shows "\<exists>zs. sift lt x ys = Some zs \<and> mset zs = add_mset x (mset ys)
    \<and> sorted_wrt (\<lambda>q p. lt q p = Some False) zs \<and> (\<forall>c\<in>A. filter (tied lt c) zs = filter (tied lt c) (x # ys))"
  using assms
proof (induction ys)
  case (Cons y ys)
  show ?case
  proof (cases "lt x y = Some True")
    case False
    then have xy: "lt x y = Some False" using lt_total [of x y] Cons.prems by auto
    then have "lt x z = Some False" if "z \<in> set ys" for z
      using lt_cotrans [of x y z] Cons.prems that by auto
    with xy show ?thesis using Cons.prems by auto
  next
    case True
    obtain zs where z: "sift lt x ys = Some zs" "mset zs = add_mset x (mset ys)"
        "sorted_wrt (\<lambda>q p. lt q p = Some False) zs"
        "\<forall>c\<in>A. filter (tied lt c) zs = filter (tied lt c) (x # ys)"
      using Cons.IH Cons.prems by auto
    have yx: "lt y x = Some False" using lt_asym True Cons.prems by simp
    have set: "set zs = insert x (set ys)" using z(2) by (metis set_mset_add_mset_insert set_mset_mset)
    have untied: "\<not> (tied lt c x \<and> tied lt c y)" if "c \<in> A" for c
      using lt_cotrans [of x c y] True that Cons.prems by (auto simp: tied_def)
    have "filter (tied lt c) (y # zs) = filter (tied lt c) (x # y # ys)" if "c \<in> A" for c
      using z(4) [rule_format, OF that] untied [OF that] by auto
    moreover have "sorted_wrt (\<lambda>q p. lt q p = Some False) (y # zs)" using z(3) yx set Cons.prems by auto
    ultimately show ?thesis using True z(1,2) by simp
  qed
qed simp

lemma sift_all_works:
  assumes "set xs \<subseteq> A" and "set ys \<subseteq> A" and "sorted_wrt (\<lambda>q p. lt q p = Some False) ys"
  shows "\<exists>zs. sift_all lt ys xs = Some zs \<and> mset zs = mset ys + mset xs
    \<and> sorted_wrt (\<lambda>p q. lt q p = Some False) zs \<and> (\<forall>c\<in>A. filter (tied lt c) zs = filter (tied lt c) (rev ys @ xs))"
  using assms
proof (induction xs arbitrary: ys)
  case Nil
  then show ?case by (simp add: sorted_wrt_rev)
next
  case (Cons x xs)
  obtain ys' where y: "sift lt x ys = Some ys'" "mset ys' = add_mset x (mset ys)"
      "sorted_wrt (\<lambda>q p. lt q p = Some False) ys'" "\<forall>c\<in>A. filter (tied lt c) ys' = filter (tied lt c) (x # ys)"
    using sift_works [of x ys] Cons.prems by auto
  have "set ys' = insert x (set ys)" using y(2) by (metis set_mset_add_mset_insert set_mset_mset)
  then have "set ys' \<subseteq> A" using Cons.prems by simp
  then obtain zs where z: "sift_all lt ys' xs = Some zs" "mset zs = mset ys' + mset xs"
      "sorted_wrt (\<lambda>p q. lt q p = Some False) zs" "\<forall>c\<in>A. filter (tied lt c) zs = filter (tied lt c) (rev ys' @ xs)"
    using Cons.IH [of ys'] Cons.prems y(3) by auto
  have "filter (tied lt c) zs = filter (tied lt c) (rev ys @ x # xs)" if "c \<in> A" for c
    using z(4) y(4) that by (simp flip: rev_filter)
  with y(1,2) z(1-3) show ?case by simp
qed

lemma SliceStable_works:
  assumes "set xs \<subseteq> A"
  shows "\<exists>zs. SliceStable lt xs = Some zs \<and> mset zs = mset xs
    \<and> sorted_wrt (\<lambda>p q. lt q p = Some False) zs \<and> (\<forall>c\<in>A. filter (tied lt c) zs = filter (tied lt c) xs)"
  using sift_all_works [OF assms, of "[]"] by (simp add: SliceStable_def)

end

section \<open>The order of the rows\<close>

text \<open>The place of a value among the values of its type; null comes first.\<close>

fun rank :: "gvalue \<Rightarrow> nat \<times> rat \<times> string" where
  "rank VNull = (0, 0, '''')"
| "rank (VString n s) = (2, 0, if n = '''' then s else '''')"
| "rank (VInt n k i) = (2, if n = '''' then of_int i else 0, '''')"
| "rank (VFloat n k f) =
     (if n \<noteq> '''' then (2, 0, '''')
      else case f of NInf \<Rightarrow> (1, 0, '''') | Fin r \<Rightarrow> (2, r, '''') | _ \<Rightarrow> (3, 0, ''''))"
| "rank (VTime t) = (2, of_int t, '''')"
| "rank (VMetaTime t) = (2, of_int t, '''')"
| "rank v = (2, 0, '''')"

fun is_nan :: "gvalue \<Rightarrow> bool" where
  "is_nan (VFloat n k NaN) = True"
| "is_nan v = False"

definition of_type :: "gtype \<Rightarrow> gvalue \<Rightarrow> bool" where
  "of_type t v \<longleftrightarrow> v = VNull \<or> TypeOf v = t \<and> \<not> is_nan v"

lemma compare_keys_rank:
  assumes "of_type t p" and "of_type t q"
  shows "compare_keys pgtq p q = three_way pgtq (rank p = rank q) (rank p > rank q)"
  using assms
  by (cases p; cases q) (auto simp: of_type_def compare_keys_def three_way_def less_prod_def split: float_value.splits)

text \<open>The rows whose keys can be evaluated and are null or of the given types.\<close>

definition key_typed :: "'o \<Rightarrow> 'o Order \<Rightarrow> gtype \<Rightarrow> bool" where
  "key_typed p ord t \<longleftrightarrow> (case Expr_Eval (ord_Expr ord) p of Some (Inr v) \<Rightarrow> of_type t v | _ \<Rightarrow> False)"

definition rows_typed :: "'o Order list \<Rightarrow> gtype list \<Rightarrow> 'o set" where
  "rows_typed ords ts = {p. list_all2 (key_typed p) ords ts}"

definition row_keys :: "'o Order list \<Rightarrow> 'o \<Rightarrow> (nat \<times> rat \<times> string) list" where
  "row_keys ords p = map (\<lambda>ord. case Expr_Eval (ord_Expr ord) p of Some (Inr v) \<Rightarrow> rank v | _ \<Rightarrow> rank VNull) ords"

definition descending :: "'o Order list \<Rightarrow> bool list" where
  "descending ords = map (\<lambda>ord. ord_Direction ord = DescScr) ords"

lemma key_lengths [simp]: "length (descending ords) = length ords" "length (row_keys ords p) = length ords"
  by (simp_all add: descending_def row_keys_def)

text \<open>The lexicographic order of the keys, some of them descending.\<close>

fun keys_less :: "bool list \<Rightarrow> 'k :: linorder list \<Rightarrow> 'k list \<Rightarrow> bool" where
  "keys_less (d # ds) (a # as) (b # bs) \<longleftrightarrow> (if d then b < a else a < b) \<or> a = b \<and> keys_less ds as bs"
| "keys_less ds as bs \<longleftrightarrow> False"

lemma keys_less_asym: "keys_less ds as bs \<Longrightarrow> \<not> keys_less ds bs as"
  by (induction ds as bs rule: keys_less.induct) (auto split: if_splits)

lemma keys_less_total:
  "length ds = length as \<Longrightarrow> length as = length bs \<Longrightarrow> \<not> keys_less ds as bs \<Longrightarrow> \<not> keys_less ds bs as \<Longrightarrow> as = bs"
  by (induction ds as bs rule: keys_less.induct) (auto split: if_splits)

lemma keys_less_cotrans:
  "length ds = length as \<Longrightarrow> length as = length bs \<Longrightarrow> length bs = length cs \<Longrightarrow>
   keys_less ds as cs \<Longrightarrow> keys_less ds as bs \<or> keys_less ds bs cs"
proof (induction ds arbitrary: as bs cs)
  case (Cons d ds)
  then show ?case by (cases as; cases bs; cases cs) (auto split: if_splits)
qed simp

lemma Order_compare_typed:
  assumes "key_typed p ord t" and "key_typed q ord t"
  shows "\<exists>v w. Expr_Eval (ord_Expr ord) p = value_of v \<and> Expr_Eval (ord_Expr ord) q = value_of w \<and>
    Order_compare ord p q =
      Some (Inr (three_way (if ord_Direction ord = DescScr then - 1 else 1) (rank v = rank w) (rank v > rank w)))"
  using assms by (auto simp: key_typed_def Order_compare_def compare_keys_rank Let_def split: option.splits sum.splits)

lemma rows_less_keys:
  assumes "p \<in> rows_typed ords ts" and "q \<in> rows_typed ords ts"
  shows "rows_less ords p q = Some (keys_less (descending ords) (row_keys ords p) (row_keys ords q))"
proof -
  have "list_all2 (\<lambda>ord t. key_typed p ord t \<and> key_typed q ord t) ords ts"
    using assms by (auto simp: rows_typed_def list_all2_conv_all_nth)
  then show ?thesis
  proof (induction rule: list_all2_induct)
    case (Cons ord ords t ts)
    obtain v w where v: "Expr_Eval (ord_Expr ord) p = value_of v" "Expr_Eval (ord_Expr ord) q = value_of w"
      "Order_compare ord p q =
        Some (Inr (three_way (if ord_Direction ord = DescScr then - 1 else 1) (rank v = rank w) (rank v > rank w)))"
      using Order_compare_typed [OF conjunct1 [OF Cons.hyps(1)] conjunct2 [OF Cons.hyps(1)]] by (elim exE conjE) (rule that)
    show ?case
    proof (cases "rank v" "rank w" rule: linorder_cases)
      case equal
      with v show ?thesis using Cons.IH by (simp add: three_way_def row_keys_def descending_def)
    next
      case less
      with v show ?thesis using less_imp_neq [OF less] less_not_sym [OF less] by (simp add: three_way_def row_keys_def descending_def)
    next
      case greater
      with v show ?thesis using less_imp_neq [OF greater] less_not_sym [OF greater] by (simp add: three_way_def row_keys_def descending_def)
    qed
  qed (simp add: row_keys_def descending_def)
qed

interpretation rows: weak_order "rows_less ords" "rows_typed ords ts" for ords :: "'o Order list" and ts
proof unfold_locales
  fix p q r :: 'o
  assume p: "p \<in> rows_typed ords ts" and q: "q \<in> rows_typed ords ts"
  show "rows_less ords p q \<noteq> None" using rows_less_keys [OF p q] by simp
  show "rows_less ords p q = Some True \<Longrightarrow> rows_less ords q p = Some False"
    using rows_less_keys [OF p q] rows_less_keys [OF q p] keys_less_asym by auto
  assume r: "r \<in> rows_typed ords ts" and "rows_less ords p q = Some False" "rows_less ords q r = Some False"
  then show "rows_less ords p r = Some False"
    using rows_less_keys [OF p q] rows_less_keys [OF q r] rows_less_keys [OF p r]
      keys_less_cotrans [of "descending ords" "row_keys ords p" "row_keys ords q" "row_keys ords r"]
    by auto
qed

lemma tied_keys:
  assumes "p \<in> rows_typed ords ts" and "q \<in> rows_typed ords ts"
  shows "tied (rows_less ords) p q \<longleftrightarrow> row_keys ords q = row_keys ords p"
proof -
  have "\<not> keys_less ds ks ks" for ds and ks :: "(nat \<times> rat \<times> string) list" using keys_less_asym by blast
  then show ?thesis
    using rows_less_keys [OF assms] rows_less_keys [OF assms(2) assms(1)]
      keys_less_total [of "descending ords" "row_keys ords q" "row_keys ords p"]
    by (auto simp: tied_def)
qed


definition sample_rows :: "(string \<times> gvalue) list" where
  "sample_rows = [(''a'', VInt '''' KInt32 1), (''b'', VNull), (''c'', VInt '''' KInt32 4), (''d'', VInt '''' KInt32 1)]"

definition sample_order :: "(string \<times> gvalue) Order list" where
  "sample_order = [\<lparr> ord_Expr = JSONPathVal (\<lambda>row. Inr [[Some (snd row)]]) ''$.spec'', ord_Direction = DescScr \<rparr>]"


end
