(* ===== verification/Reconcile.thy ===== *)
theory Reconcile
  imports Resources
begin

text \<open>
  What the controllers of the messaging resources share (\<open>pkg/controller/messaging*\<close>): the results of a
  reconcile run, the wrapper \<open>resourceContext.Process\<close> that writes the status back, the lookup of the
  infrastructure of a namespace, and pointers into a slice of conditions. The calls of a controller to
  the Kubernetes API and to the infrastructure client are computations over a world; \<open>logged\<close> adds to
  the world the list of the calls made so far, newest first, which the statements on the controllers
  are about.
\<close>

named_theorems wp_rules "weakest preconditions of computations"

section \<open>Results\<close>

record reconcile_Result =
  rr_Requeue :: bool
  rr_RequeueAfter :: time

record processorResult =
  pr_Requeue :: bool
  pr_RequeueAfter :: time
  pr_Return :: bool

definition Result0 :: reconcile_Result where
  "Result0 = \<lparr> rr_Requeue = False, rr_RequeueAfter = 0 \<rparr>"

definition processed :: processorResult where
  "processed = \<lparr> pr_Requeue = False, pr_RequeueAfter = 0, pr_Return = False \<rparr>"

definition requeue :: processorResult where
  "requeue = processed\<lparr>pr_Requeue := True\<rparr>"

definition return_now :: processorResult where
  "return_now = processed\<lparr>pr_Return := True\<rparr>"

definition requeue_after :: "int \<Rightarrow> processorResult" where
  "requeue_after seconds = processed\<lparr>pr_RequeueAfter := seconds * 1000000000\<rparr>"

lemmas result_defs = Result0_def processed_def requeue_def return_now_def requeue_after_def

lemma result_simps [simp]:
  "pr_Requeue processed = False" "pr_RequeueAfter processed = 0" "pr_Return processed = False"
  "pr_Requeue requeue = True" "pr_RequeueAfter requeue = 0" "pr_Return requeue = False"
  "pr_Requeue return_now = False" "pr_RequeueAfter return_now = 0" "pr_Return return_now = True"
  "pr_Requeue (requeue_after n) = False" "pr_RequeueAfter (requeue_after n) = n * 1000000000" "pr_Return (requeue_after n) = False"
  "rr_Requeue Result0 = False" "rr_RequeueAfter Result0 = 0" "processed\<lparr>pr_Requeue := False\<rparr> = processed" "processed\<lparr>pr_Requeue := True\<rparr> = requeue"
  by (simp_all add: result_defs)

definition ShouldReturn :: "processorResult \<Rightarrow> error option \<Rightarrow> bool" where
  "ShouldReturn r err \<longleftrightarrow> err \<noteq> None \<or> pr_Requeue r \<or> pr_RequeueAfter r > 0 \<or> pr_Return r"

definition processorResult_Result :: "processorResult \<Rightarrow> reconcile_Result" where
  "processorResult_Result r = \<lparr> rr_Requeue = pr_Requeue r, rr_RequeueAfter = pr_RequeueAfter r \<rparr>"

lemma ShouldReturn_simps [simp]:
  "ShouldReturn r (Some e)" "ShouldReturn processed err \<longleftrightarrow> err \<noteq> None" "ShouldReturn requeue err" "ShouldReturn return_now err"
  "ShouldReturn (requeue_after n) err \<longleftrightarrow> err \<noteq> None \<or> n > 0"
  by (simp_all add: ShouldReturn_def)

section \<open>Processing a resource\<close>

text \<open>
  A step of a controller changes the resource and the variables of the run, \<open>'o\<close>. After a step that
  failed or asks to be run again the status is written. The code compares the status with the one it
  read to see whether it has changed, but it compares a pointer to a status with a status, which
  \<open>reflect.DeepEqual\<close> takes as different always.
\<close>

type_synonym ('w, 'o) step = "'o \<Rightarrow> ('w, (processorResult \<times> error option) \<times> 'o) prog"

definition Process :: "('o \<Rightarrow> ('w, error option \<times> 'o) prog) \<Rightarrow> ('w, 'o) step \<Rightarrow> ('w, 'o) step" where
  "Process statusUpdate processor obj =
     bindp (processor obj) (\<lambda>((result, err), obj1).
     if err \<noteq> None \<or> pr_Requeue result \<or> pr_RequeueAfter result > 0
     then bindp (statusUpdate obj1) (\<lambda>(statuserr, obj2).
          ret ((result, if err = None then statuserr else err), obj2))
     else ret ((result, err), obj1))"

text \<open>\<open>if result.ShouldReturn(err) { return result.Result(), err }\<close> after a step.\<close>

definition and_then ::
  "('w, (processorResult \<times> error option) \<times> 'o) prog \<Rightarrow> ('o \<Rightarrow> ('w, reconcile_Result \<times> error option) prog)
    \<Rightarrow> ('w, reconcile_Result \<times> error option) prog" where
  "and_then m f =
     bindp m (\<lambda>((result, err), obj).
     if ShouldReturn result err then ret (processorResult_Result result, err) else f obj)"

text \<open>The last step: its result is the result of the run.\<close>

definition and_return ::
  "('w, (processorResult \<times> error option) \<times> 'o) prog \<Rightarrow> ('w, reconcile_Result \<times> error option) prog" where
  "and_return m = bindp m (\<lambda>((result, err), obj). ret (processorResult_Result result, err))"

section \<open>Errors of the Kubernetes API\<close>

fun k8errors_IsNotFound :: "error \<Rightarrow> bool" where
  "k8errors_IsNotFound (StatusNotFound s) = True"
| "k8errors_IsNotFound err = False"

fun utilerrors_IsNotFound :: "error \<Rightarrow> bool" where
  "utilerrors_IsNotFound (NotFoundError kind name namespace) = True"
| "utilerrors_IsNotFound err = False"

fun utilerrors_IsNotBound :: "error \<Rightarrow> bool" where
  "utilerrors_IsNotBound (NotBoundError namespace) = True"
| "utilerrors_IsNotBound err = False"

record NamespacedName =
  nn_Namespace :: string
  nn_Name :: string

definition PROJECT_RESOURCE_NAME :: string where "PROJECT_RESOURCE_NAME = ''default''"
definition FINALIZER_NAME :: string where "FINALIZER_NAME = ''enmasse.io/operator''"

definition GetProjectCaSecretName :: "string \<Rightarrow> string" where
  "GetProjectCaSecretName namespace = namespace @ ''-project-ca''"

definition infra_ref :: "MessagingProject \<Rightarrow> NamespacedName" where
  "infra_ref project =
     (let ref = pst_MessagingInfrastructureRef (mp_Status project)
      in \<lparr> nn_Namespace = ref_Namespace ref, nn_Name = ref_Name ref \<rparr>)"

text \<open>The two reads of the API are parameters. The project that the code returns beside an error is not used.\<close>

definition LookupInfra ::
  "(NamespacedName \<Rightarrow> ('w, error + MessagingProject) prog) \<Rightarrow> (NamespacedName \<Rightarrow> ('w, error + MessagingInfrastructure) prog)
    \<Rightarrow> string \<Rightarrow> ('w, error + MessagingProject \<times> MessagingInfrastructure) prog" where
  "LookupInfra getProject getInfra namespace =
     bindp (getProject \<lparr> nn_Namespace = namespace, nn_Name = PROJECT_RESOURCE_NAME \<rparr>) (\<lambda>r. case r of
       Inl err \<Rightarrow>
         if k8errors_IsNotFound err
         then ret (Inl (NotFoundError ''MessagingProject'' PROJECT_RESOURCE_NAME namespace))
         else ret (Inl err)
     | Inr project \<Rightarrow>
         if \<not> MessagingProject_IsBound project then ret (Inl (NotBoundError namespace))
         else bindp (getInfra (infra_ref project)) (\<lambda>r. case r of
                Inl err \<Rightarrow> ret (Inl err)
              | Inr infra \<Rightarrow> ret (Inr (project, infra))))"

text \<open>Errors of the infrastructure client after which a step is tried again.\<close>

definition is_transient :: "error \<Rightarrow> bool" where
  "is_transient err \<longleftrightarrow> err = NotInitializedError \<or> err = RequestTimeoutError \<or> err = NotSyncedError"

section \<open>Pointers to conditions\<close>

text \<open>
  A condition getter returns a pointer into the slice of conditions. When a later getter appends to
  a slice that is full, the slice moves to a new array and the pointer refers to the old one: what is
  written through it is lost. A pointer is the index of its condition as long as it refers to the
  current array and \<open>None\<close> afterwards. The capacity of a slice that was decoded and the growth of a
  full slice are left open by the language: \<open>cap\<close> and \<open>grow\<close> are parameters.
\<close>

fun get_pointers ::
  "(nat \<Rightarrow> nat) \<Rightarrow> time \<Rightarrow> nat \<Rightarrow> string list \<Rightarrow> nat option list \<times> Condition list \<Rightarrow> nat option list \<times> Condition list" where
  "get_pointers grow now cap [] (ptrs, cs) = (ptrs, cs)"
| "get_pointers grow now cap (t # ts) (ptrs, cs) =
     (let (i, cs') = getCondition now t cs
      in if length cs' = length cs then get_pointers grow now cap ts (ptrs @ [Some i], cs')
         else if length cs < cap then get_pointers grow now cap ts (ptrs @ [Some i], cs')
         else get_pointers grow now (max (length cs') (grow cap)) ts (map (\<lambda>p. None) ptrs @ [Some i], cs'))"

definition set_pointer :: "time \<Rightarrow> string \<Rightarrow> string \<Rightarrow> nat option \<Rightarrow> Condition list \<Rightarrow> Condition list" where
  "set_pointer now status message p cs =
     (case p of
        None \<Rightarrow> cs
      | Some i \<Rightarrow> cs[i := Condition_SetStatus now status '''' message (cs ! i)])"

section \<open>Logged calls\<close>

definition logged :: "('r \<Rightarrow> 'e) \<Rightarrow> ('w, 'r) prog \<Rightarrow> ('w \<times> 'e list, 'r) prog" where
  "logged ev m = (\<lambda>(w, h). case m w of None \<Rightarrow> None | Some (r, w') \<Rightarrow> Some (r, (w', ev r # h)))"

text \<open>A log grows at its front.\<close>

definition grown :: "'e list \<Rightarrow> 'e list \<Rightarrow> bool" where
  "grown h h' \<longleftrightarrow> (\<exists>evs. h' = evs @ h)"

lemma grown_refl [simp]: "grown h h"
  by (simp add: grown_def)

lemma grown_Cons [simp]: "grown h h' \<Longrightarrow> grown h (e # h')"
  by (auto simp: grown_def)

lemma grown_trans: "grown h h' \<Longrightarrow> grown h' h'' \<Longrightarrow> grown h h''"
  by (auto simp: grown_def)

lemma grown_list_ex: "grown h h' \<Longrightarrow> list_ex P h \<Longrightarrow> list_ex P h'"
  by (auto simp: grown_def)

section \<open>Weakest preconditions\<close>

text \<open>The computation returns and its result satisfies the condition.\<close>

definition wp :: "('w, 'a) prog \<Rightarrow> ('a \<Rightarrow> 'w \<Rightarrow> bool) \<Rightarrow> 'w \<Rightarrow> bool" where
  "wp m Q w \<longleftrightarrow> (\<exists>a w'. m w = Some (a, w') \<and> Q a w')"

lemma wp_ret [wp_rules]: "wp (ret a) Q = Q a"
  by (rule ext) (simp add: wp_def)

lemma wp_bindp [wp_rules]: "wp (bindp m f) Q = wp m (\<lambda>a. wp (f a) Q)"
  by (rule ext) (auto simp: wp_def bindp_def split: option.splits)

lemma wp_mono: "wp m Q w \<Longrightarrow> (\<And>a w'. Q a w' \<Longrightarrow> R a w') \<Longrightarrow> wp m R w"
  by (auto simp: wp_def)

lemma wp_if [wp_rules]: "wp (if b then m else m') Q = (if b then wp m Q else wp m' Q)"
  by simp

lemma wp_split [wp_rules]: "wp (case_prod f p) Q = (case p of (a, b) \<Rightarrow> wp (f a b) Q)"
  by (simp add: split_beta)

lemma wp_cong: "(\<And>a w'. Q a w' = R a w') \<Longrightarrow> wp m Q w = wp m R w"
  by (simp add: wp_def)

lemma wp_run: "wp m Q w \<Longrightarrow> m w = Some (a, w') \<Longrightarrow> Q a w'"
  by (simp add: wp_def)

lemma wp_returns: "wp m Q w \<Longrightarrow> m w \<noteq> None"
  by (auto simp: wp_def)

text \<open>A computation that cannot panic, and the same with its call logged.\<close>

definition total :: "('w, 'a) prog \<Rightarrow> bool" where
  "total m \<longleftrightarrow> (\<forall>w. m w \<noteq> None)"

lemma wp_logged:
  assumes "total m" and "\<And>r w'. Q r (w', ev r # h)"
  shows "wp (logged ev m) Q (w, h)"
proof -
  obtain r w' where "m w = Some (r, w')" using assms(1) [unfolded total_def, rule_format, of w] by auto
  then show ?thesis using assms(2) by (simp add: wp_def logged_def)
qed

lemma wp_Process [wp_rules]:
  "wp (Process up p obj) Q = wp (p obj) (\<lambda>((result, err), obj1).
     if err \<noteq> None \<or> pr_Requeue result \<or> pr_RequeueAfter result > 0
     then wp (up obj1) (\<lambda>(statuserr, obj2). Q ((result, if err = None then statuserr else err), obj2))
     else Q ((result, err), obj1))"
  unfolding Process_def wp_bindp by (rule arg_cong [of _ _ "wp (p obj)"]) (auto simp: wp_rules fun_eq_iff)

lemma wp_and_then [wp_rules]:
  "wp (and_then m f) Q = wp m (\<lambda>((result, err), obj).
     if ShouldReturn result err then Q (processorResult_Result result, err) else wp (f obj) Q)"
  unfolding and_then_def wp_bindp by (rule arg_cong [of _ _ "wp m"]) (auto simp: wp_rules fun_eq_iff)

lemma wp_and_return [wp_rules]:
  "wp (and_return m) Q = wp m (\<lambda>((result, err), obj). Q (processorResult_Result result, err))"
  unfolding and_return_def wp_bindp by (rule arg_cong [of _ _ "wp m"]) (auto simp: wp_rules fun_eq_iff)

section \<open>Stages of a run\<close>

text \<open>
  A step that never writes the resource itself: when it lets the run go on, the condition holds of
  the variables and the log, and when it ends the run without an error, it asks for another one
  within ten seconds.
\<close>

definition soon :: "processorResult \<Rightarrow> bool" where
  "soon res \<longleftrightarrow> pr_Requeue res \<or> 0 < pr_RequeueAfter res \<and> pr_RequeueAfter res \<le> 10 * 1000000000"

lemma soon_simps [simp]: "soon requeue" "soon (requeue_after n) \<longleftrightarrow> 0 < n \<and> n \<le> 10"
  by (auto simp: soon_def)

definition staged ::
  "('e \<Rightarrow> bool) \<Rightarrow> ('o \<Rightarrow> ('w \<times> 'e list, error option \<times> 'o) prog) \<Rightarrow> ('w \<times> 'e list, 'o) step \<Rightarrow> 'o \<Rightarrow> 'w \<times> 'e list
    \<Rightarrow> ('o \<Rightarrow> 'e list \<Rightarrow> bool) \<Rightarrow> bool" where
  "staged up U step r wh Q \<longleftrightarrow> wp (Process U step r)
     (\<lambda>((res, err), r') (w', h'). \<not> list_ex up h' \<and> (\<not> ShouldReturn res err \<longrightarrow> Q r' h') \<and>
        (err = None \<longrightarrow> ShouldReturn res err \<longrightarrow> soon res)) wh"

lemma staged_then:
  assumes step: "staged up U step r wh Q"
    and again: "\<And>res err w' h'. \<not> list_ex up h' \<Longrightarrow> err = None \<longrightarrow> soon res \<Longrightarrow>
      Post (processorResult_Result res, err) (w', h')"
    and go_on: "\<And>r' w' h'. Q r' h' \<Longrightarrow> \<not> list_ex up h' \<Longrightarrow> wp (f r') Post (w', h')"
  shows "wp (and_then (Process U step r) f) Post wh"
  unfolding wp_and_then
proof (rule wp_mono [OF step [unfolded staged_def]], goal_cases)
  case (1 a wh')
  obtain res err r' w' h' where eqs: "a = ((res, err), r')" "wh' = (w', h')" by (metis prod.exhaust)
  then show ?case using 1 again [of h' err res w'] go_on [of r' h' w'] by (cases "ShouldReturn res err") auto
qed

end
