(* ===== verification/Finalizer.thy ===== *)
theory Finalizer
  imports Reconcile
begin

text \<open>
  Finalizers (\<open>pkg/util/finalizer/finalizer.go\<close>): names in the metadata of a resource that keep it from
  being removed until the controller has cleaned up. The object is abstract; the accessors of its
  metadata are parameters, as are the deconstructors, which may change the object.
\<close>

section \<open>Lists of finalizers\<close>

fun hasFinalizer :: "string \<Rightarrow> string list \<Rightarrow> bool" where
  "hasFinalizer name [] = False"
| "hasFinalizer name (e # es) = (if name = e then True else hasFinalizer name es)"

text \<open>The loop goes down from the last index, so that a removal does not move what is still to be visited.\<close>

fun remove_from :: "string \<Rightarrow> nat \<Rightarrow> string list \<Rightarrow> string list" where
  "remove_from name 0 xs = xs"
| "remove_from name (Suc i) xs = remove_from name i (if xs ! i = name then take i xs @ drop (Suc i) xs else xs)"

definition removeFinalizer :: "string \<Rightarrow> string list \<Rightarrow> string list" where
  "removeFinalizer name xs = remove_from name (length xs) xs"

section \<open>Processing\<close>

record 'o accessors =
  acc_deletion :: "'o \<Rightarrow> time option"
  acc_finalizers :: "'o \<Rightarrow> string list"
  acc_set :: "string list \<Rightarrow> 'o \<Rightarrow> 'o"

record ('w, 'o) Finalizer =
  fin_Name :: string
  fin_Deconstruct :: "('o \<Rightarrow> ('w, (reconcile_Result \<times> error option) \<times> 'o) prog) option"

fun add_missing :: "string list \<Rightarrow> string list \<Rightarrow> bool \<times> string list" where
  "add_missing [] current = (False, current)"
| "add_missing (name # names) current =
     (if hasFinalizer name current then add_missing names current
      else (True, snd (add_missing names (current @ [name]))))"

definition deconstruct :: "('w, 'o) Finalizer \<Rightarrow> 'o \<Rightarrow> ('w, (reconcile_Result \<times> error option) \<times> 'o) prog" where
  "deconstruct f obj = (case fin_Deconstruct f of None \<Rightarrow> ret ((Result0, None), obj) | Some d \<Rightarrow> d obj)"

definition finalizer_error :: "error \<Rightarrow> error" where
  "finalizer_error e = Errorf (''Failed processing finalizers: '' @ error_string e)"

fun run_finalizers ::
  "'o accessors \<Rightarrow> string list \<Rightarrow> ('w, 'o) Finalizer list \<Rightarrow> 'o \<Rightarrow> ('w, (reconcile_Result \<times> error option) \<times> 'o) prog" where
  "run_finalizers acc current [] obj = ret ((Result0, None), obj)"
| "run_finalizers acc current (f # fs) obj =
     (if \<not> hasFinalizer (fin_Name f) current then run_finalizers acc current fs obj
      else bindp (deconstruct f obj) (\<lambda>((result, err), obj1). case err of
             Some e \<Rightarrow> ret ((Result0, Some (finalizer_error e)), obj1)
           | None \<Rightarrow>
               if \<not> rr_Requeue result \<and> rr_RequeueAfter result \<le> 0
               then ret ((Result0\<lparr>rr_Requeue := True\<rparr>, None), acc_set acc (removeFinalizer (fin_Name f) current) obj1)
               else ret ((result, None), obj1)))"

definition ProcessFinalizers ::
  "'o accessors \<Rightarrow> ('w, 'o) Finalizer list \<Rightarrow> 'o \<Rightarrow> ('w, (reconcile_Result \<times> error option) \<times> 'o) prog" where
  "ProcessFinalizers acc fs obj =
     (if acc_deletion acc obj = None
      then let (changed, current) = add_missing (map fin_Name fs) (acc_finalizers acc obj)
           in if changed then ret ((Result0\<lparr>rr_Requeue := True\<rparr>, None), acc_set acc current obj)
              else ret ((Result0, None), obj)
      else run_finalizers acc (acc_finalizers acc obj) fs obj)"

section \<open>Lists of finalizers: what the loops do\<close>

lemma hasFinalizer_iff [simp]: "hasFinalizer name xs \<longleftrightarrow> name \<in> set xs"
  by (induction xs) auto

lemma remove_from_filter: "i \<le> length xs \<Longrightarrow> remove_from name i xs = filter (\<lambda>x. x \<noteq> name) (take i xs) @ drop i xs"
proof (induction i arbitrary: xs)
  case (Suc i)
  then have i: "i < length xs" by simp
  then have t: "take (Suc i) xs = take i xs @ [xs ! i]" and d: "drop i xs = xs ! i # drop (Suc i) xs"
    by (simp_all add: take_Suc_conv_app_nth Cons_nth_drop_Suc)
  show ?case
  proof (cases "xs ! i = name")
    case True
    let ?ys = "take i xs @ drop (Suc i) xs"
    have "take i ?ys = take i xs" "drop i ?ys = drop (Suc i) xs" using i by simp_all
    then show ?thesis using Suc.IH [of ?ys] True i t by simp
  next
    case False
    then show ?thesis using Suc.IH [of xs] i t d by simp
  qed
qed simp

lemma removeFinalizer_filter [simp]: "removeFinalizer name xs = filter (\<lambda>x. x \<noteq> name) xs"
  by (simp add: removeFinalizer_def remove_from_filter)

lemma add_missing_snd:
  "\<exists>ext. snd (add_missing names current) = current @ ext \<and> set ext \<subseteq> set names \<and> set ext \<inter> set current = {} \<and> distinct ext"
proof (induction names arbitrary: current)
  case (Cons n names)
  show ?case
  proof (cases "n \<in> set current")
    case False
    obtain ext where "snd (add_missing names (current @ [n])) = (current @ [n]) @ ext" "set ext \<subseteq> set names"
        "set ext \<inter> set (current @ [n]) = {}" "distinct ext"
      using Cons.IH [of "current @ [n]"] by auto
    then show ?thesis using False by (intro exI [of _ "n # ext"]) auto
  next
    case True
    then show ?thesis using Cons.IH [of current] by auto
  qed
qed simp

lemma add_missing_all: "set names \<subseteq> set (snd (add_missing names current))"
proof (induction names arbitrary: current)
  case (Cons n names)
  then show ?case using add_missing_snd [of names "current @ [n]"] add_missing_snd [of names current] by auto
qed simp

lemma add_missing_fst: "fst (add_missing names current) \<longleftrightarrow> \<not> set names \<subseteq> set current"
  by (induction names arbitrary: current) auto

section \<open>Finalizers of a resource that is not deleted\<close>

definition lawful :: "'o accessors \<Rightarrow> bool" where
  "lawful acc \<longleftrightarrow> (\<forall>xs obj. acc_finalizers acc (acc_set acc xs obj) = xs \<and> acc_deletion acc (acc_set acc xs obj) = acc_deletion acc obj)"

text \<open>For a resource that is not being deleted, processing only appends the missing finalizers, each of them once,
  keeps those that are there in their places, and asks for another round exactly when it has added one; a
  second round finds nothing to do.\<close>

theorem ProcessFinalizers_adds:
  assumes "lawful acc" and "acc_deletion acc obj = None"
  shows "\<exists>requeue obj'. ProcessFinalizers acc fs obj w = Some (((Result0\<lparr>rr_Requeue := requeue\<rparr>, None), obj'), w)
    \<and> (\<exists>ext. acc_finalizers acc obj' = acc_finalizers acc obj @ ext \<and> distinct ext
         \<and> set ext = fin_Name ` set fs - set (acc_finalizers acc obj))
    \<and> requeue = (\<not> fin_Name ` set fs \<subseteq> set (acc_finalizers acc obj))
    \<and> ProcessFinalizers acc fs obj' w' = Some (((Result0, None), obj'), w')"
proof -
  let ?names = "map fin_Name fs" and ?cur = "acc_finalizers acc obj"
  obtain changed current where c: "add_missing ?names ?cur = (changed, current)" by (cases "add_missing ?names ?cur")
  obtain ext where e: "current = ?cur @ ext" "set ext \<subseteq> set ?names" "set ext \<inter> set ?cur = {}" "distinct ext"
    using add_missing_snd [of ?names ?cur] c by auto
  have "set ext = fin_Name ` set fs - set ?cur" using e add_missing_all [of ?names ?cur] c by auto
  moreover have ch: "changed = (\<not> fin_Name ` set fs \<subseteq> set ?cur)" using add_missing_fst [of ?names ?cur] c by simp
  moreover have "add_missing ?names current = (False, current)" if "changed"
  proof -
    have all: "set ?names \<subseteq> set current" using add_missing_all [of ?names ?cur] c by simp
    then have "\<not> fst (add_missing ?names current)" by (simp add: add_missing_fst)
    moreover have "add_missing names current = (False, current)" if "set names \<subseteq> set current" for names
      using that by (induction names) auto
    ultimately show ?thesis using all by blast
  qed
  ultimately show ?thesis
    using assms c e by (cases changed) (auto simp: ProcessFinalizers_def lawful_def Result0_def)
qed

section \<open>Finalizers of a resource that is deleted\<close>

text \<open>A deconstructor that has nothing left to do, and leaves the metadata alone.\<close>

definition finishes :: "'o accessors \<Rightarrow> ('w, 'o) Finalizer \<Rightarrow> bool" where
  "finishes acc f \<longleftrightarrow> (\<forall>obj w. \<exists>result obj' w'. deconstruct f obj w = Some (((result, None), obj'), w') \<and>
     \<not> rr_Requeue result \<and> rr_RequeueAfter result \<le> 0 \<and>
     acc_deletion acc obj' = acc_deletion acc obj \<and> acc_finalizers acc obj' = acc_finalizers acc obj)"

text \<open>Rounds of processing, as the work queue runs them while another one is asked for.\<close>

fun finalizer_rounds ::
  "nat \<Rightarrow> 'o accessors \<Rightarrow> ('w, 'o) Finalizer list \<Rightarrow> 'o \<Rightarrow> ('w, 'o option) prog" where
  "finalizer_rounds 0 acc fs obj = ret None"
| "finalizer_rounds (Suc n) acc fs obj =
     bindp (ProcessFinalizers acc fs obj) (\<lambda>((result, err), obj').
     if err = None \<and> rr_Requeue result then finalizer_rounds n acc fs obj' else ret (Some obj'))"

lemma run_finalizers_none:
  "fin_Name ` set fs \<inter> set current = {} \<Longrightarrow> run_finalizers acc current fs obj w = Some (((Result0, None), obj), w)"
  by (induction fs) auto

lemma run_finalizers_removes:
  assumes "\<forall>f \<in> set fs. finishes acc f" and "lawful acc" and "fin_Name ` set fs \<inter> set current \<noteq> {}"
  shows "\<exists>obj' w' name. run_finalizers acc current fs obj w = Some (((Result0\<lparr>rr_Requeue := True\<rparr>, None), obj'), w')
    \<and> name \<in> fin_Name ` set fs \<inter> set current \<and> acc_finalizers acc obj' = filter (\<lambda>x. x \<noteq> name) current
    \<and> acc_deletion acc obj' = acc_deletion acc obj"
  using assms
proof (induction fs)
  case (Cons f fs)
  show ?case
  proof (cases "fin_Name f \<in> set current")
    case False
    then show ?thesis using Cons by auto
  next
    case True
    obtain result obj' w' where d: "deconstruct f obj w = Some (((result, None), obj'), w')"
        "\<not> rr_Requeue result" "rr_RequeueAfter result \<le> 0" "acc_deletion acc obj' = acc_deletion acc obj"
      using Cons.prems(1) unfolding finishes_def by (metis list.set_intros(1))
    then have "run_finalizers acc current (f # fs) obj w =
      Some (((Result0\<lparr>rr_Requeue := True\<rparr>, None), acc_set acc (filter (\<lambda>x. x \<noteq> fin_Name f) current) obj'), w')"
      using True by (simp add: bindp_def)
    then show ?thesis using True d(4) Cons.prems(2) by (auto simp: lawful_def)
  qed
qed simp

text \<open>C19 (termination): when every deconstructor finishes, a resource that is being deleted needs at most one round
  for each of its finalizers and one more: then the rounds have ended by themselves, none of the given finalizers is
  left, and all the others are.\<close>

theorem finalizer_rounds_end:
  assumes "\<forall>f \<in> set fs. finishes acc f" and "lawful acc" and "acc_deletion acc obj \<noteq> None"
    and "length (acc_finalizers acc obj) < n"
  shows "\<exists>obj' w'. finalizer_rounds n acc fs obj w = Some (Some obj', w')
    \<and> acc_finalizers acc obj' = filter (\<lambda>x. x \<notin> fin_Name ` set fs) (acc_finalizers acc obj)"
  using assms(3,4)
proof (induction n arbitrary: obj w)
  case (Suc n)
  let ?cur = "acc_finalizers acc obj"
  obtain d where d: "acc_deletion acc obj = Some d" using Suc.prems(1) by auto
  show ?case
  proof (cases "fin_Name ` set fs \<inter> set ?cur = {}")
    case True
    have "filter (\<lambda>x. x \<notin> fin_Name ` set fs) ?cur = ?cur" using True by (intro filter_True) auto
    then show ?thesis using d run_finalizers_none [OF True, of acc obj w]
      by (simp add: bindp_def ProcessFinalizers_def Result0_def)
  next
    case False
    obtain obj' w' name where o: "run_finalizers acc ?cur fs obj w = Some (((Result0\<lparr>rr_Requeue := True\<rparr>, None), obj'), w')"
        "name \<in> fin_Name ` set fs \<inter> set ?cur" "acc_finalizers acc obj' = filter (\<lambda>x. x \<noteq> name) ?cur"
        "acc_deletion acc obj' = acc_deletion acc obj"
      using run_finalizers_removes [OF assms(1,2) False, of obj w] by (elim exE conjE) (rule that)
    have "length (acc_finalizers acc obj') < n"
      using o(2,3) Suc.prems(2) length_filter_less [of name ?cur "\<lambda>x. x \<noteq> name"] by auto
    then obtain obj2 w2 where "finalizer_rounds n acc fs obj' w' = Some (Some obj2, w2)"
        "acc_finalizers acc obj2 = filter (\<lambda>x. x \<notin> fin_Name ` set fs) (acc_finalizers acc obj')"
      using Suc.IH [of obj' w'] Suc.prems(1) o(4) by auto
    moreover have "filter (\<lambda>x. x \<notin> fin_Name ` set fs) (filter (\<lambda>x. x \<noteq> name) ?cur) = filter (\<lambda>x. x \<notin> fin_Name ` set fs) ?cur"
      using o(2) by (auto intro: filter_cong)
    ultimately show ?thesis using o d
      by (simp add: bindp_def ProcessFinalizers_def)
  qed
qed simp

text \<open>An address with two finalizers, one of them of this operator.\<close>

definition sample_accessors :: "(time option \<times> string list) accessors" where
  "sample_accessors = \<lparr> acc_deletion = fst, acc_finalizers = snd, acc_set = (\<lambda>xs (d, ys). (d, xs)) \<rparr>"

definition sample_finalizer :: "(unit, time option \<times> string list) Finalizer" where
  "sample_finalizer = \<lparr> fin_Name = FINALIZER_NAME, fin_Deconstruct = Some (\<lambda>obj. ret ((Result0, None), obj)) \<rparr>"

lemma sample_lawful: "lawful sample_accessors"
  by (auto simp: lawful_def sample_accessors_def)

theorem ProcessFinalizers_adds_witness:
  "\<exists>obj'. ProcessFinalizers sample_accessors [sample_finalizer] (None, [''other'']) () =
       Some (((Result0\<lparr>rr_Requeue := True\<rparr>, None), obj'), ()) \<and> snd obj' = [''other'', FINALIZER_NAME]"
  using ProcessFinalizers_adds [OF sample_lawful, of "(None, [''other''])" "[sample_finalizer]" "()" "()"]
  by (auto simp: sample_accessors_def sample_finalizer_def FINALIZER_NAME_def ProcessFinalizers_def Result0_def)

theorem finalizer_rounds_end_witness:
  "\<exists>obj'. finalizer_rounds 3 sample_accessors [sample_finalizer] (Some 7, [''other'', FINALIZER_NAME]) () = Some (Some obj', ())
    \<and> snd obj' = [''other'']"
proof -
  have "finishes sample_accessors sample_finalizer"
    by (simp add: finishes_def deconstruct_def sample_finalizer_def Result0_def)
  then show ?thesis
    using finalizer_rounds_end [OF _ sample_lawful, of "[sample_finalizer]" "(Some 7, [''other'', FINALIZER_NAME])" 3 "()"]
    by (auto simp: sample_accessors_def sample_finalizer_def FINALIZER_NAME_def)
qed

section \<open>Finalizing a resource\<close>

text \<open>
  The step that the controllers of addresses, projects, endpoints and infrastructures begin with. A
  resource that is deleted is first marked as terminating; then its finalizers are processed and a change
  is written back. \<open>status_changed\<close> is the comparison that only the controller of addresses makes: a
  changed status is written in place of the resource.
\<close>

definition Terminating :: string where "Terminating = ''Terminating''"

record ('w, 'o) resource_ops =
  res_accessors :: "'o accessors"
  res_phase :: "'o \<Rightarrow> string"
  res_set_phase :: "string \<Rightarrow> 'o \<Rightarrow> 'o"
  res_status_changed :: "'o \<Rightarrow> 'o \<Rightarrow> bool"
  res_Status_Update :: "'o \<Rightarrow> ('w, error option \<times> 'o) prog"
  res_Update :: "'o \<Rightarrow> ('w, error option \<times> 'o) prog"

definition finalize_resource ::
  "('w, 'o) resource_ops \<Rightarrow> ('o \<Rightarrow> ('w, (reconcile_Result \<times> error option) \<times> 'o) prog) \<Rightarrow> ('w, 'o) step" where
  "finalize_resource R d obj =
     (if acc_deletion (res_accessors R) obj \<noteq> None \<and> res_phase R obj \<noteq> Terminating
      then bindp (res_Status_Update R (res_set_phase R Terminating obj)) (\<lambda>(err, o1). ret ((requeue, err), o1))
      else bindp (ProcessFinalizers (res_accessors R) [\<lparr> fin_Name = FINALIZER_NAME, fin_Deconstruct = Some d \<rparr>] obj)
             (\<lambda>((result, err), o1).
           if err \<noteq> None then ret ((processed, err), o1)
           else if rr_Requeue result \<and> obj \<noteq> o1
           then if res_status_changed R obj o1
                then bindp (res_Status_Update R o1) (\<lambda>(err, o2). ret ((requeue, err), o2))
                else bindp (res_Update R o1) (\<lambda>(err, o2). ret ((return_now, err), o2))
           else ret ((processed\<lparr>pr_Requeue := rr_Requeue result\<rparr>, None), o1)))"

definition lawful_ops :: "('w, 'o) resource_ops \<Rightarrow> bool" where
  "lawful_ops R \<longleftrightarrow> lawful (res_accessors R) \<and>
     (\<forall>xs obj. \<not> res_status_changed R obj (acc_set (res_accessors R) xs obj))"

lemma ProcessFinalizers_deconstructs:
  assumes "acc_deletion acc obj \<noteq> None" and "FINALIZER_NAME \<in> set (acc_finalizers acc obj)"
    and d: "d obj w = Some (((result, err), o1), w1)"
  shows "ProcessFinalizers acc [\<lparr> fin_Name = FINALIZER_NAME, fin_Deconstruct = Some d \<rparr>] obj w =
    Some (case err of
        Some e \<Rightarrow> ((Result0, Some (finalizer_error e)), o1)
      | None \<Rightarrow>
          if \<not> rr_Requeue result \<and> rr_RequeueAfter result \<le> 0
          then ((Result0\<lparr>rr_Requeue := True\<rparr>, None), acc_set acc (filter (\<lambda>x. x \<noteq> FINALIZER_NAME) (acc_finalizers acc obj)) o1)
          else ((result, None), o1), w1)"
proof -
  obtain y where "acc_deletion acc obj = Some y" using assms(1) by auto
  then show ?thesis using assms(2) d
    by (cases err) (simp_all add: ProcessFinalizers_def deconstruct_def bindp_def)
qed

text \<open>The cases of the step: marking, adding the finalizer, releasing it, and having nothing to do.\<close>

lemma finalize_resource_rule:
  assumes law: "lawful_ops R"
    and marked: "acc_deletion acc obj \<noteq> None \<Longrightarrow> res_phase R obj \<noteq> Terminating \<Longrightarrow>
      wp (res_Status_Update R (res_set_phase R Terminating obj)) (\<lambda>(err, o1). Q ((requeue, err), o1)) w"
    and idle: "acc_deletion acc obj = None \<and> FINALIZER_NAME \<in> set fins \<or>
      acc_deletion acc obj \<noteq> None \<and> res_phase R obj = Terminating \<and> FINALIZER_NAME \<notin> set fins \<Longrightarrow> Q ((processed, None), obj) w"
    and added: "acc_deletion acc obj = None \<Longrightarrow> FINALIZER_NAME \<notin> set fins \<Longrightarrow>
      wp (res_Update R (acc_set acc (fins @ [FINALIZER_NAME]) obj)) (\<lambda>(err, o1). Q ((return_now, err), o1)) w"
    and removed: "acc_deletion acc obj \<noteq> None \<Longrightarrow> res_phase R obj = Terminating \<Longrightarrow> FINALIZER_NAME \<in> set fins \<Longrightarrow>
      wp (d obj) (\<lambda>((result, err), o1) w1. case err of
          Some e \<Rightarrow> Q ((processed, Some (finalizer_error e)), o1) w1
        | None \<Rightarrow>
            if \<not> rr_Requeue result \<and> rr_RequeueAfter result \<le> 0
            then o1 = obj \<and> wp (res_Update R (acc_set acc (filter (\<lambda>x. x \<noteq> FINALIZER_NAME) fins) obj)) (\<lambda>(err, o2). Q ((return_now, err), o2)) w1
            else if rr_Requeue result \<and> obj \<noteq> o1
            then (if res_status_changed R obj o1 then wp (res_Status_Update R o1) (\<lambda>(err, o2). Q ((requeue, err), o2)) w1
                  else wp (res_Update R o1) (\<lambda>(err, o2). Q ((return_now, err), o2)) w1)
            else Q ((processed\<lparr>pr_Requeue := rr_Requeue result\<rparr>, None), o1) w1) w"
    and acc: "acc = res_accessors R" "fins = acc_finalizers acc obj"
  shows "wp (finalize_resource R d obj) Q w"
proof -
  have neq: "obj \<noteq> acc_set acc xs obj" if "xs \<noteq> fins" for xs
    using law that acc unfolding lawful_ops_def lawful_def by metis
  have unch: "\<not> res_status_changed R obj (acc_set acc xs obj)" for xs
    using law acc unfolding lawful_ops_def by metis
  consider "acc_deletion acc obj \<noteq> None" "res_phase R obj \<noteq> Terminating"
    | "acc_deletion acc obj = None" "FINALIZER_NAME \<in> set fins" | "acc_deletion acc obj = None" "FINALIZER_NAME \<notin> set fins"
    | "acc_deletion acc obj \<noteq> None" "res_phase R obj = Terminating" "FINALIZER_NAME \<notin> set fins"
    | "acc_deletion acc obj \<noteq> None" "res_phase R obj = Terminating" "FINALIZER_NAME \<in> set fins"
    by blast
  then show ?thesis
  proof cases
    case 1
    then show ?thesis using marked acc by (simp add: finalize_resource_def wp_rules)
  next
    case 2
    then have "Q ((processed, None), obj) w" using idle by blast
    then show ?thesis using 2 acc by (simp add: finalize_resource_def ProcessFinalizers_def wp_def bindp_def)
  next
    case 3
    then show ?thesis using added acc neq [of "fins @ [FINALIZER_NAME]"] unch
      by (simp add: finalize_resource_def ProcessFinalizers_def wp_rules)
  next
    case 4
    then have "Q ((processed, None), obj) w" using idle by blast
    then show ?thesis using 4 acc by (auto simp: finalize_resource_def ProcessFinalizers_def wp_def bindp_def)
  next
    case 5
    obtain y where y: "acc_deletion acc obj = Some y" using 5(1) by auto
    have "filter (\<lambda>x. x \<noteq> FINALIZER_NAME) fins \<noteq> fins" using 5(3) by (metis (mono_tags) mem_Collect_eq set_filter)
    note n = neq [OF this] unch [of "filter (\<lambda>x. x \<noteq> FINALIZER_NAME) fins"]
    obtain result err o1 w1 where run: "d obj w = Some (((result, err), o1), w1)"
      and post: "case err of
          Some e \<Rightarrow> Q ((processed, Some (finalizer_error e)), o1) w1
        | None \<Rightarrow>
            if \<not> rr_Requeue result \<and> rr_RequeueAfter result \<le> 0
            then o1 = obj \<and> wp (res_Update R (acc_set acc (filter (\<lambda>x. x \<noteq> FINALIZER_NAME) fins) obj)) (\<lambda>(err, o2). Q ((return_now, err), o2)) w1
            else if rr_Requeue result \<and> obj \<noteq> o1
            then (if res_status_changed R obj o1 then wp (res_Status_Update R o1) (\<lambda>(err, o2). Q ((requeue, err), o2)) w1
                  else wp (res_Update R o1) (\<lambda>(err, o2). Q ((return_now, err), o2)) w1)
            else Q ((processed\<lparr>pr_Requeue := rr_Requeue result\<rparr>, None), o1) w1"
      using removed [OF 5] by (auto simp: wp_def)
    note p = ProcessFinalizers_deconstructs [of acc obj d, OF 5(1) 5(3) [unfolded acc(2)] run]
    have [simp]: "wp (finalize_resource R d obj) Q w = wp (\<lambda>w. ProcessFinalizers acc [\<lparr> fin_Name = FINALIZER_NAME, fin_Deconstruct = Some d \<rparr>] obj w)
       (\<lambda>((result, err), o1).
           if err \<noteq> None then Q ((processed, err), o1)
           else if rr_Requeue result \<and> obj \<noteq> o1
           then if res_status_changed R obj o1
                then wp (res_Status_Update R o1) (\<lambda>(err, o2). Q ((requeue, err), o2))
                else wp (res_Update R o1) (\<lambda>(err, o2). Q ((return_now, err), o2))
           else Q ((processed\<lparr>pr_Requeue := rr_Requeue result\<rparr>, None), o1)) w"
      using 5 acc(1) by (auto simp: finalize_resource_def wp_rules intro!: arg_cong [of _ _ "\<lambda>Q. wp (ProcessFinalizers _ _ _) Q w"] ext)
    show ?thesis
    proof (cases err)
      case (Some e)
      then show ?thesis using p post by (simp add: wp_def [of "\<lambda>w. ProcessFinalizers acc _ obj w"])
    next
      case None
      show ?thesis
      proof (cases "\<not> rr_Requeue result \<and> rr_RequeueAfter result \<le> 0")
        case True
        then show ?thesis using None p post n acc(2) by (simp add: wp_def [of "\<lambda>w. ProcessFinalizers acc _ obj w"])
      next
        case False
        then show ?thesis using None p post by (auto simp: wp_def [of "\<lambda>w. ProcessFinalizers acc _ obj w"])
      qed
    qed
  qed
qed

end
