(* ===== verification/Address_Controller.thy ===== *)
theory Address_Controller
  imports Finalizer
begin

text \<open>
  The controller of messaging addresses (\<open>pkg/controller/messagingaddress/messagingaddress_controller.go\<close>).
  The Kubernetes client and the client of the infrastructure are given by a record of operations over a
  world. An update returns the object as the server sends it back.
\<close>

section \<open>Constants\<close>

definition MessagingAddressConfiguring :: string where "MessagingAddressConfiguring = ''Configuring''"
definition MessagingAddressActive :: string where "MessagingAddressActive = ''Active''"

definition MessagingAddressFoundProject :: string where "MessagingAddressFoundProject = ''FoundProject''"
definition MessagingAddressValidated :: string where "MessagingAddressValidated = ''Validated''"
definition MessagingAddressScheduled :: string where "MessagingAddressScheduled = ''Scheduled''"
definition MessagingAddressCreated :: string where "MessagingAddressCreated = ''Created''"
definition MessagingAddressReady :: string where "MessagingAddressReady = ''Ready''"

lemmas address_phases = MessagingAddressConfiguring_def MessagingAddressActive_def

section \<open>Operations\<close>

record 'w address_ops =
  ao_now :: "'w \<Rightarrow> time"
  ao_reader_Get :: "NamespacedName \<Rightarrow> ('w, error + MessagingAddress) prog"
  ao_Get_project :: "NamespacedName \<Rightarrow> ('w, error + MessagingProject) prog"
  ao_Get_infra :: "NamespacedName \<Rightarrow> ('w, error + MessagingInfrastructure) prog"
  ao_List :: "string \<Rightarrow> ('w, error + MessagingAddress list) prog"
  ao_Status_Update :: "MessagingAddress \<Rightarrow> ('w, error option \<times> MessagingAddress) prog"
  ao_Update :: "MessagingAddress \<Rightarrow> ('w, error option \<times> MessagingAddress) prog"
  ao_DeleteAddress :: "MessagingInfrastructure \<Rightarrow> MessagingAddress \<Rightarrow> ('w, error option) prog"
  ao_ScheduleAddress :: "MessagingInfrastructure \<Rightarrow> MessagingAddress \<Rightarrow> ('w, error option \<times> MessagingAddress) prog"
  ao_SyncAddress :: "MessagingInfrastructure \<Rightarrow> MessagingAddress \<Rightarrow> ('w, error option) prog"

text \<open>The variables of a run: the address, the pointers to its conditions and the infrastructure.\<close>

record address_run =
  ar_address :: MessagingAddress
  ar_foundProject :: "nat option"
  ar_validated :: "nat option"
  ar_scheduled :: "nat option"
  ar_created :: "nat option"
  ar_ready :: "nat option"
  ar_infra :: "MessagingInfrastructure option"

abbreviation on_status :: "(MessagingAddressStatus \<Rightarrow> MessagingAddressStatus) \<Rightarrow> MessagingAddress \<Rightarrow> MessagingAddress" where
  "on_status f a \<equiv> a\<lparr>ma_Status := f (ma_Status a)\<rparr>"

abbreviation on_address :: "(MessagingAddress \<Rightarrow> MessagingAddress) \<Rightarrow> address_run \<Rightarrow> address_run" where
  "on_address f r \<equiv> r\<lparr>ar_address := f (ar_address r)\<rparr>"

definition address_SetStatus :: "time \<Rightarrow> nat option \<Rightarrow> string \<Rightarrow> string \<Rightarrow> MessagingAddress \<Rightarrow> MessagingAddress" where
  "address_SetStatus now p status message =
     on_status (\<lambda>s. s\<lparr>ast_Conditions := set_pointer now status message p (ast_Conditions s)\<rparr>)"

abbreviation set_phase :: "string \<Rightarrow> MessagingAddress \<Rightarrow> MessagingAddress" where
  "set_phase p \<equiv> on_status (\<lambda>s. s\<lparr>ast_Phase := p\<rparr>)"

abbreviation set_message :: "string \<Rightarrow> MessagingAddress \<Rightarrow> MessagingAddress" where
  "set_message m \<equiv> on_status (\<lambda>s. s\<lparr>ast_Message := m\<rparr>)"

lemma address_SetStatus_simps [simp]:
  "ma_Name (address_SetStatus t p st m a) = ma_Name a" "ma_Namespace (address_SetStatus t p st m a) = ma_Namespace a"
  "ma_Spec (address_SetStatus t p st m a) = ma_Spec a" "ma_DeletionTimestamp (address_SetStatus t p st m a) = ma_DeletionTimestamp a"
  "ma_Finalizers (address_SetStatus t p st m a) = ma_Finalizers a"
  "ast_Brokers (ma_Status (address_SetStatus t p st m a)) = ast_Brokers (ma_Status a)"
  "ast_Phase (ma_Status (address_SetStatus t p st m a)) = ast_Phase (ma_Status a)"
  "ast_Message (ma_Status (address_SetStatus t p st m a)) = ast_Message (ma_Status a)"
  by (simp_all add: address_SetStatus_def)

definition address_now :: "'w address_ops \<Rightarrow> ('w, time) prog" where
  "address_now ops = (\<lambda>w. Some (ao_now ops w, w))"

definition address_Status_Update :: "'w address_ops \<Rightarrow> address_run \<Rightarrow> ('w, error option \<times> address_run) prog" where
  "address_Status_Update ops r =
     bindp (ao_Status_Update ops (ar_address r)) (\<lambda>(err, a). ret (err, r\<lparr>ar_address := a\<rparr>))"

definition matchAnyAddress :: "'w address_ops \<Rightarrow> string \<Rightarrow> (MessagingAddress \<Rightarrow> bool) \<Rightarrow> ('w, error + bool) prog" where
  "matchAnyAddress ops namespace f =
     bindp (ao_List ops namespace) (\<lambda>r. ret (case r of Inl err \<Rightarrow> Inl err | Inr items \<Rightarrow> Inr (list_ex f items)))"

section \<open>Initializing phase, type and conditions\<close>

definition address_type :: "MessagingAddressSpec \<Rightarrow> string option" where
  "address_type spec =
     (if as_Queue spec \<noteq> None then Some ''Queue''
      else if as_Anycast spec \<noteq> None then Some ''Anycast''
      else if as_Multicast spec \<noteq> None then Some ''Multicast''
      else if as_Topic spec \<noteq> None then Some ''Topic''
      else if as_Subscription spec \<noteq> None then Some ''Subscription''
      else if as_DeadLetter spec \<noteq> None then Some ''DeadLetter''
      else None)"

definition address_conditions :: "string list" where
  "address_conditions = [MessagingAddressFoundProject, MessagingAddressValidated, MessagingAddressScheduled,
     MessagingAddressCreated, MessagingAddressReady]"

definition initialize_address :: "(nat \<Rightarrow> nat) \<Rightarrow> nat \<Rightarrow> time \<Rightarrow> MessagingAddress \<Rightarrow> address_run" where
  "initialize_address grow cap t a =
     (let s = ma_Status a;
          (ptrs, cs) = get_pointers grow t (max cap (length (ast_Conditions s))) address_conditions ([], ast_Conditions s)
      in \<lparr> ar_address = a\<lparr>ma_Status := s
             \<lparr>ast_Phase := if ast_Phase s = '''' then MessagingAddressConfiguring else ast_Phase s,
              ast_Type := (case address_type (ma_Spec a) of Some ty \<Rightarrow> ty | None \<Rightarrow> ast_Type s),
              ast_Conditions := cs\<rparr>\<rparr>,
           ar_foundProject = ptrs ! 0, ar_validated = ptrs ! 1, ar_scheduled = ptrs ! 2, ar_created = ptrs ! 3,
           ar_ready = ptrs ! 4, ar_infra = None \<rparr>)"

section \<open>Finalizing\<close>

definition address_accessors :: "MessagingAddress accessors" where
  "address_accessors =
     \<lparr> acc_deletion = ma_DeletionTimestamp, acc_finalizers = ma_Finalizers, acc_set = (\<lambda>xs a. a\<lparr>ma_Finalizers := xs\<rparr>) \<rparr>"

definition subscribes :: "MessagingAddress \<Rightarrow> MessagingAddress \<Rightarrow> bool" where
  "subscribes address a \<longleftrightarrow> as_Subscription (ma_Spec a) = Some (MessagingAddress_GetAddress address)"

definition dead_letters_to :: "MessagingAddress \<Rightarrow> MessagingAddress \<Rightarrow> bool" where
  "dead_letters_to address a \<longleftrightarrow>
     (case as_Queue (ma_Spec a) of
        None \<Rightarrow> False
      | Some q \<Rightarrow> DeadLetterAddress q = MessagingAddress_GetAddress address \<or> ExpiryAddress q = MessagingAddress_GetAddress address)"

definition waits_for_users ::
  "'w address_ops \<Rightarrow> MessagingAddress \<Rightarrow> (MessagingAddress \<Rightarrow> bool) \<Rightarrow> string
    \<Rightarrow> ('w, (reconcile_Result \<times> error option) \<times> MessagingAddress) prog
    \<Rightarrow> ('w, (reconcile_Result \<times> error option) \<times> MessagingAddress) prog" where
  "waits_for_users ops address uses message continue =
     bindp (matchAnyAddress ops (ma_Namespace address) uses) (\<lambda>r. case r of
       Inl err \<Rightarrow> ret ((Result0, Some err), address)
     | Inr used \<Rightarrow>
         if used then ret ((Result0\<lparr>rr_Requeue := True\<rparr>, None), set_message message address) else continue)"

definition deconstruct_address ::
  "'w address_ops \<Rightarrow> MessagingAddress \<Rightarrow> ('w, (reconcile_Result \<times> error option) \<times> MessagingAddress) prog" where
  "deconstruct_address ops address =
     bindp (LookupInfra (ao_Get_project ops) (ao_Get_infra ops) (ma_Namespace address)) (\<lambda>r. case r of
       Inl err \<Rightarrow>
         if utilerrors_IsNotBound err \<or> utilerrors_IsNotFound err then ret ((Result0, None), address)
         else ret ((Result0, Some err), address)
     | Inr (project, infra) \<Rightarrow>
         let delete = bindp (ao_DeleteAddress ops infra address) (\<lambda>err. ret ((Result0, err), address))
         in if as_Topic (ma_Spec address) \<noteq> None
            then waits_for_users ops address (subscribes address) ''subscriptions referencing this topic address exist'' delete
            else if as_DeadLetter (ma_Spec address) \<noteq> None
            then waits_for_users ops address (dead_letters_to address) ''queues referencing this deadletter address exist'' delete
            else delete)"

definition address_resource :: "'w address_ops \<Rightarrow> ('w, MessagingAddress) resource_ops" where
  "address_resource ops =
     \<lparr> res_accessors = address_accessors, res_phase = (\<lambda>a. ast_Phase (ma_Status a)), res_set_phase = set_phase,
       res_status_changed = (\<lambda>a b. ma_Status a \<noteq> ma_Status b),
       res_Status_Update = ao_Status_Update ops, res_Update = ao_Update ops \<rparr>"

definition finalize_address :: "'w address_ops \<Rightarrow> ('w, address_run) step" where
  "finalize_address ops r =
     bindp (finalize_resource (address_resource ops) (deconstruct_address ops) (ar_address r)) (\<lambda>(res, a).
     ret (res, r\<lparr>ar_address := a\<rparr>))"

lemma address_resource_lawful: "lawful_ops (address_resource ops)"
  by (simp add: lawful_ops_def lawful_def address_resource_def address_accessors_def)

section \<open>The steps of a run\<close>

definition find_infra :: "'w address_ops \<Rightarrow> ('w, address_run) step" where
  "find_infra ops r =
     bindp (LookupInfra (ao_Get_project ops) (ao_Get_infra ops) (ma_Namespace (ar_address r))) (\<lambda>l.
     bindp (address_now ops) (\<lambda>t. case l of
       Inl err \<Rightarrow>
         if k8errors_IsNotFound err \<or> utilerrors_IsNotBound err
         then ret ((requeue_after 10, None),
                on_address (set_message (error_string err) \<circ> address_SetStatus t (ar_foundProject r) ConditionFalse (error_string err)) r)
         else ret ((processed, Some err), on_address (address_SetStatus t (ar_foundProject r) ConditionTrue '''') (r\<lparr>ar_infra := None\<rparr>))
     | Inr (project, infra) \<Rightarrow>
         ret ((processed, None), on_address (address_SetStatus t (ar_foundProject r) ConditionTrue '''') (r\<lparr>ar_infra := Some infra\<rparr>))))"

text \<open>A failed validation, and the search for an address that is referred to.\<close>

definition address_invalid :: "'w address_ops \<Rightarrow> address_run \<Rightarrow> string \<Rightarrow> ('w, (processorResult \<times> error option) \<times> address_run) prog" where
  "address_invalid ops r message =
     bindp (address_now ops) (\<lambda>t. ret ((requeue_after 10, None),
       on_address (set_message message \<circ> address_SetStatus t (ar_validated r) ConditionFalse message) r))"

definition address_valid :: "'w address_ops \<Rightarrow> ('w, address_run) step" where
  "address_valid ops r =
     bindp (address_now ops) (\<lambda>t. ret ((processed, None), on_address (address_SetStatus t (ar_validated r) ConditionTrue '''') r))"

definition require_address ::
  "'w address_ops \<Rightarrow> address_run \<Rightarrow> (MessagingAddress \<Rightarrow> bool) \<Rightarrow> string
    \<Rightarrow> ('w, (processorResult \<times> error option) \<times> address_run) prog
    \<Rightarrow> ('w, (processorResult \<times> error option) \<times> address_run) prog" where
  "require_address ops r f message continue =
     bindp (matchAnyAddress ops (ma_Namespace (ar_address r)) f) (\<lambda>m. case m of
       Inl err \<Rightarrow> ret ((processed, Some err), r)
     | Inr found \<Rightarrow> if \<not> found then address_invalid ops r message else continue)"

definition is_dead_letter :: "string \<Rightarrow> MessagingAddress \<Rightarrow> bool" where
  "is_dead_letter addr a \<longleftrightarrow> as_DeadLetter (ma_Spec a) \<noteq> None \<and> MessagingAddress_GetAddress a = addr"

definition is_topic :: "string \<Rightarrow> MessagingAddress \<Rightarrow> bool" where
  "is_topic addr a \<longleftrightarrow> as_Topic (ma_Spec a) \<noteq> None \<and> MessagingAddress_GetAddress a = addr"

definition validate_queue :: "'w address_ops \<Rightarrow> address_run \<Rightarrow> MessagingAddressSpecQueue
    \<Rightarrow> ('w, (processorResult \<times> error option) \<times> address_run) prog" where
  "validate_queue ops r q =
     (let expiry =
            (if ExpiryAddress q = '''' then address_valid ops r
             else require_address ops r (is_dead_letter (ExpiryAddress q))
                    (''unable to find expiryAddress '' @ ExpiryAddress q) (address_valid ops r))
      in if DeadLetterAddress q = '''' then expiry
         else require_address ops r (is_dead_letter (DeadLetterAddress q))
                (''unable to find deadLetterAddress '' @ DeadLetterAddress q) expiry)"

definition validate_subscription :: "'w address_ops \<Rightarrow> address_run \<Rightarrow> string
    \<Rightarrow> ('w, (processorResult \<times> error option) \<times> address_run) prog" where
  "validate_subscription ops r topic =
     (if topic = '''' then address_invalid ops r ''topic referenced by subscription must be non-empty''
      else require_address ops r (is_topic topic)
             (''unable to find address for topic '' @ topic @ '', required by subscription'') (address_valid ops r))"

definition refers :: "MessagingAddressSpec \<Rightarrow> MessagingAddressSpecQueue option" where
  "refers spec =
     (case as_Queue spec of
        Some q \<Rightarrow> if DeadLetterAddress q \<noteq> '''' \<or> ExpiryAddress q \<noteq> '''' then Some q else None
      | None \<Rightarrow> None)"

definition validate_address :: "'w address_ops \<Rightarrow> ('w, address_run) step" where
  "validate_address ops r =
     (let spec = ma_Spec (ar_address r) in
      case refers spec of
        Some q \<Rightarrow> validate_queue ops r q
      | None \<Rightarrow>
          (case as_Subscription spec of
             Some topic \<Rightarrow> validate_subscription ops r topic
           | None \<Rightarrow> address_valid ops r))"

definition schedule_address :: "'w address_ops \<Rightarrow> ('w, address_run) step" where
  "schedule_address ops r =
     (let a = ar_address r in
      if ast_Brokers (ma_Status a) \<noteq> [] \<or> as_Anycast (ma_Spec a) \<noteq> None \<or> as_Multicast (ma_Spec a) \<noteq> None
      then bindp (address_now ops) (\<lambda>t. ret ((processed, None), on_address (address_SetStatus t (ar_scheduled r) ConditionTrue '''') r))
      else case ar_infra r of
        None \<Rightarrow> panic
      | Some infra \<Rightarrow>
          bindp (ao_ScheduleAddress ops infra a) (\<lambda>(err, a1).
          bindp (address_now ops) (\<lambda>t. case err of
            Some e \<Rightarrow>
              ret (if is_transient e then (requeue_after 10, None) else (processed, Some e),
                   r\<lparr>ar_address := set_message (error_string e)
                                     (address_SetStatus t (ar_scheduled r) ConditionFalse (error_string e) a1)\<rparr>)
          | None \<Rightarrow> ret ((requeue, None), r\<lparr>ar_address := address_SetStatus t (ar_scheduled r) ConditionTrue '''' a1\<rparr>))))"

definition activate_brokers :: "MessagingAddress \<Rightarrow> MessagingAddress" where
  "activate_brokers =
     on_status (\<lambda>s. s\<lparr>ast_Brokers := map (\<lambda>b. b\<lparr>mb_State := MessagingAddressBrokerActive\<rparr>) (ast_Brokers s)\<rparr>)"

definition sync_address :: "'w address_ops \<Rightarrow> ('w, address_run) step" where
  "sync_address ops r =
     (case ar_infra r of
        None \<Rightarrow> panic
      | Some infra \<Rightarrow>
          bindp (ao_SyncAddress ops infra (ar_address r)) (\<lambda>err.
          bindp (address_now ops) (\<lambda>t. case err of
            Some e \<Rightarrow>
              ret (if is_transient e \<or> e = NoEndpointsError then (requeue_after 10, None) else (processed, Some e),
                   on_address (set_message (error_string e) \<circ>
                     address_SetStatus t (ar_created r) ConditionFalse (error_string e)) r)
          | None \<Rightarrow>
              ret ((processed, None),
                   on_address (address_SetStatus t (ar_created r) ConditionTrue '''' \<circ> activate_brokers) r))))"

text \<open>The status is always written: again a pointer is compared with a value.\<close>

definition complete_address :: "'w address_ops \<Rightarrow> ('w, address_run) step" where
  "complete_address ops r =
     bindp (address_now ops) (\<lambda>t.
     bindp (ao_Status_Update ops (address_SetStatus t (ar_ready r) ConditionTrue ''''
              (set_message '''' (set_phase MessagingAddressActive (ar_address r))))) (\<lambda>(err, a).
     ret ((processed, err), r\<lparr>ar_address := a\<rparr>)))"

definition address_Reconcile ::
  "'w address_ops \<Rightarrow> (nat \<Rightarrow> nat) \<Rightarrow> nat \<Rightarrow> NamespacedName \<Rightarrow> ('w, reconcile_Result \<times> error option) prog" where
  "address_Reconcile ops grow cap request =
     bindp (ao_reader_Get ops request) (\<lambda>g. case g of
       Inl err \<Rightarrow> ret (Result0, if k8errors_IsNotFound err then None else Some err)
     | Inr found \<Rightarrow>
         bindp (address_now ops) (\<lambda>t.
         let Proc = Process (address_Status_Update ops)
         in and_then (Proc (finalize_address ops) (initialize_address grow cap t found)) (\<lambda>r1.
            and_then (Proc (find_infra ops) r1) (\<lambda>r2.
            and_then (Proc (validate_address ops) r2) (\<lambda>r3.
            and_then (Proc (schedule_address ops) r3) (\<lambda>r4.
            and_then (Proc (sync_address ops) r4) (\<lambda>r5.
            and_return (Proc (complete_address ops) r5))))))))"

section \<open>Logging the calls\<close>

datatype address_event =
    AGot NamespacedName "error + MessagingAddress"
  | AGotProject NamespacedName "error + MessagingProject"
  | AGotInfra NamespacedName "error + MessagingInfrastructure"
  | AListed string "error + MessagingAddress list"
  | AStatusUpdated MessagingAddress "error option"
  | AUpdated MessagingAddress "error option"
  | ADeleted MessagingInfrastructure MessagingAddress "error option"
  | AScheduled MessagingInfrastructure MessagingAddress "error option"
  | ASynced MessagingInfrastructure MessagingAddress "error option"

definition address_logged :: "'w address_ops \<Rightarrow> ('w \<times> address_event list) address_ops" where
  "address_logged ops =
     \<lparr> ao_now = ao_now ops \<circ> fst,
       ao_reader_Get = (\<lambda>k. logged (AGot k) (ao_reader_Get ops k)),
       ao_Get_project = (\<lambda>k. logged (AGotProject k) (ao_Get_project ops k)),
       ao_Get_infra = (\<lambda>k. logged (AGotInfra k) (ao_Get_infra ops k)),
       ao_List = (\<lambda>ns. logged (AListed ns) (ao_List ops ns)),
       ao_Status_Update = (\<lambda>a. logged (AStatusUpdated a \<circ> fst) (ao_Status_Update ops a)),
       ao_Update = (\<lambda>a. logged (AUpdated a \<circ> fst) (ao_Update ops a)),
       ao_DeleteAddress = (\<lambda>i a. logged (ADeleted i a) (ao_DeleteAddress ops i a)),
       ao_ScheduleAddress = (\<lambda>i a. logged (AScheduled i a \<circ> fst) (ao_ScheduleAddress ops i a)),
       ao_SyncAddress = (\<lambda>i a. logged (ASynced i a) (ao_SyncAddress ops i a)) \<rparr>"

text \<open>The calls return.\<close>

definition address_ops_total :: "'w address_ops \<Rightarrow> bool" where
  "address_ops_total ops \<longleftrightarrow>
     (\<forall>k. total (ao_reader_Get ops k)) \<and> (\<forall>k. total (ao_Get_project ops k)) \<and> (\<forall>k. total (ao_Get_infra ops k)) \<and>
     (\<forall>ns. total (ao_List ops ns)) \<and> (\<forall>a. total (ao_Status_Update ops a)) \<and> (\<forall>a. total (ao_Update ops a)) \<and>
     (\<forall>i a. total (ao_DeleteAddress ops i a)) \<and> (\<forall>i a. total (ao_ScheduleAddress ops i a)) \<and>
     (\<forall>i a. total (ao_SyncAddress ops i a))"

lemma wp_address_now [wp_rules]: "wp (address_now ops) Q = (\<lambda>w. Q (ao_now ops w) w)"
  by (rule ext) (simp add: wp_def address_now_def)

end
