(* ===== verification/Address_Steps.thy ===== *)
theory Address_Steps
  imports Address_Controller
begin

text \<open>
  What each step of a run of the address controller does, for any behaviour of the Kubernetes API and of
  the infrastructure client.
\<close>

section \<open>Calls\<close>

lemma address_calls:
  assumes "address_ops_total ops"
  shows "(\<And>r w'. Q1 r (w', AGot k r # h)) \<Longrightarrow> wp (ao_reader_Get (address_logged ops) k) Q1 (w, h)"
    and "(\<And>r w'. Q2 r (w', AGotProject k r # h)) \<Longrightarrow> wp (ao_Get_project (address_logged ops) k) Q2 (w, h)"
    and "(\<And>r w'. Q3 r (w', AGotInfra k r # h)) \<Longrightarrow> wp (ao_Get_infra (address_logged ops) k) Q3 (w, h)"
    and "(\<And>r w'. Q4 r (w', AListed ns r # h)) \<Longrightarrow> wp (ao_List (address_logged ops) ns) Q4 (w, h)"
    and "(\<And>e b w'. Q5 (e, b) (w', AStatusUpdated a e # h)) \<Longrightarrow> wp (ao_Status_Update (address_logged ops) a) Q5 (w, h)"
    and "(\<And>e b w'. Q5 (e, b) (w', AUpdated a e # h)) \<Longrightarrow> wp (ao_Update (address_logged ops) a) Q5 (w, h)"
    and "(\<And>e w'. Q6 e (w', ADeleted i a e # h)) \<Longrightarrow> wp (ao_DeleteAddress (address_logged ops) i a) Q6 (w, h)"
    and "(\<And>e b w'. Q5 (e, b) (w', AScheduled i a e # h)) \<Longrightarrow> wp (ao_ScheduleAddress (address_logged ops) i a) Q5 (w, h)"
    and "(\<And>e w'. Q6 e (w', ASynced i a e # h)) \<Longrightarrow> wp (ao_SyncAddress (address_logged ops) i a) Q6 (w, h)"
  using assms by (auto simp: address_logged_def address_ops_total_def intro!: wp_logged)

lemma address_logged_now [simp]: "ao_now (address_logged ops) (w, h) = ao_now ops w"
  by (simp add: address_logged_def)

section \<open>Steps\<close>

definition same_address :: "MessagingAddress \<Rightarrow> MessagingAddress \<Rightarrow> bool" where
  "same_address a b \<longleftrightarrow> ma_Name a = ma_Name b \<and> ma_Namespace a = ma_Namespace b \<and> ma_Spec a = ma_Spec b"

fun is_update :: "address_event \<Rightarrow> bool" where
  "is_update (AUpdated a err) = True"
| "is_update e = False"

abbreviation updates :: "address_event list \<Rightarrow> bool" where
  "updates h \<equiv> list_ex is_update h"

definition stage ::
  "'w address_ops \<Rightarrow> ('w \<times> address_event list, address_run) step \<Rightarrow> address_run \<Rightarrow> 'w \<Rightarrow> address_event list
    \<Rightarrow> (address_run \<Rightarrow> address_event list \<Rightarrow> bool) \<Rightarrow> bool" where
  "stage ops step r w h Q \<longleftrightarrow> wp (Process (address_Status_Update (address_logged ops)) step r)
     (\<lambda>((res, err), r') (w', h'). grown h h' \<and> (updates h' \<longrightarrow> updates h) \<and> (\<not> ShouldReturn res err \<longrightarrow> Q r' h') \<and>
        (err = None \<longrightarrow> ShouldReturn res err \<longrightarrow> pr_Requeue res \<or> pr_RequeueAfter res > 0))
     (w, h)"

lemma stage_find_infra:
  assumes "address_ops_total ops"
  shows "stage ops (find_infra (address_logged ops)) r w h (\<lambda>r' evs. \<exists>infra. ar_infra r' = Some infra \<and>
    same_address (ar_address r) (ar_address r') \<and> ast_Brokers (ma_Status (ar_address r')) = ast_Brokers (ma_Status (ar_address r)))"
  unfolding stage_def find_infra_def LookupInfra_def address_Status_Update_def
  by (auto simp: wp_rules same_address_def split: sum.splits prod.splits intro!: address_calls [OF assms])

text \<open>The addresses that a valid address refers to have been found.\<close>

fun lists :: "(MessagingAddress list \<Rightarrow> bool) \<Rightarrow> string \<Rightarrow> address_event \<Rightarrow> bool" where
  "lists P ns (AListed ns' (Inr items)) \<longleftrightarrow> ns' = ns \<and> P items"
| "lists P ns ev \<longleftrightarrow> False"

abbreviation listed_some :: "(MessagingAddress \<Rightarrow> bool) \<Rightarrow> string \<Rightarrow> address_event list \<Rightarrow> bool" where
  "listed_some f ns evs \<equiv> list_ex (lists (list_ex f) ns) evs"

abbreviation listed_none :: "(MessagingAddress \<Rightarrow> bool) \<Rightarrow> string \<Rightarrow> address_event list \<Rightarrow> bool" where
  "listed_none f ns evs \<equiv> list_ex (lists (\<lambda>items. \<not> list_ex f items) ns) evs"

definition references_found :: "MessagingAddress \<Rightarrow> address_event list \<Rightarrow> bool" where
  "references_found a evs \<longleftrightarrow>
     (case as_Queue (ma_Spec a) of
        Some q \<Rightarrow>
          (DeadLetterAddress q \<noteq> '''' \<longrightarrow> listed_some (is_dead_letter (DeadLetterAddress q)) (ma_Namespace a) evs) \<and>
          (ExpiryAddress q \<noteq> '''' \<longrightarrow> listed_some (is_dead_letter (ExpiryAddress q)) (ma_Namespace a) evs)
      | None \<Rightarrow>
          (case as_Subscription (ma_Spec a) of
             Some topic \<Rightarrow> listed_some (is_topic topic) (ma_Namespace a) evs
           | None \<Rightarrow> True))"

lemma stage_validate:
  assumes "address_ops_total ops"
  shows "stage ops (validate_address (address_logged ops)) r w h (\<lambda>r' evs. ar_infra r' = ar_infra r \<and> references_found (ar_address r) evs \<and>
    same_address (ar_address r) (ar_address r') \<and> ast_Brokers (ma_Status (ar_address r')) = ast_Brokers (ma_Status (ar_address r)))"
  unfolding stage_def validate_address_def Let_def
  by (auto simp: refers_def validate_queue_def validate_subscription_def require_address_def address_invalid_def address_valid_def
      matchAnyAddress_def Let_def address_Status_Update_def
      wp_rules same_address_def references_found_def split: sum.splits prod.splits option.splits intro!: address_calls [OF assms])

lemma stage_schedule:
  assumes "address_ops_total ops" and "ar_infra r = Some infra"
  shows "stage ops (schedule_address (address_logged ops)) r w h (\<lambda>r' evs. ar_infra r' = ar_infra r \<and>
    same_address (ar_address r) (ar_address r') \<and> ast_Brokers (ma_Status (ar_address r')) = ast_Brokers (ma_Status (ar_address r)) \<and>
    (as_Anycast (ma_Spec (ar_address r)) = None \<longrightarrow> as_Multicast (ma_Spec (ar_address r)) = None \<longrightarrow>
     ast_Brokers (ma_Status (ar_address r)) \<noteq> []))"
  unfolding stage_def schedule_address_def Let_def
  using assms(2) by (auto simp: address_Status_Update_def wp_rules same_address_def split: option.splits prod.splits intro!: address_calls [OF assms(1)])

lemma stage_sync:
  assumes "address_ops_total ops" and "ar_infra r = Some infra"
  shows "stage ops (sync_address (address_logged ops)) r w h (\<lambda>r' evs. ASynced infra (ar_address r) None \<in> set evs \<and>
    same_address (ar_address r) (ar_address r') \<and>
    ast_Brokers (ma_Status (ar_address r')) =
      map (\<lambda>b. b\<lparr>mb_State := MessagingAddressBrokerActive\<rparr>) (ast_Brokers (ma_Status (ar_address r))))"
  unfolding stage_def sync_address_def
  using assms(2) by (auto simp: activate_brokers_def address_Status_Update_def wp_rules same_address_def split: option.splits prod.splits intro!: address_calls [OF assms(1)])

lemma complete_step:
  assumes "address_ops_total ops"
  shows "wp (Process (address_Status_Update (address_logged ops)) (complete_address (address_logged ops)) r)
    (\<lambda>((res, err), r') (w', h'). (updates h' \<longrightarrow> updates h) \<and> res = processed \<and>
      (err = None \<longrightarrow> (\<exists>a. h' = AStatusUpdated a None # h \<and> same_address (ar_address r) a \<and>
         ast_Phase (ma_Status a) = MessagingAddressActive \<and> ast_Message (ma_Status a) = '''' \<and>
         ast_Brokers (ma_Status a) = ast_Brokers (ma_Status (ar_address r))))) (w, h)"
  unfolding complete_address_def
  by (auto simp: address_Status_Update_def wp_rules same_address_def split: option.splits prod.splits intro!: address_calls [OF assms])

section \<open>Finalizing\<close>

text \<open>What has been found out before the finalizer of an address is released.\<close>

definition no_users :: "MessagingAddress \<Rightarrow> address_event list \<Rightarrow> bool" where
  "no_users a evs \<longleftrightarrow>
     (if as_Topic (ma_Spec a) \<noteq> None then listed_none (subscribes a) (ma_Namespace a) evs
      else as_DeadLetter (ma_Spec a) \<noteq> None \<longrightarrow> listed_none (dead_letters_to a) (ma_Namespace a) evs)"

text \<open>The address has no project that is bound to an infrastructure.\<close>

fun no_project :: "address_event \<Rightarrow> bool" where
  "no_project (AGotProject k (Inl err)) \<longleftrightarrow> k8errors_IsNotFound err \<or> utilerrors_IsNotFound err \<or> utilerrors_IsNotBound err"
| "no_project (AGotProject k (Inr project)) \<longleftrightarrow> \<not> MessagingProject_IsBound project"
| "no_project (AGotInfra k (Inl err)) \<longleftrightarrow> utilerrors_IsNotFound err \<or> utilerrors_IsNotBound err"
| "no_project ev \<longleftrightarrow> False"

fun deletes :: "MessagingAddress \<Rightarrow> address_event \<Rightarrow> bool" where
  "deletes a (ADeleted infra b None) \<longleftrightarrow> same_address a b"
| "deletes a ev \<longleftrightarrow> False"

definition released :: "MessagingAddress \<Rightarrow> address_event list \<Rightarrow> bool" where
  "released a evs \<longleftrightarrow> list_ex no_project evs \<or> list_ex (deletes a) evs \<and> no_users a evs"

lemma deconstruct_step:
  assumes "address_ops_total ops"
  shows "wp (deconstruct_address (address_logged ops) a)
    (\<lambda>((res, err), a') (w', h'). (updates h' \<longrightarrow> updates h) \<and> grown h h' \<and>
       ma_DeletionTimestamp a' = ma_DeletionTimestamp a \<and> ma_Finalizers a' = ma_Finalizers a \<and> same_address a a' \<and>
       rr_RequeueAfter res = 0 \<and> (err = None \<longrightarrow> \<not> rr_Requeue res \<longrightarrow> a' = a \<and> released a h')) (w, h)"
  unfolding deconstruct_address_def LookupInfra_def Let_def
  by (auto simp: waits_for_users_def matchAnyAddress_def wp_rules same_address_def released_def no_users_def
      split: sum.splits prod.splits option.splits intro!: address_calls [OF assms])

text \<open>An update of the address by the first step: it adds the finalizer, or it releases it.\<close>

definition lawful_update :: "MessagingAddress \<Rightarrow> MessagingAddress \<Rightarrow> address_event list \<Rightarrow> bool" where
  "lawful_update a b h \<longleftrightarrow> same_address a b \<and>
     (ma_DeletionTimestamp a = None \<and> FINALIZER_NAME \<notin> set (ma_Finalizers a) \<and> ma_Finalizers b = ma_Finalizers a @ [FINALIZER_NAME] \<or>
      ma_DeletionTimestamp a \<noteq> None \<and> ast_Phase (ma_Status a) = Terminating \<and>
      ma_Finalizers b = filter (\<lambda>x. x \<noteq> FINALIZER_NAME) (ma_Finalizers a) \<and> released a h)"

abbreviation update_last :: "address_run \<Rightarrow> error option \<Rightarrow> address_event list \<Rightarrow> address_event list \<Rightarrow> bool" where
  "update_last r err h h' \<equiv> \<exists>b e h1. lawful_update (ar_address r) b h1 \<and> \<not> updates h1 \<and>
     (err = None \<and> e = None \<and> h' = AUpdated b e # h1 \<or>
      err \<noteq> None \<and> (\<exists>c e'. h' = AStatusUpdated c e' # AUpdated b e # h1))"

lemma finalize_step:
  assumes "address_ops_total ops" and "\<not> updates h"
  shows "wp (Process (address_Status_Update (address_logged ops)) (finalize_address (address_logged ops)) r)
    (\<lambda>((res, err), r') (w', h'). grown h h' \<and>
      (updates h' \<longrightarrow> update_last r err h h') \<and>
      (err = None \<longrightarrow> pr_Return res \<longrightarrow> updates h') \<and> (\<not> ShouldReturn res err \<longrightarrow> r' = r \<and> h' = h)) (w, h)"
  unfolding finalize_address_def wp_Process wp_bindp
proof (rule finalize_resource_rule [OF address_resource_lawful _ _ _ _ refl refl], goal_cases)
  case 1
  then show ?case using assms
    by (auto simp: address_resource_def address_Status_Update_def wp_rules intro!: address_calls)
next
  case 2
  then show ?case using assms by (auto simp: wp_rules)
next
  case 3
  then show ?case using assms
    by (auto simp: address_resource_def address_accessors_def address_Status_Update_def wp_rules lawful_update_def same_address_def intro!: address_calls)
next
  case 4
  note d = deconstruct_step [OF assms(1), of "ar_address r" h w]
  show ?case
    by (rule wp_mono [OF d]) (use 4 assms in \<open>auto simp: address_resource_def address_accessors_def address_Status_Update_def wp_rules
      lawful_update_def same_address_def split: option.splits intro!: address_calls\<close>)
qed

end
