(* ===== verification/Address_Runs.thy ===== *)
theory Address_Runs
  imports Address_Steps
begin

text \<open>
  What a run of the address controller does, for any behaviour of the Kubernetes API and of the
  infrastructure client: when it releases the finalizer of an address, and what has happened when it
  has nothing more to do.
\<close>

section \<open>Whole runs\<close>

lemma initialize_address_simps:
  "same_address a (ar_address (initialize_address grow cap t a))"
  "ma_DeletionTimestamp (ar_address (initialize_address grow cap t a)) = ma_DeletionTimestamp a"
  "ma_Finalizers (ar_address (initialize_address grow cap t a)) = ma_Finalizers a"
  "ast_Phase (ma_Status (ar_address (initialize_address grow cap t a))) =
     (if ast_Phase (ma_Status a) = '''' then MessagingAddressConfiguring else ast_Phase (ma_Status a))"
  by (simp_all add: initialize_address_def same_address_def Let_def split: prod.split)

lemma same_address_GetAddress: "same_address a b \<Longrightarrow> MessagingAddress_GetAddress a = MessagingAddress_GetAddress b"
  by (simp add: same_address_def MessagingAddress_GetAddress_def split: option.split)

lemma same_address_users:
  assumes "same_address a b"
  shows "subscribes a = subscribes b" and "dead_letters_to a = dead_letters_to b"
  using same_address_GetAddress [OF assms] by (simp_all add: fun_eq_iff subscribes_def dead_letters_to_def split: option.split)

lemma same_address_deletes: "same_address a b \<Longrightarrow> deletes a = deletes b"
proof
  show "deletes a ev = deletes b ev" if "same_address a b" for ev
    using that by (cases "(a, ev)" rule: deletes.cases) (auto simp: same_address_def)
qed

lemma released_cong: "same_address a b \<Longrightarrow> released a h = released b h"
  using same_address_users [of a b] same_address_deletes [of a b]
  by (auto simp: released_def no_users_def same_address_def)

lemma lawful_update_found:
  assumes "lawful_update (ar_address (initialize_address grow cap t a)) b h"
  shows "lawful_update a b h"
  using assms initialize_address_simps [where a = a and grow = grow and cap = cap and t = t] released_cong [of a "ar_address (initialize_address grow cap t a)" h]
  by (auto simp: lawful_update_def same_address_def Terminating_def MessagingAddressConfiguring_def split: if_splits)

lemma references_grown: "grown h h' \<Longrightarrow> references_found a h \<Longrightarrow> references_found a h'"
  by (auto simp: references_found_def grown_list_ex split: option.splits)

lemma references_cong: "same_address a b \<Longrightarrow> references_found a h = references_found b h"
  by (simp add: references_found_def same_address_def split: option.split)

lemma grown_set: "grown h h' \<Longrightarrow> e \<in> set h \<Longrightarrow> e \<in> set h'"
  by (auto simp: grown_def)

lemma same_address_trans: "same_address a b \<Longrightarrow> same_address b c \<Longrightarrow> same_address a c"
  by (simp add: same_address_def)

text \<open>What holds of an address when its phase becomes active.\<close>

definition address_synced :: "MessagingAddress \<Rightarrow> MessagingAddress \<Rightarrow> address_event list \<Rightarrow> bool" where
  "address_synced a b h \<longleftrightarrow> same_address a b \<and> references_found a h \<and>
     (\<exists>infra c. same_address a c \<and> ASynced infra c None \<in> set h) \<and>
     (as_Anycast (ma_Spec a) = None \<longrightarrow> as_Multicast (ma_Spec a) = None \<longrightarrow> ast_Brokers (ma_Status b) \<noteq> []) \<and>
     (\<forall>br \<in> set (ast_Brokers (ma_Status b)). mb_State br = MessagingAddressBrokerActive)"

lemma address_synced_cong:
  "same_address b c \<Longrightarrow> ast_Brokers (ma_Status c) = ast_Brokers (ma_Status b) \<Longrightarrow> address_synced a b h \<Longrightarrow> address_synced a c h"
  unfolding address_synced_def using same_address_trans [of a b c] by simp

definition address_active :: "MessagingAddress \<Rightarrow> address_event list \<Rightarrow> bool" where
  "address_active a h \<longleftrightarrow> (\<exists>b h1. h = AStatusUpdated b None # h1 \<and> ast_Phase (ma_Status b) = MessagingAddressActive \<and>
     ast_Message (ma_Status b) = '''' \<and> address_synced a b h1)"

text \<open>The results of a run: an update of the address is lawful and is the last thing that happens, apart from reporting its
  failure; and a run after which nothing remains to be done has found no address, has updated it, or has made it active.\<close>

definition run_post :: "NamespacedName \<Rightarrow> reconcile_Result \<times> error option \<Rightarrow> 'w \<times> address_event list \<Rightarrow> bool" where
  "run_post req = (\<lambda>(res, err) (w', h).
      (updates h \<longrightarrow> (\<exists>found b e h1. AGot req (Inr found) \<in> set h1 \<and> \<not> updates h1 \<and> lawful_update found b h1 \<and>
         (err = None \<and> e = None \<and> h = AUpdated b e # h1 \<or> err \<noteq> None \<and> (\<exists>c e'. h = AStatusUpdated c e' # AUpdated b e # h1)))) \<and>
      (res = Result0 \<longrightarrow> err = None \<longrightarrow> updates h \<or> (\<exists>e. AGot req (Inl e) \<in> set h \<and> k8errors_IsNotFound e) \<or>
         (\<exists>found. AGot req (Inr found) \<in> set h \<and> address_active found h)))"

lemma run_post_again:
  assumes "\<not> updates h" and "err = None \<longrightarrow> pr_Requeue res \<or> 0 < pr_RequeueAfter res"
  shows "run_post req (processorResult_Result res, err) (w, h)"
  using assms by (auto simp: run_post_def processorResult_Result_def Result0_def)

lemma stage_and_then:
  assumes "stage ops step r w h Q" and "\<not> updates h"
    and "\<And>r' w' h'. Q r' h' \<Longrightarrow> grown h h' \<Longrightarrow> \<not> updates h' \<Longrightarrow> wp (f r') (run_post req) (w', h')"
  shows "wp (and_then (Process (address_Status_Update (address_logged ops)) step r) f) (run_post req) (w, h)"
  unfolding wp_and_then
proof (rule wp_mono [OF assms(1) [unfolded stage_def]], clarify, goal_cases)
  case (1 res err r' w' h')
  then show ?case
  proof (cases "ShouldReturn res err")
    case True
    then have "err = None \<longrightarrow> pr_Requeue res \<or> 0 < pr_RequeueAfter res" using 1 by blast
    moreover have "\<not> updates h'" using 1 assms(2) by blast
    ultimately show ?thesis using True run_post_again [of h' err res req w'] by simp
  next
    case False
    then show ?thesis using 1 assms(2) assms(3) [of r' h' w'] by auto
  qed
qed

lemma run_after_finalize:
  assumes total: "address_ops_total ops" and h1: "\<not> updates h1" "AGot req (Inr a) \<in> set h1" and r1: "same_address a (ar_address r1)"
    and U: "U = address_Status_Update (address_logged ops)"
  shows "wp (and_then (Process U (find_infra (address_logged ops)) r1) (\<lambda>r2.
    and_then (Process U (validate_address (address_logged ops)) r2) (\<lambda>r3.
    and_then (Process U (schedule_address (address_logged ops)) r3) (\<lambda>r4.
    and_then (Process U (sync_address (address_logged ops)) r4) (\<lambda>r5.
    and_return (Process U (complete_address (address_logged ops)) r5)))))) (run_post req) (w1, h1)"
  unfolding U
proof (rule stage_and_then [OF stage_find_infra [OF total] h1(1)])
  fix r2 :: address_run and w2 h2
  assume s2: "\<exists>infra. ar_infra r2 = Some infra \<and> same_address (ar_address r1) (ar_address r2) \<and>
      ast_Brokers (ma_Status (ar_address r2)) = ast_Brokers (ma_Status (ar_address r1))"
    and g: "grown h1 h2" and h2: "\<not> updates h2"
  from s2 obtain infra where r2: "ar_infra r2 = Some infra" "same_address (ar_address r1) (ar_address r2)" by (elim exE conjE) (rule that)
  note r2 = r2(1) same_address_trans [OF r1 r2(2)]
  note g2 = grown_set [OF g h1(2)]
  show "wp (and_then (Process (address_Status_Update (address_logged ops)) (validate_address (address_logged ops)) r2) (\<lambda>r3.
    and_then (Process (address_Status_Update (address_logged ops)) (schedule_address (address_logged ops)) r3) (\<lambda>r4.
    and_then (Process (address_Status_Update (address_logged ops)) (sync_address (address_logged ops)) r4) (\<lambda>r5.
    and_return (Process (address_Status_Update (address_logged ops)) (complete_address (address_logged ops)) r5))))) (run_post req) (w2, h2)"
  proof (rule stage_and_then [OF stage_validate [OF total] h2])
    fix r3 :: address_run and w3 h3
    assume s3: "ar_infra r3 = ar_infra r2 \<and> references_found (ar_address r2) h3 \<and> same_address (ar_address r2) (ar_address r3) \<and>
        ast_Brokers (ma_Status (ar_address r3)) = ast_Brokers (ma_Status (ar_address r2))"
      and g3: "grown h2 h3" and h3: "\<not> updates h3"
    from s3 r2 have r3: "ar_infra r3 = Some infra" "references_found a h3" "same_address a (ar_address r3)"
      by (simp_all add: references_cong [OF r2(2)] same_address_trans [OF r2(2)])
    from g3 g2 have g3: "AGot req (Inr a) \<in> set h3" by (rule grown_set)
    show "wp (and_then (Process (address_Status_Update (address_logged ops)) (schedule_address (address_logged ops)) r3) (\<lambda>r4.
      and_then (Process (address_Status_Update (address_logged ops)) (sync_address (address_logged ops)) r4) (\<lambda>r5.
      and_return (Process (address_Status_Update (address_logged ops)) (complete_address (address_logged ops)) r5)))) (run_post req) (w3, h3)"
    proof (rule stage_and_then [OF stage_schedule [OF total r3(1)] h3])
      fix r4 :: address_run and w4 h4
      assume s4: "ar_infra r4 = ar_infra r3 \<and> same_address (ar_address r3) (ar_address r4) \<and>
          ast_Brokers (ma_Status (ar_address r4)) = ast_Brokers (ma_Status (ar_address r3)) \<and>
          (as_Anycast (ma_Spec (ar_address r3)) = None \<longrightarrow> as_Multicast (ma_Spec (ar_address r3)) = None \<longrightarrow>
           ast_Brokers (ma_Status (ar_address r3)) \<noteq> [])"
        and g4: "grown h3 h4" and h4: "\<not> updates h4"
      from s4 r3 have r4: "ar_infra r4 = Some infra" "same_address a (ar_address r4)" by (simp_all add: same_address_trans [OF r3(3)])
      have b4: "as_Anycast (ma_Spec a) = None \<longrightarrow> as_Multicast (ma_Spec a) = None \<longrightarrow> ast_Brokers (ma_Status (ar_address r4)) \<noteq> []"
        using s4 r3(3) by (auto simp: same_address_def)
      show "wp (and_then (Process (address_Status_Update (address_logged ops)) (sync_address (address_logged ops)) r4) (\<lambda>r5.
        and_return (Process (address_Status_Update (address_logged ops)) (complete_address (address_logged ops)) r5))) (run_post req) (w4, h4)"
      proof (rule stage_and_then [OF stage_sync [OF total r4(1)] h4])
        fix r5 :: address_run and w5 h5
        assume s5: "ASynced infra (ar_address r4) None \<in> set h5 \<and> same_address (ar_address r4) (ar_address r5) \<and>
            ast_Brokers (ma_Status (ar_address r5)) =
              map (\<lambda>b. b\<lparr>mb_State := MessagingAddressBrokerActive\<rparr>) (ast_Brokers (ma_Status (ar_address r4)))"
          and g5: "grown h4 h5" and h5: "\<not> updates h5"
        have "address_synced a (ar_address r5) h5"
          unfolding address_synced_def
          using s5 b4 r4(2) same_address_trans [OF r4(2)] references_grown [OF grown_trans [OF g4 g5] r3(2)]
          by (intro conjI exI [of _ infra] exI [of _ "ar_address r4"]) auto
        moreover have "AGot req (Inr a) \<in> set h5" using grown_set [OF grown_trans [OF g4 g5] g3] .
        ultimately show "wp (and_return (Process (address_Status_Update (address_logged ops)) (complete_address (address_logged ops)) r5)) (run_post req) (w5, h5)"
          unfolding wp_and_return
          by (intro wp_mono [OF complete_step [OF total]])
            (use h5 in \<open>auto simp: run_post_def address_active_def address_synced_cong\<close>)
      qed
    qed
  qed
qed

lemma address_run_ok:
  assumes total: "address_ops_total ops"
  shows "wp (address_Reconcile (address_logged ops) grow cap req) (run_post req) (w, [])"
  unfolding address_Reconcile_def wp_bindp
proof (rule address_calls(1) [OF total])
  fix r w1
  show "wp (case r of Inl err \<Rightarrow> ret (Result0, if k8errors_IsNotFound err then None else Some err)
      | Inr found \<Rightarrow> bindp (address_now (address_logged ops)) (\<lambda>t.
         let Proc = Process (address_Status_Update (address_logged ops))
         in and_then (Proc (finalize_address (address_logged ops)) (initialize_address grow cap t found)) (\<lambda>r1.
            and_then (Proc (find_infra (address_logged ops)) r1) (\<lambda>r2.
            and_then (Proc (validate_address (address_logged ops)) r2) (\<lambda>r3.
            and_then (Proc (schedule_address (address_logged ops)) r3) (\<lambda>r4.
            and_then (Proc (sync_address (address_logged ops)) r4) (\<lambda>r5.
            and_return (Proc (complete_address (address_logged ops)) r5)))))))) (run_post req) (w1, [AGot req r])"
  proof (cases r)
    case (Inl err)
    then show ?thesis by (auto simp: wp_rules run_post_def)
  next
    case (Inr a)
    let ?h = "[AGot req (Inr a)]" and ?r = "initialize_address grow cap (ao_now ops w1) a"
    note run = run_after_finalize [OF total _ _ _ refl, of ?h req a]
    have "wp (and_then (Process (address_Status_Update (address_logged ops)) (finalize_address (address_logged ops)) ?r) (\<lambda>r1.
        and_then (Process (address_Status_Update (address_logged ops)) (find_infra (address_logged ops)) r1) (\<lambda>r2.
        and_then (Process (address_Status_Update (address_logged ops)) (validate_address (address_logged ops)) r2) (\<lambda>r3.
        and_then (Process (address_Status_Update (address_logged ops)) (schedule_address (address_logged ops)) r3) (\<lambda>r4.
        and_then (Process (address_Status_Update (address_logged ops)) (sync_address (address_logged ops)) r4) (\<lambda>r5.
        and_return (Process (address_Status_Update (address_logged ops)) (complete_address (address_logged ops)) r5))))))) (run_post req) (w1, ?h)"
      unfolding wp_and_then [of "Process _ (finalize_address _) _"]
    proof (rule wp_mono [OF finalize_step [OF total, of ?h]], simp, clarify, goal_cases)
      case (1 res err r1 w2 h2)
      show ?case
      proof (cases "ShouldReturn res err")
        case True
        have "AGot req (Inr a) \<in> set h2" using 1 grown_set by fastforce
        then have "updates h2 \<longrightarrow> (\<exists>b e h3. AGot req (Inr a) \<in> set h3 \<and> \<not> updates h3 \<and> lawful_update a b h3 \<and>
            (err = None \<and> e = None \<and> h2 = AUpdated b e # h3 \<or> err \<noteq> None \<and> (\<exists>c e'. h2 = AStatusUpdated c e' # AUpdated b e # h3)))"
          using 1(2) lawful_update_found by fastforce
        moreover have "err = None \<longrightarrow> \<not> updates h2 \<longrightarrow> pr_Requeue res \<or> 0 < pr_RequeueAfter res"
          using 1(3) True by (auto simp: ShouldReturn_def)
        ultimately show ?thesis using True by (auto simp: run_post_def processorResult_Result_def Result0_def)
      next
        case False
        then show ?thesis using 1 run [of r1 w2] initialize_address_simps(1) [of a grow cap "ao_now ops w1"] by simp
      qed
    qed
    then show ?thesis using Inr by (simp add: wp_rules Let_def)
  qed
qed

text \<open>C7 (safety): a run of the address controller never panics, whatever the Kubernetes API and the infrastructure client
  answer. It writes the address itself at most once, as the last thing but reporting a failure of that
  write, and only to add the finalizer to an address that is not deleted, or to remove it from one that
  is marked as terminating. It removes it only after it has found that there is no project that is bound to an
  infrastructure, or after the infrastructure client has deleted the address and, for a topic or a dead
  letter address, a list of the addresses has shown none that still refers to it.\<close>

theorem finalizer_released:
  assumes "address_ops_total ops"
  shows "\<exists>res err w' h. address_Reconcile (address_logged ops) grow cap req (w, []) = Some ((res, err), w', h) \<and>
    (updates h \<longrightarrow> (\<exists>found b e h1. AGot req (Inr found) \<in> set h1 \<and> \<not> updates h1 \<and> lawful_update found b h1 \<and>
       (err = None \<and> e = None \<and> h = AUpdated b e # h1 \<or> err \<noteq> None \<and> (\<exists>c e'. h = AStatusUpdated c e' # AUpdated b e # h1))))"
  using address_run_ok [OF assms, of grow cap req w] by (auto simp: wp_def run_post_def)

text \<open>C8 (functional): when a run of the address controller ends without an error and without asking for another run, the
  address does not exist, or it has been written with a changed list of finalizers, or its status has
  been written as active. In the last case the infrastructure client has configured the address, the dead
  letter, expiry and topic addresses that it refers to have been found, it is placed on at least one
  broker unless it is anycast or multicast, and all its brokers are active.\<close>

theorem address_done:
  assumes "address_ops_total ops"
    and "address_Reconcile (address_logged ops) grow cap req (w, []) = Some ((Result0, None), w', h)"
  shows "(\<exists>e. AGot req (Inl e) \<in> set h \<and> k8errors_IsNotFound e) \<or> (\<exists>b h1. h = AUpdated b None # h1) \<or>
    (\<exists>found. AGot req (Inr found) \<in> set h \<and> address_active found h)"
proof -
  have "run_post req (Result0, None) (w', h)"
    using wp_run [OF address_run_ok [OF assms(1)] assms(2)] .
  then show ?thesis by (auto simp: run_post_def)
qed

end
