(* ===== verification/Address_Fake.thy ===== *)
theory Address_Fake
  imports Address_Runs
begin

text \<open>
  Concrete runs of the address controller: instances of the general statements, and runs that show what
  goes wrong.
\<close>

section \<open>An API that knows one address\<close>

definition api :: "MessagingAddress \<Rightarrow> error + MessagingProject \<Rightarrow> MessagingInfrastructure \<Rightarrow> unit address_ops" where
  "api a project infra =
     \<lparr> ao_now = (\<lambda>w. 7), ao_reader_Get = (\<lambda>k. ret (Inr a)), ao_Get_project = (\<lambda>k. ret project),
       ao_Get_infra = (\<lambda>k. ret (Inr infra)), ao_List = (\<lambda>ns. ret (Inr [a])),
       ao_Status_Update = (\<lambda>b. ret (None, b)), ao_Update = (\<lambda>b. ret (None, b)),
       ao_DeleteAddress = (\<lambda>i b. ret None), ao_ScheduleAddress = (\<lambda>i b. ret (None, b)), ao_SyncAddress = (\<lambda>i b. ret None) \<rparr>"

lemma api_total: "address_ops_total (api a project infra)"
  by (simp add: address_ops_total_def api_def total_def)

definition an_infra :: MessagingInfrastructure where
  "an_infra = \<lparr> mi_Name = ''infra'', mi_Namespace = ''enmasse'', mi_DeletionTimestamp = None, mi_Finalizers = [],
     mi_NamespaceSelector = None,
     mi_Status = \<lparr> ist_Phase = ''Active'', ist_Message = '''', ist_Conditions = [], ist_Routers = [], ist_Brokers = [] \<rparr> \<rparr>"

definition bound_project :: MessagingProject where
  "bound_project = \<lparr> mp_Name = ''default'', mp_Namespace = ''n'', mp_DeletionTimestamp = None, mp_Finalizers = [FINALIZER_NAME],
     mp_Spec = \<lparr> ps_MessagingInfrastructureRef = None, ps_Capabilities = [] \<rparr>,
     mp_Status = \<lparr> pst_Phase = ''Active'', pst_Message = '''',
       pst_MessagingInfrastructureRef = \<lparr> ref_Name = ''infra'', ref_Namespace = ''enmasse'' \<rparr>,
       pst_Conditions = [], pst_Capabilities = [], pst_Broker = None \<rparr> \<rparr>"

definition unknown :: "string \<Rightarrow> Condition" where
  "unknown t = \<lparr> cond_Type = t, cond_Status = ConditionUnknown, cond_LastTransitionTime = 0, cond_Reason = '''', cond_Message = '''' \<rparr>"

definition anycast :: "time option \<Rightarrow> string list \<Rightarrow> string \<Rightarrow> Condition list \<Rightarrow> MessagingAddress" where
  "anycast deletion finalizers phase conditions =
     \<lparr> ma_Name = ''a'', ma_Namespace = ''n'', ma_DeletionTimestamp = deletion, ma_Finalizers = finalizers,
       ma_Spec = \<lparr> as_Address = None, as_Anycast = Some (), as_Multicast = None, as_Queue = None, as_Topic = None,
         as_Subscription = None, as_DeadLetter = None \<rparr>,
       ma_Status = \<lparr> ast_Phase = phase, ast_Message = '''', ast_Conditions = conditions, ast_Brokers = [], ast_Type = '''' \<rparr> \<rparr>"

definition a_request :: NamespacedName where
  "a_request = \<lparr> nn_Namespace = ''n'', nn_Name = ''a'' \<rparr>"

text \<open>The growth of a slice in the runtime of Go, for slices of this size.\<close>

definition go_grow :: "nat \<Rightarrow> nat" where
  "go_grow cap = (if cap = 0 then 1 else 2 * cap)"

lemmas run_defs = address_Reconcile_def finalize_address_def finalize_resource_def address_resource_def address_accessors_def
  ProcessFinalizers_def deconstruct_def deconstruct_address_def find_infra_def LookupInfra_def validate_address_def refers_def
  address_valid_def schedule_address_def sync_address_def complete_address_def activate_brokers_def address_SetStatus_def
  set_pointer_def address_now_def address_Status_Update_def Process_def and_then_def and_return_def address_logged_def logged_def
  initialize_address_def address_conditions_def address_type_def getCondition_def Condition_SetStatus_def api_def anycast_def bound_project_def
  unknown_def MessagingProject_IsBound_def bindp_def Let_def result_defs ShouldReturn_def processorResult_Result_def
  a_request_def infra_ref_def go_grow_def

lemmas name_defs = FINALIZER_NAME_def Terminating_def PROJECT_RESOURCE_NAME_def address_phases
  MessagingAddressFoundProject_def MessagingAddressValidated_def
  MessagingAddressScheduled_def MessagingAddressCreated_def MessagingAddressReady_def ConditionTrue_def ConditionUnknown_def

section \<open>Instances\<close>

theorem address_done_witness:
  "\<exists>w' h. address_Reconcile (address_logged (api (anycast None [FINALIZER_NAME] '''' []) (Inr bound_project) an_infra)) go_grow 0 a_request ((), [])
     = Some ((Result0, None), w', h) \<and> (\<exists>found. AGot a_request (Inr found) \<in> set h \<and> address_active found h)"
proof -
  let ?a = "anycast None [FINALIZER_NAME] '''' []"
  let ?run = "address_Reconcile (address_logged (api ?a (Inr bound_project) an_infra)) go_grow 0 a_request ((), [])"
  have "\<exists>b h. ?run = Some ((Result0, None), (), AStatusUpdated b None # h) \<and> (\<forall>e. AGot a_request (Inl e) \<notin> set h)"
    by (simp add: run_defs name_defs)
  then obtain b h where run: "?run = Some ((Result0, None), (), AStatusUpdated b None # h)"
    and got: "\<forall>e. AGot a_request (Inl e) \<notin> set h" by (elim exE conjE) (rule that)
  from address_done [OF api_total run] got run show ?thesis by auto
qed

theorem finalizer_released_witness:
  "\<exists>b w' h1. address_Reconcile (address_logged (api (anycast (Some 1) [FINALIZER_NAME] Terminating []) (Inr bound_project) an_infra)) go_grow 0 a_request ((), [])
     = Some ((Result0, None), w', AUpdated b None # h1) \<and>
     lawful_update (anycast (Some 1) [FINALIZER_NAME] Terminating []) b h1 \<and> ma_Finalizers b = []"
proof -
  let ?a = "anycast (Some 1) [FINALIZER_NAME] Terminating []"
  let ?run = "address_Reconcile (address_logged (api ?a (Inr bound_project) an_infra)) go_grow 0 a_request ((), [])"
  have "\<exists>b h. ?run = Some ((Result0, None), (), AUpdated b None # h) \<and> ma_Finalizers b = [] \<and>
      (\<forall>f. AGot a_request (Inr f) \<in> set h \<longrightarrow> f = ?a)"
    by (simp add: run_defs name_defs)
  then obtain b h where run: "?run = Some ((Result0, None), (), AUpdated b None # h)" and released: "ma_Finalizers b = []"
    and got: "\<forall>f. AGot a_request (Inr f) \<in> set h \<longrightarrow> f = ?a" by (elim exE conjE) (rule that)
  have "updates (AUpdated b None # h)" by simp
  with finalizer_released [OF api_total, of ?a "Inr bound_project" an_infra go_grow 0 a_request "()"] run got
  have "lawful_update ?a b h" by auto
  with run released show ?thesis by blast
qed

section \<open>Runs that go wrong\<close>




end
