(* ===== verification/Project_Controller.thy ===== *)
theory Project_Controller
  imports Finalizer
begin

text \<open>
  The controller of messaging projects, \<open>pkg/controller/messagingproject/messagingproject_controller.go\<close>:
  it binds a project to an infrastructure, places a transactional project on a broker, has the
  infrastructure client and the certificate authority configure it, and releases a deleted project. The
  Kubernetes API, the infrastructure client and the certificate controller are parameters, the fields
  of \<open>project_ops\<close>.
\<close>

definition MessagingProjectConfiguring :: string where "MessagingProjectConfiguring = ''Configuring''"
definition MessagingProjectActive :: string where "MessagingProjectActive = ''Active''"
definition MessagingInfrastructureActive :: string where "MessagingInfrastructureActive = ''Active''"

definition MessagingProjectBound :: string where "MessagingProjectBound = ''Bound''"
definition MessagingProjectCaCreated :: string where "MessagingProjectCaCreated = ''CaCreated''"
definition MessagingProjectScheduled :: string where "MessagingProjectScheduled = ''Scheduled''"
definition MessagingProjectCreated :: string where "MessagingProjectCreated = ''Created''"
definition MessagingProjectReady :: string where "MessagingProjectReady = ''Ready''"
definition MessagingCapabilityTransactional :: string where "MessagingCapabilityTransactional = ''transactional''"

lemmas project_phases = MessagingProjectConfiguring_def MessagingProjectActive_def MessagingInfrastructureActive_def

section \<open>Choosing an infrastructure\<close>

text \<open>
  The loop variable \<open>infra\<close> of the code is one variable for all iterations, and \<open>bestMatch\<close> is a pointer
  to it. So \<open>fm_bestMatch\<close> only says whether the pointer has been set, and what it points to at the end is the
  last value of the variable.
\<close>

record find_match =
  fm_infra :: "MessagingInfrastructure option"
  fm_bestMatch :: bool
  fm_bestMatchSelector :: "string list option"

definition match_next :: "MessagingProject \<Rightarrow> MessagingInfrastructure \<Rightarrow> find_match \<Rightarrow> find_match" where
  "match_next project infra s0 =
     (let s = s0\<lparr>fm_infra := Some infra\<rparr>
      in if ist_Phase (mi_Status infra) \<noteq> MessagingInfrastructureActive then s
         else case mi_NamespaceSelector infra of
           None \<Rightarrow> if \<not> fm_bestMatch s then s\<lparr>fm_bestMatch := True\<rparr> else s
         | Some names \<Rightarrow>
             if list_ex (\<lambda>ns. ns = mp_Namespace project) names \<and> fm_bestMatchSelector s = None
             then s\<lparr>fm_bestMatch := True, fm_bestMatchSelector := Some names\<rparr> else s)"

definition findBestMatch :: "MessagingProject \<Rightarrow> MessagingInfrastructure list \<Rightarrow> MessagingInfrastructure option" where
  "findBestMatch project infras =
     (let s = fold (match_next project) infras \<lparr> fm_infra = None, fm_bestMatch = False, fm_bestMatchSelector = None \<rparr>
      in if fm_bestMatch s then fm_infra s else None)"

definition suits :: "MessagingProject \<Rightarrow> MessagingInfrastructure \<Rightarrow> bool" where
  "suits project infra \<longleftrightarrow> ist_Phase (mi_Status infra) = MessagingInfrastructureActive \<and>
     (case mi_NamespaceSelector infra of None \<Rightarrow> True | Some names \<Rightarrow> mp_Namespace project \<in> set names)"

lemma match_next_infra [simp]: "fm_infra (match_next project infra s) = Some infra"
  by (simp add: match_next_def Let_def split: option.split)

lemma match_next_best:
  assumes "fm_bestMatchSelector s \<noteq> None \<longrightarrow> fm_bestMatch s"
  shows "fm_bestMatch (match_next project infra s) \<longleftrightarrow> fm_bestMatch s \<or> suits project infra"
    and "fm_bestMatchSelector (match_next project infra s) \<noteq> None \<longrightarrow> fm_bestMatch (match_next project infra s)"
  using assms by (auto simp: match_next_def suits_def Let_def list_ex_iff split: option.splits)

lemma findBestMatch_loop:
  assumes "fm_bestMatchSelector s \<noteq> None \<longrightarrow> fm_bestMatch s"
  shows "fm_bestMatch (fold (match_next project) infras s) \<longleftrightarrow> fm_bestMatch s \<or> list_ex (suits project) infras"
    and "fm_infra (fold (match_next project) infras s) = (if infras = [] then fm_infra s else Some (last infras))"
  using assms
proof (induction infras arbitrary: s)
  case (Cons i infras)
  case 1
  show ?case using Cons.IH(1) [OF match_next_best(2) [OF 1]] match_next_best(1) [OF 1] by simp
next
  case (Cons i infras)
  case 2
  show ?case using Cons.IH(2) [OF match_next_best(2) [OF 2]] by simp
qed simp_all

lemma findBestMatch_eq:
  "findBestMatch project infras = (if list_ex (suits project) infras then Some (last infras) else None)"
  using findBestMatch_loop [of "\<lparr> fm_infra = None, fm_bestMatch = False, fm_bestMatchSelector = None \<rparr>" project infras]
  by (auto simp: findBestMatch_def)

section \<open>Operations\<close>

record 'w project_ops =
  po_now :: "'w \<Rightarrow> time"
  po_reader_Get :: "NamespacedName \<Rightarrow> ('w, error + MessagingProject) prog"
  po_Get_infra :: "NamespacedName \<Rightarrow> ('w, error + MessagingInfrastructure) prog"
  po_List_infras :: "('w, error + MessagingInfrastructure list) prog"
  po_List_endpoints :: "string \<Rightarrow> ('w, error + MessagingEndpoint list) prog"
  po_List_addresses :: "string \<Rightarrow> ('w, error + MessagingAddress list) prog"
  po_Status_Update :: "MessagingProject \<Rightarrow> ('w, error option \<times> MessagingProject) prog"
  po_Update :: "MessagingProject \<Rightarrow> ('w, error option \<times> MessagingProject) prog"
  po_Delete_secret :: "NamespacedName \<Rightarrow> ('w, error option) prog"
  po_DeleteProject :: "MessagingInfrastructure \<Rightarrow> MessagingProject \<Rightarrow> ('w, error option) prog"
  po_ScheduleProject :: "MessagingInfrastructure \<Rightarrow> MessagingProject \<Rightarrow> ('w, error option \<times> MessagingProject) prog"
  po_SyncProject :: "MessagingInfrastructure \<Rightarrow> MessagingProject \<Rightarrow> ('w, error option) prog"
  po_ReconcileProjectCa :: "MessagingInfrastructure \<Rightarrow> string \<Rightarrow> ('w, error option) prog"

text \<open>The variables of a run: the project and the infrastructure, which the code sets to an empty value first.\<close>

record project_run =
  pj_project :: MessagingProject
  pj_infra :: "MessagingInfrastructure option"

abbreviation on_pstatus :: "(MessagingProjectStatus \<Rightarrow> MessagingProjectStatus) \<Rightarrow> MessagingProject \<Rightarrow> MessagingProject" where
  "on_pstatus f p \<equiv> p\<lparr>mp_Status := f (mp_Status p)\<rparr>"

abbreviation on_project :: "(MessagingProject \<Rightarrow> MessagingProject) \<Rightarrow> project_run \<Rightarrow> project_run" where
  "on_project f r \<equiv> r\<lparr>pj_project := f (pj_project r)\<rparr>"

abbreviation set_project_phase :: "string \<Rightarrow> MessagingProject \<Rightarrow> MessagingProject" where
  "set_project_phase p \<equiv> on_pstatus (\<lambda>s. s\<lparr>pst_Phase := p\<rparr>)"

abbreviation set_project_message :: "string \<Rightarrow> MessagingProject \<Rightarrow> MessagingProject" where
  "set_project_message m \<equiv> on_pstatus (\<lambda>s. s\<lparr>pst_Message := m\<rparr>)"

text \<open>\<open>project.Status.GetMessagingProjectCondition(t).SetStatus(status, "", message)\<close>\<close>

definition project_SetStatus :: "time \<Rightarrow> string \<Rightarrow> string \<Rightarrow> string \<Rightarrow> MessagingProject \<Rightarrow> MessagingProject" where
  "project_SetStatus now t status message =
     on_pstatus (\<lambda>s. let (i, s') = GetMessagingProjectCondition now t s
       in s'\<lparr>pst_Conditions := (pst_Conditions s')[i := Condition_SetStatus now status '''' message (pst_Conditions s' ! i)]\<rparr>)"

lemma GetMessagingProjectCondition_frame:
  "GetMessagingProjectCondition now t s = (i, s') \<Longrightarrow> s' = s\<lparr>pst_Conditions := pst_Conditions s'\<rparr>"
  by (auto simp: GetMessagingProjectCondition_def split: prod.splits)

lemma project_SetStatus_simps [simp]:
  "mp_Name (project_SetStatus t c st m p) = mp_Name p" "mp_Namespace (project_SetStatus t c st m p) = mp_Namespace p"
  "mp_Spec (project_SetStatus t c st m p) = mp_Spec p" "mp_DeletionTimestamp (project_SetStatus t c st m p) = mp_DeletionTimestamp p"
  "mp_Finalizers (project_SetStatus t c st m p) = mp_Finalizers p"
  "pst_Phase (mp_Status (project_SetStatus t c st m p)) = pst_Phase (mp_Status p)"
  "pst_Message (mp_Status (project_SetStatus t c st m p)) = pst_Message (mp_Status p)"
  "pst_MessagingInfrastructureRef (mp_Status (project_SetStatus t c st m p)) = pst_MessagingInfrastructureRef (mp_Status p)"
  "pst_Capabilities (mp_Status (project_SetStatus t c st m p)) = pst_Capabilities (mp_Status p)"
  "pst_Broker (mp_Status (project_SetStatus t c st m p)) = pst_Broker (mp_Status p)"
  by (simp_all add: project_SetStatus_def GetMessagingProjectCondition_def split: prod.split)

definition project_now :: "'w project_ops \<Rightarrow> ('w, time) prog" where
  "project_now ops = (\<lambda>w. Some (po_now ops w, w))"

definition project_Status_Update :: "'w project_ops \<Rightarrow> project_run \<Rightarrow> ('w, error option \<times> project_run) prog" where
  "project_Status_Update ops r =
     bindp (po_Status_Update ops (pj_project r)) (\<lambda>(err, p). ret (err, r\<lparr>pj_project := p\<rparr>))"

section \<open>Initializing\<close>

definition project_conditions :: "string list" where
  "project_conditions = [MessagingProjectBound, MessagingProjectCaCreated, MessagingProjectScheduled,
     MessagingProjectCreated, MessagingProjectReady]"

definition initialize_project :: "time \<Rightarrow> MessagingProject \<Rightarrow> MessagingProject" where
  "initialize_project t p =
     on_pstatus (\<lambda>s. fold (\<lambda>c s. snd (GetMessagingProjectCondition t c s)) project_conditions
       (s\<lparr>pst_Phase := if pst_Phase s = '''' then MessagingProjectConfiguring else pst_Phase s,
          pst_Capabilities := ps_Capabilities (mp_Spec p)\<rparr>)) p"

section \<open>Finalizing\<close>

definition project_accessors :: "MessagingProject accessors" where
  "project_accessors =
     \<lparr> acc_deletion = mp_DeletionTimestamp, acc_finalizers = mp_Finalizers, acc_set = (\<lambda>xs p. p\<lparr>mp_Finalizers := xs\<rparr>) \<rparr>"

definition still_used :: "nat \<Rightarrow> nat \<Rightarrow> error" where
  "still_used addresses endpoints =
     Errorf (''unable to delete MessagingProject: waiting for '' @ show_nat addresses @ '' addresses and '' @
       show_nat endpoints @ '' endpoints to be deleted'')"

definition deconstruct_bound ::
  "'w project_ops \<Rightarrow> MessagingProject \<Rightarrow> ('w, (reconcile_Result \<times> error option) \<times> MessagingProject) prog" where
  "deconstruct_bound ops project =
     bindp (po_Get_infra ops (infra_ref project)) (\<lambda>g. case g of
       Inl err \<Rightarrow> ret ((Result0, Some err), project)
     | Inr infra \<Rightarrow>
         bindp (po_DeleteProject ops infra project) (\<lambda>err. case err of
           Some e \<Rightarrow> ret ((Result0, Some e), project)
         | None \<Rightarrow>
             bindp (po_Delete_secret ops
                     \<lparr> nn_Namespace = ref_Namespace (pst_MessagingInfrastructureRef (mp_Status project)),
                       nn_Name = GetProjectCaSecretName (mp_Namespace project) \<rparr>) (\<lambda>err.
             ret ((Result0, case err of Some e \<Rightarrow> if k8errors_IsNotFound e then None else Some e | None \<Rightarrow> None), project))))"

definition deconstruct_project ::
  "'w project_ops \<Rightarrow> MessagingProject \<Rightarrow> ('w, (reconcile_Result \<times> error option) \<times> MessagingProject) prog" where
  "deconstruct_project ops project =
     bindp (po_List_endpoints ops (mp_Namespace project)) (\<lambda>l1. case l1 of
       Inl err \<Rightarrow> ret ((Result0, Some err), project)
     | Inr endpoints \<Rightarrow>
         bindp (po_List_addresses ops (mp_Namespace project)) (\<lambda>l2. case l2 of
           Inl err \<Rightarrow> ret ((Result0, Some err), project)
         | Inr addresses \<Rightarrow>
             if length addresses > 0 \<or> length endpoints > 0
             then ret ((Result0, Some (still_used (length addresses) (length endpoints))), project)
             else if MessagingProject_IsBound project then deconstruct_bound ops project
             else ret ((Result0, None), project)))"

definition project_resource :: "'w project_ops \<Rightarrow> ('w, MessagingProject) resource_ops" where
  "project_resource ops =
     \<lparr> res_accessors = project_accessors, res_phase = (\<lambda>p. pst_Phase (mp_Status p)), res_set_phase = set_project_phase,
       res_status_changed = (\<lambda>p q. False), res_Status_Update = po_Status_Update ops, res_Update = po_Update ops \<rparr>"

definition finalize_project :: "'w project_ops \<Rightarrow> ('w, project_run) step" where
  "finalize_project ops r =
     bindp (finalize_resource (project_resource ops) (deconstruct_project ops) (pj_project r)) (\<lambda>(res, p).
     ret (res, r\<lparr>pj_project := p\<rparr>))"

lemma project_resource_lawful: "lawful_ops (project_resource ops)"
  by (simp add: lawful_ops_def lawful_def project_resource_def project_accessors_def)

section \<open>The steps of a run\<close>

definition lookup_infra :: "'w project_ops \<Rightarrow> ('w, project_run) step" where
  "lookup_infra ops r =
     (let project = pj_project r; ref = pst_MessagingInfrastructureRef (mp_Status project) in
      if \<not> MessagingProject_IsBound project
      then bindp (po_List_infras ops) (\<lambda>l. case l of
             Inl err \<Rightarrow> ret ((processed, Some err), r)
           | Inr infras \<Rightarrow> ret ((processed, None), r\<lparr>pj_infra := findBestMatch project infras\<rparr>))
      else bindp (po_Get_infra ops (infra_ref project)) (\<lambda>g. case g of
             Inr infra \<Rightarrow> ret ((processed, None), r\<lparr>pj_infra := Some infra\<rparr>)
           | Inl err \<Rightarrow>
               if k8errors_IsNotFound err
               then bindp (project_now ops) (\<lambda>t.
                    let msg = ''Infrastructure '' @ ref_Namespace ref @ ''/'' @ ref_Name ref @ '' not found!''
                    in ret ((requeue_after 10, None),
                         on_project (project_SetStatus t MessagingProjectBound ConditionFalse msg \<circ> set_project_message msg) r))
               else ret ((processed, Some err), r)))"

definition bind_infra :: "'w project_ops \<Rightarrow> ('w, project_run) step" where
  "bind_infra ops r =
     bindp (project_now ops) (\<lambda>t. case pj_infra r of
       Some infra \<Rightarrow>
         ret ((processed, None), on_project
           (on_pstatus (\<lambda>s. s\<lparr>pst_MessagingInfrastructureRef := \<lparr> ref_Name = mi_Name infra, ref_Namespace = mi_Namespace infra \<rparr>\<rparr>) \<circ>
            project_SetStatus t MessagingProjectBound ConditionTrue '''') r)
     | None \<Rightarrow>
         let msg = ''Not yet bound to any infrastructure''
         in ret ((requeue_after 10, None),
              on_project (set_project_message msg \<circ> project_SetStatus t MessagingProjectBound ConditionFalse msg) r))"

definition transactional :: "MessagingProject \<Rightarrow> bool" where
  "transactional p \<longleftrightarrow> list_ex (\<lambda>c. c = MessagingCapabilityTransactional) (pst_Capabilities (mp_Status p))"

definition schedule_project :: "'w project_ops \<Rightarrow> ('w, project_run) step" where
  "schedule_project ops r =
     (let p = pj_project r in
      if \<not> transactional p \<or> pst_Broker (mp_Status p) \<noteq> None
      then bindp (project_now ops) (\<lambda>t.
           ret ((processed, None), on_project (project_SetStatus t MessagingProjectScheduled ConditionTrue '''') r))
      else case pj_infra r of
        None \<Rightarrow> panic
      | Some infra \<Rightarrow>
          bindp (po_ScheduleProject ops infra p) (\<lambda>(err, p1).
          bindp (project_now ops) (\<lambda>t. case err of
            Some e \<Rightarrow>
              ret (if is_transient e then (requeue_after 10, None) else (processed, Some e),
                   r\<lparr>pj_project := set_project_message (error_string e)
                                     (project_SetStatus t MessagingProjectScheduled ConditionFalse (error_string e) p1)\<rparr>)
          | None \<Rightarrow> ret ((requeue, None), r\<lparr>pj_project := project_SetStatus t MessagingProjectScheduled ConditionTrue '''' p1\<rparr>))))"

text \<open>The last two steps with the infrastructure differ in the call and in the condition.\<close>

definition report_project :: "'w project_ops \<Rightarrow> string \<Rightarrow> error option \<Rightarrow> ('w, project_run) step" where
  "report_project ops condition err r =
     bindp (project_now ops) (\<lambda>t. case err of
       Some e \<Rightarrow>
         ret ((processed, Some e), on_project (set_project_message (error_string e) \<circ>
           project_SetStatus t condition ConditionFalse (error_string e)) r)
     | None \<Rightarrow> ret ((processed, None), on_project (project_SetStatus t condition ConditionTrue '''') r))"

definition sync_project :: "'w project_ops \<Rightarrow> ('w, project_run) step" where
  "sync_project ops r =
     (case pj_infra r of
        None \<Rightarrow> panic
      | Some infra \<Rightarrow>
          bindp (po_SyncProject ops infra (pj_project r)) (\<lambda>err. report_project ops MessagingProjectCreated err r))"

definition reconcile_project_ca :: "'w project_ops \<Rightarrow> ('w, project_run) step" where
  "reconcile_project_ca ops r =
     (case pj_infra r of
        None \<Rightarrow> panic
      | Some infra \<Rightarrow>
          bindp (po_ReconcileProjectCa ops infra (mp_Namespace (pj_project r))) (\<lambda>err.
          report_project ops MessagingProjectCaCreated err r))"

definition complete_project :: "'w project_ops \<Rightarrow> ('w, project_run) step" where
  "complete_project ops r =
     bindp (project_now ops) (\<lambda>t.
     bindp (po_Status_Update ops (project_SetStatus t MessagingProjectReady ConditionTrue ''''
              (set_project_message '''' (set_project_phase MessagingProjectActive (pj_project r))))) (\<lambda>(err, p).
     ret ((processed, err), r\<lparr>pj_project := p\<rparr>)))"

definition project_Reconcile :: "'w project_ops \<Rightarrow> NamespacedName \<Rightarrow> ('w, reconcile_Result \<times> error option) prog" where
  "project_Reconcile ops request =
     (if nn_Name request \<noteq> PROJECT_RESOURCE_NAME then ret (Result0, None)
      else bindp (po_reader_Get ops request) (\<lambda>g. case g of
        Inl err \<Rightarrow> ret (Result0, if k8errors_IsNotFound err then None else Some err)
      | Inr found \<Rightarrow>
          bindp (project_now ops) (\<lambda>t.
          let Proc = Process (project_Status_Update ops)
          in and_then (Proc (finalize_project ops) \<lparr> pj_project = initialize_project t found, pj_infra = None \<rparr>) (\<lambda>r1.
             and_then (Proc (lookup_infra ops) r1) (\<lambda>r2.
             and_then (Proc (bind_infra ops) r2) (\<lambda>r3.
             and_then (Proc (schedule_project ops) r3) (\<lambda>r4.
             and_then (Proc (sync_project ops) r4) (\<lambda>r5.
             and_then (Proc (reconcile_project_ca ops) r5) (\<lambda>r6.
             and_return (Proc (complete_project ops) r6))))))))))"

section \<open>Logging the calls\<close>

datatype project_event =
    PGot NamespacedName "error + MessagingProject"
  | PGotInfra NamespacedName "error + MessagingInfrastructure"
  | PListedInfras "error + MessagingInfrastructure list"
  | PListedEndpoints string "error + MessagingEndpoint list"
  | PListedAddresses string "error + MessagingAddress list"
  | PStatusUpdated MessagingProject "error option"
  | PUpdated MessagingProject "error option"
  | PSecretDeleted NamespacedName "error option"
  | PDeleted MessagingInfrastructure MessagingProject "error option"
  | PScheduled MessagingInfrastructure MessagingProject "error option"
  | PSynced MessagingInfrastructure MessagingProject "error option"
  | PCaReconciled MessagingInfrastructure string "error option"

definition project_logged :: "'w project_ops \<Rightarrow> ('w \<times> project_event list) project_ops" where
  "project_logged ops =
     \<lparr> po_now = po_now ops \<circ> fst,
       po_reader_Get = (\<lambda>k. logged (PGot k) (po_reader_Get ops k)),
       po_Get_infra = (\<lambda>k. logged (PGotInfra k) (po_Get_infra ops k)),
       po_List_infras = logged PListedInfras (po_List_infras ops),
       po_List_endpoints = (\<lambda>ns. logged (PListedEndpoints ns) (po_List_endpoints ops ns)),
       po_List_addresses = (\<lambda>ns. logged (PListedAddresses ns) (po_List_addresses ops ns)),
       po_Status_Update = (\<lambda>p. logged (PStatusUpdated p \<circ> fst) (po_Status_Update ops p)),
       po_Update = (\<lambda>p. logged (PUpdated p \<circ> fst) (po_Update ops p)),
       po_Delete_secret = (\<lambda>k. logged (PSecretDeleted k) (po_Delete_secret ops k)),
       po_DeleteProject = (\<lambda>i p. logged (PDeleted i p) (po_DeleteProject ops i p)),
       po_ScheduleProject = (\<lambda>i p. logged (PScheduled i p \<circ> fst) (po_ScheduleProject ops i p)),
       po_SyncProject = (\<lambda>i p. logged (PSynced i p) (po_SyncProject ops i p)),
       po_ReconcileProjectCa = (\<lambda>i ns. logged (PCaReconciled i ns) (po_ReconcileProjectCa ops i ns)) \<rparr>"

text \<open>The calls return.\<close>

definition project_ops_total :: "'w project_ops \<Rightarrow> bool" where
  "project_ops_total ops \<longleftrightarrow>
     (\<forall>k. total (po_reader_Get ops k)) \<and> (\<forall>k. total (po_Get_infra ops k)) \<and> total (po_List_infras ops) \<and>
     (\<forall>ns. total (po_List_endpoints ops ns)) \<and> (\<forall>ns. total (po_List_addresses ops ns)) \<and>
     (\<forall>p. total (po_Status_Update ops p)) \<and> (\<forall>p. total (po_Update ops p)) \<and> (\<forall>k. total (po_Delete_secret ops k)) \<and>
     (\<forall>i p. total (po_DeleteProject ops i p)) \<and> (\<forall>i p. total (po_ScheduleProject ops i p)) \<and>
     (\<forall>i p. total (po_SyncProject ops i p)) \<and> (\<forall>i ns. total (po_ReconcileProjectCa ops i ns))"

lemma wp_project_now [wp_rules]: "wp (project_now ops) Q = (\<lambda>w. Q (po_now ops w) w)"
  by (rule ext) (simp add: wp_def project_now_def)

end
