(* ===== verification/Project_Runs.thy ===== *)
theory Project_Runs
  imports Project_Controller
begin

text \<open>
  What a run of the project controller does, for any behaviour of the Kubernetes API, of the infrastructure
  client and of the certificate controller.
\<close>

section \<open>Calls\<close>

lemma project_calls:
  assumes "project_ops_total ops"
  shows "(\<And>r w'. Q1 r (w', PGot k r # h)) \<Longrightarrow> wp (po_reader_Get (project_logged ops) k) Q1 (w, h)"
    and "(\<And>r w'. Q2 r (w', PGotInfra k r # h)) \<Longrightarrow> wp (po_Get_infra (project_logged ops) k) Q2 (w, h)"
    and "(\<And>r w'. Q3 r (w', PListedInfras r # h)) \<Longrightarrow> wp (po_List_infras (project_logged ops)) Q3 (w, h)"
    and "(\<And>r w'. Q4 r (w', PListedEndpoints ns r # h)) \<Longrightarrow> wp (po_List_endpoints (project_logged ops) ns) Q4 (w, h)"
    and "(\<And>r w'. Q5 r (w', PListedAddresses ns r # h)) \<Longrightarrow> wp (po_List_addresses (project_logged ops) ns) Q5 (w, h)"
    and "(\<And>e b w'. Q6 (e, b) (w', PStatusUpdated a e # h)) \<Longrightarrow> wp (po_Status_Update (project_logged ops) a) Q6 (w, h)"
    and "(\<And>e b w'. Q6 (e, b) (w', PUpdated a e # h)) \<Longrightarrow> wp (po_Update (project_logged ops) a) Q6 (w, h)"
    and "(\<And>e w'. Q7 e (w', PSecretDeleted k e # h)) \<Longrightarrow> wp (po_Delete_secret (project_logged ops) k) Q7 (w, h)"
    and "(\<And>e w'. Q7 e (w', PDeleted i a e # h)) \<Longrightarrow> wp (po_DeleteProject (project_logged ops) i a) Q7 (w, h)"
    and "(\<And>e b w'. Q6 (e, b) (w', PScheduled i a e # h)) \<Longrightarrow> wp (po_ScheduleProject (project_logged ops) i a) Q6 (w, h)"
    and "(\<And>e w'. Q7 e (w', PSynced i a e # h)) \<Longrightarrow> wp (po_SyncProject (project_logged ops) i a) Q7 (w, h)"
    and "(\<And>e w'. Q7 e (w', PCaReconciled i ns e # h)) \<Longrightarrow> wp (po_ReconcileProjectCa (project_logged ops) i ns) Q7 (w, h)"
  using assms by (auto simp: project_logged_def project_ops_total_def intro!: wp_logged)

lemma project_logged_now [simp]: "po_now (project_logged ops) (w, h) = po_now ops w"
  by (simp add: project_logged_def)

fun is_project_update :: "project_event \<Rightarrow> bool" where
  "is_project_update (PUpdated p err) = True"
| "is_project_update ev = False"

abbreviation project_updates :: "project_event list \<Rightarrow> bool" where
  "project_updates h \<equiv> list_ex is_project_update h"

abbreviation project_staged ::
  "'w project_ops \<Rightarrow> ('w \<times> project_event list, project_run) step \<Rightarrow> project_run \<Rightarrow> 'w \<times> project_event list
    \<Rightarrow> (project_run \<Rightarrow> project_event list \<Rightarrow> bool) \<Rightarrow> bool" where
  "project_staged ops \<equiv> staged is_project_update (project_Status_Update (project_logged ops))"

section \<open>Steps\<close>

definition same_project :: "MessagingProject \<Rightarrow> MessagingProject \<Rightarrow> bool" where
  "same_project p q \<longleftrightarrow> mp_Name p = mp_Name q \<and> mp_Namespace p = mp_Namespace q \<and> mp_Spec p = mp_Spec q"

text \<open>The infrastructure that a run works with: the one the project is bound to, or the one that was chosen.\<close>

definition chosen :: "MessagingProject \<Rightarrow> MessagingInfrastructure \<Rightarrow> project_event list \<Rightarrow> bool" where
  "chosen p infra h \<longleftrightarrow>
     (if MessagingProject_IsBound p then PGotInfra (infra_ref p) (Inr infra) \<in> set h
      else \<exists>infras. PListedInfras (Inr infras) \<in> set h \<and> findBestMatch p infras = Some infra)"

definition run_of :: "NamespacedName \<Rightarrow> MessagingProject \<Rightarrow> project_run \<Rightarrow> project_event list \<Rightarrow> bool" where
  "run_of req p r h \<longleftrightarrow> PGot req (Inr p) \<in> set h \<and> same_project p (pj_project r) \<and>
     pst_Capabilities (mp_Status (pj_project r)) = ps_Capabilities (mp_Spec p)"

definition started_run :: "NamespacedName \<Rightarrow> MessagingProject \<Rightarrow> project_run \<Rightarrow> project_event list \<Rightarrow> bool" where
  "started_run req p r h \<longleftrightarrow> run_of req p r h \<and>
     pst_MessagingInfrastructureRef (mp_Status (pj_project r)) = pst_MessagingInfrastructureRef (mp_Status p)"

definition bound_run :: "NamespacedName \<Rightarrow> MessagingProject \<Rightarrow> MessagingInfrastructure \<Rightarrow> project_run \<Rightarrow> project_event list \<Rightarrow> bool" where
  "bound_run req p infra r h \<longleftrightarrow> run_of req p r h \<and> pj_infra r = Some infra \<and> chosen p infra h \<and>
     pst_MessagingInfrastructureRef (mp_Status (pj_project r)) = \<lparr> ref_Name = mi_Name infra, ref_Namespace = mi_Namespace infra \<rparr>"

definition placed_run :: "NamespacedName \<Rightarrow> MessagingProject \<Rightarrow> MessagingInfrastructure \<Rightarrow> project_run \<Rightarrow> project_event list \<Rightarrow> bool" where
  "placed_run req p infra r h \<longleftrightarrow> bound_run req p infra r h \<and>
     (MessagingCapabilityTransactional \<in> set (ps_Capabilities (mp_Spec p)) \<longrightarrow> pst_Broker (mp_Status (pj_project r)) \<noteq> None)"

fun syncs :: "MessagingProject \<Rightarrow> MessagingInfrastructure \<Rightarrow> project_event \<Rightarrow> bool" where
  "syncs p infra (PSynced i c None) \<longleftrightarrow> i = infra \<and> same_project p c"
| "syncs p infra ev \<longleftrightarrow> False"

definition synced_run :: "NamespacedName \<Rightarrow> MessagingProject \<Rightarrow> MessagingInfrastructure \<Rightarrow> project_run \<Rightarrow> project_event list \<Rightarrow> bool" where
  "synced_run req p infra r h \<longleftrightarrow> placed_run req p infra r h \<and> list_ex (syncs p infra) h"

definition certified_run :: "NamespacedName \<Rightarrow> MessagingProject \<Rightarrow> MessagingInfrastructure \<Rightarrow> project_run \<Rightarrow> project_event list \<Rightarrow> bool" where
  "certified_run req p infra r h \<longleftrightarrow> synced_run req p infra r h \<and> PCaReconciled infra (mp_Namespace p) None \<in> set h"

lemmas run_of_defs = run_of_def same_project_def

lemma findBestMatch_namespace: "mp_Namespace p = mp_Namespace q \<Longrightarrow> findBestMatch p = findBestMatch q"
proof -
  assume "mp_Namespace p = mp_Namespace q"
  then have "suits p = suits q" by (simp add: fun_eq_iff suits_def split: option.split)
  then show ?thesis by (intro ext) (simp only: findBestMatch_eq)
qed

lemma stage_lookup:
  assumes "project_ops_total ops" and "\<not> project_updates h" and "started_run req p r h"
  shows "project_staged ops (lookup_infra (project_logged ops)) r (w, h)
    (\<lambda>r' h'. started_run req p r' h' \<and> (\<forall>infra. pj_infra r' = Some infra \<longrightarrow> chosen p infra h'))"
proof -
  have "MessagingProject_IsBound (pj_project r) = MessagingProject_IsBound p" "infra_ref (pj_project r) = infra_ref p"
    and "findBestMatch (pj_project r) = findBestMatch p"
    using assms(3) findBestMatch_namespace [of "pj_project r" p] by (simp_all add: started_run_def run_of_defs MessagingProject_IsBound_def infra_ref_def)
  then show ?thesis using assms
    unfolding staged_def lookup_infra_def Let_def
    by (auto simp: started_run_def run_of_defs chosen_def project_Status_Update_def wp_rules Let_def
        split: sum.splits prod.splits intro!: project_calls [OF assms(1)])
qed

lemma stage_bind:
  assumes "project_ops_total ops" and "\<not> project_updates h"
    and "started_run req p r h \<and> (\<forall>infra. pj_infra r = Some infra \<longrightarrow> chosen p infra h)"
  shows "project_staged ops (bind_infra (project_logged ops)) r (w, h) (\<lambda>r' h'. \<exists>infra. bound_run req p infra r' h')"
  using assms unfolding staged_def bind_infra_def Let_def
  by (auto simp: started_run_def bound_run_def run_of_defs project_Status_Update_def wp_rules
      split: option.splits prod.splits intro!: project_calls [OF assms(1)])

lemma chosen_Cons: "chosen p infra h \<Longrightarrow> chosen p infra (ev # h)"
  by (auto simp: chosen_def)

lemma stage_schedule_project:
  assumes "project_ops_total ops" and "\<not> project_updates h" and "bound_run req p infra r h"
  shows "project_staged ops (schedule_project (project_logged ops)) r (w, h) (placed_run req p infra)"
  using assms unfolding staged_def schedule_project_def Let_def
  by (auto simp: placed_run_def bound_run_def run_of_defs transactional_def list_ex_iff project_Status_Update_def wp_rules
      split: option.splits prod.splits intro!: project_calls [OF assms(1)])

lemma stage_sync_project:
  assumes "project_ops_total ops" and "\<not> project_updates h" and "placed_run req p infra r h"
  shows "project_staged ops (sync_project (project_logged ops)) r (w, h) (synced_run req p infra)"
  using assms unfolding staged_def sync_project_def
  by (auto simp: synced_run_def placed_run_def bound_run_def run_of_defs report_project_def chosen_Cons project_Status_Update_def wp_rules
      split: option.splits prod.splits intro!: project_calls [OF assms(1)])

lemma stage_project_ca:
  assumes "project_ops_total ops" and "\<not> project_updates h" and "synced_run req p infra r h"
  shows "project_staged ops (reconcile_project_ca (project_logged ops)) r (w, h) (certified_run req p infra)"
  using assms unfolding staged_def reconcile_project_ca_def
  by (auto simp: certified_run_def synced_run_def placed_run_def bound_run_def run_of_defs report_project_def chosen_Cons
      project_Status_Update_def wp_rules
      split: option.splits prod.splits intro!: project_calls [OF assms(1)])

text \<open>What holds of a project when its phase becomes active.\<close>

definition project_active :: "NamespacedName \<Rightarrow> MessagingProject \<Rightarrow> project_event list \<Rightarrow> bool" where
  "project_active req p h \<longleftrightarrow> (\<exists>b infra h1. h = PStatusUpdated b None # h1 \<and> pst_Phase (mp_Status b) = MessagingProjectActive \<and>
     pst_Message (mp_Status b) = '''' \<and> certified_run req p infra \<lparr> pj_project = b, pj_infra = Some infra \<rparr> h1)"

lemma complete_project_step:
  assumes "project_ops_total ops" and "\<not> project_updates h" and "certified_run req p infra r h"
  shows "wp (Process (project_Status_Update (project_logged ops)) (complete_project (project_logged ops)) r)
    (\<lambda>((res, err), r') (w', h'). \<not> project_updates h' \<and> res = processed \<and> (err = None \<longrightarrow> project_active req p h')) (w, h)"
  using assms unfolding complete_project_def
  by (auto simp: project_active_def certified_run_def synced_run_def placed_run_def bound_run_def run_of_defs
      project_Status_Update_def wp_rules split: option.splits prod.splits intro!: project_calls [OF assms(1)])

section \<open>Finalizing\<close>

fun deletes_project :: "MessagingProject \<Rightarrow> MessagingInfrastructure \<Rightarrow> project_event \<Rightarrow> bool" where
  "deletes_project p infra (PDeleted i q None) \<longleftrightarrow> i = infra \<and> same_project p q"
| "deletes_project p infra ev \<longleftrightarrow> False"

fun deletes_secret :: "NamespacedName \<Rightarrow> project_event \<Rightarrow> bool" where
  "deletes_secret k (PSecretDeleted k' err) \<longleftrightarrow> k' = k \<and> (case err of None \<Rightarrow> True | Some e \<Rightarrow> k8errors_IsNotFound e)"
| "deletes_secret k ev \<longleftrightarrow> False"

text \<open>What has been done before the finalizer of a project is released.\<close>

definition project_released :: "MessagingProject \<Rightarrow> project_event list \<Rightarrow> bool" where
  "project_released p h \<longleftrightarrow> PListedEndpoints (mp_Namespace p) (Inr []) \<in> set h \<and> PListedAddresses (mp_Namespace p) (Inr []) \<in> set h \<and>
     (MessagingProject_IsBound p \<longrightarrow> (\<exists>infra. PGotInfra (infra_ref p) (Inr infra) \<in> set h \<and> list_ex (deletes_project p infra) h) \<and>
        list_ex (deletes_secret \<lparr> nn_Namespace = ref_Namespace (pst_MessagingInfrastructureRef (mp_Status p)),
                                   nn_Name = GetProjectCaSecretName (mp_Namespace p) \<rparr>) h)"

lemma deconstruct_project_step:
  assumes "project_ops_total ops" and "\<not> project_updates h"
  shows "wp (deconstruct_project (project_logged ops) p)
    (\<lambda>((res, err), p') (w', h'). \<not> project_updates h' \<and> (\<forall>e \<in> set h. e \<in> set h') \<and> p' = p \<and> res = Result0 \<and>
       (err = None \<longrightarrow> project_released p h')) (w, h)"
  using assms unfolding deconstruct_project_def deconstruct_bound_def
  by (auto simp: wp_rules same_project_def project_released_def
      split: sum.splits prod.splits option.splits if_splits intro!: project_calls [OF assms(1)]) blast+

text \<open>An update of the project by the first step: it adds the finalizer, or it releases it.\<close>

definition lawful_project_update :: "MessagingProject \<Rightarrow> MessagingProject \<Rightarrow> project_event list \<Rightarrow> bool" where
  "lawful_project_update p q h \<longleftrightarrow> same_project p q \<and>
     (mp_DeletionTimestamp p = None \<and> FINALIZER_NAME \<notin> set (mp_Finalizers p) \<and> mp_Finalizers q = mp_Finalizers p @ [FINALIZER_NAME] \<or>
      mp_DeletionTimestamp p \<noteq> None \<and> pst_Phase (mp_Status p) = Terminating \<and>
      mp_Finalizers q = filter (\<lambda>x. x \<noteq> FINALIZER_NAME) (mp_Finalizers p) \<and> project_released p h)"

abbreviation project_updated_last :: "MessagingProject \<Rightarrow> error option \<Rightarrow> project_event list \<Rightarrow> project_event list \<Rightarrow> bool" where
  "project_updated_last p err h h' \<equiv> \<exists>q e h1. (\<forall>ev \<in> set h. ev \<in> set h1) \<and> lawful_project_update p q h1 \<and> \<not> project_updates h1 \<and>
     (err = None \<and> e = None \<and> h' = PUpdated q e # h1 \<or>
      err \<noteq> None \<and> (\<exists>c e'. h' = PStatusUpdated c e' # PUpdated q e # h1))"

lemma finalize_project_step:
  assumes "project_ops_total ops" and "\<not> project_updates h"
  shows "wp (Process (project_Status_Update (project_logged ops)) (finalize_project (project_logged ops)) r)
    (\<lambda>((res, err), r') (w', h'). (project_updates h' \<longrightarrow> project_updated_last (pj_project r) err h h') \<and>
      (err = None \<longrightarrow> pr_Return res \<longrightarrow> project_updates h') \<and> (\<not> ShouldReturn res err \<longrightarrow> r' = r \<and> h' = h)) (w, h)"
  unfolding finalize_project_def wp_Process wp_bindp
proof (rule finalize_resource_rule [OF project_resource_lawful _ _ _ _ refl refl], goal_cases)
  case 1
  then show ?case using assms
    by (auto simp: project_resource_def project_Status_Update_def wp_rules intro!: project_calls)
next
  case 2
  then show ?case using assms by (auto simp: wp_rules)
next
  case 3
  then show ?case using assms
    by (auto simp: project_resource_def project_accessors_def project_Status_Update_def wp_rules lawful_project_update_def same_project_def intro!: project_calls)
next
  case 4
  note d = deconstruct_project_step [OF assms, of "pj_project r" w]
  show ?case
    by (rule wp_mono [OF d]) (use 4 assms in \<open>auto simp: project_resource_def project_accessors_def project_Status_Update_def wp_rules
      lawful_project_update_def same_project_def split: option.splits intro!: project_calls\<close>)
qed

section \<open>Whole runs\<close>

lemma initialize_project_fold [simp]:
  "pst_Phase (fold (\<lambda>c s. snd (GetMessagingProjectCondition t c s)) cs s) = pst_Phase s"
  "pst_Capabilities (fold (\<lambda>c s. snd (GetMessagingProjectCondition t c s)) cs s) = pst_Capabilities s"
  "pst_MessagingInfrastructureRef (fold (\<lambda>c s. snd (GetMessagingProjectCondition t c s)) cs s) = pst_MessagingInfrastructureRef s"
  by (induction cs arbitrary: s) (simp_all add: GetMessagingProjectCondition_def split: prod.split)

lemma initialize_project_simps:
  "same_project p (initialize_project t p)"
  "mp_DeletionTimestamp (initialize_project t p) = mp_DeletionTimestamp p" "mp_Finalizers (initialize_project t p) = mp_Finalizers p"
  "pst_MessagingInfrastructureRef (mp_Status (initialize_project t p)) = pst_MessagingInfrastructureRef (mp_Status p)"
  "pst_Capabilities (mp_Status (initialize_project t p)) = ps_Capabilities (mp_Spec p)"
  "pst_Phase (mp_Status (initialize_project t p)) = (if pst_Phase (mp_Status p) = '''' then MessagingProjectConfiguring else pst_Phase (mp_Status p))"
  by (simp_all add: initialize_project_def same_project_def)

lemma same_project_deletes: "same_project p q \<Longrightarrow> deletes_project p infra = deletes_project q infra"
proof
  show "deletes_project p infra ev = deletes_project q infra ev" if "same_project p q" for ev
    using that by (cases "(p, infra, ev)" rule: deletes_project.cases) (auto simp: same_project_def)
qed

lemma project_released_cong:
  assumes "same_project p q" and "pst_MessagingInfrastructureRef (mp_Status p) = pst_MessagingInfrastructureRef (mp_Status q)"
  shows "project_released p h = project_released q h"
  using assms same_project_deletes [OF assms(1)]
  by (simp add: project_released_def same_project_def MessagingProject_IsBound_def infra_ref_def)

lemma lawful_project_found:
  assumes "lawful_project_update (initialize_project t p) q h"
  shows "lawful_project_update p q h"
  using assms initialize_project_simps [where p = p and t = t] project_released_cong [of p "initialize_project t p" h]
  by (auto simp: lawful_project_update_def same_project_def Terminating_def MessagingProjectConfiguring_def split: if_splits)

definition project_post :: "NamespacedName \<Rightarrow> reconcile_Result \<times> error option \<Rightarrow> 'w \<times> project_event list \<Rightarrow> bool" where
  "project_post req = (\<lambda>(res, err) (w', h).
      (project_updates h \<longrightarrow> (\<exists>found. project_updated_last found err [PGot req (Inr found)] h)) \<and>
      (res = Result0 \<longrightarrow> err = None \<longrightarrow> project_updates h \<or> nn_Name req \<noteq> PROJECT_RESOURCE_NAME \<or>
         (\<exists>e. PGot req (Inl e) \<in> set h \<and> k8errors_IsNotFound e) \<or> (\<exists>found. project_active req found h)))"

lemma project_post_again:
  assumes "\<not> project_updates h" and "err = None \<longrightarrow> soon res"
  shows "project_post req (processorResult_Result res, err) (w, h)"
  using assms by (auto simp: project_post_def processorResult_Result_def Result0_def soon_def)

lemmas project_then = staged_then [where up = is_project_update and Post = "project_post req" for req, OF _ project_post_again]

lemma project_steps:
  assumes total: "project_ops_total ops" and h: "\<not> project_updates h" and r: "started_run req p r h"
    and U: "U = project_Status_Update (project_logged ops)" and L: "L = project_logged ops"
  shows "wp (and_then (Process U (lookup_infra L) r) (\<lambda>r2.
    and_then (Process U (bind_infra L) r2) (\<lambda>r3.
    and_then (Process U (schedule_project L) r3) (\<lambda>r4.
    and_then (Process U (sync_project L) r4) (\<lambda>r5.
    and_then (Process U (reconcile_project_ca L) r5) (\<lambda>r6.
    and_return (Process U (complete_project L) r6))))))) (project_post req) (w, h)"
  unfolding U L
proof (rule project_then [OF stage_lookup [OF total h r]], assumption, assumption,
    rule project_then [OF stage_bind [OF total]], assumption, assumption, assumption, assumption, erule exE,
    rule project_then [OF stage_schedule_project [OF total]], assumption, assumption, assumption, assumption,
    rule project_then [OF stage_sync_project [OF total]], assumption, assumption, assumption, assumption,
    rule project_then [OF stage_project_ca [OF total]], assumption, assumption, assumption, assumption)
  fix infra r6 w6 h6
  assume "certified_run req p infra r6 h6" and "\<not> project_updates h6"
  then show "wp (and_return (Process (project_Status_Update (project_logged ops)) (complete_project (project_logged ops)) r6)) (project_post req) (w6, h6)"
    unfolding wp_and_return
    by (intro wp_mono [OF complete_project_step [OF total]]) (auto simp: project_post_def)
qed

lemma project_run_ok:
  assumes total: "project_ops_total ops"
  shows "wp (project_Reconcile (project_logged ops) req) (project_post req) (w, [])"
proof (cases "nn_Name req = PROJECT_RESOURCE_NAME")
  case False
  then show ?thesis by (simp add: project_Reconcile_def wp_rules project_post_def)
next
  case True
  let ?U = "project_Status_Update (project_logged ops)" and ?L = "project_logged ops"
  have "wp (and_then (Process ?U (finalize_project ?L) \<lparr> pj_project = initialize_project t p, pj_infra = None \<rparr>) (\<lambda>r1.
      and_then (Process ?U (lookup_infra ?L) r1) (\<lambda>r2.
      and_then (Process ?U (bind_infra ?L) r2) (\<lambda>r3.
      and_then (Process ?U (schedule_project ?L) r3) (\<lambda>r4.
      and_then (Process ?U (sync_project ?L) r4) (\<lambda>r5.
      and_then (Process ?U (reconcile_project_ca ?L) r5) (\<lambda>r6.
      and_return (Process ?U (complete_project ?L) r6)))))))) (project_post req) (w1, [PGot req (Inr p)])" for t p w1
    unfolding wp_and_then [of "Process _ (finalize_project _) _"]
  proof (rule wp_mono [OF finalize_project_step [OF total]], simp, clarify, goal_cases)
    case (1 res err r1 w2 h2)
    show ?case
    proof (cases "ShouldReturn res err")
      case True
      have "project_updates h2 \<longrightarrow> project_updated_last p err [PGot req (Inr p)] h2"
        using 1(1) lawful_project_found [of t p] by fastforce
      moreover have "err = None \<longrightarrow> \<not> project_updates h2 \<longrightarrow> pr_Requeue res \<or> 0 < pr_RequeueAfter res"
        using 1(2) True by (auto simp: ShouldReturn_def)
      ultimately show ?thesis using True by (auto simp: project_post_def processorResult_Result_def Result0_def)
    next
      case False
      have "started_run req p \<lparr> pj_project = initialize_project t p, pj_infra = None \<rparr> [PGot req (Inr p)]"
        using initialize_project_simps [where p = p and t = t] by (simp add: started_run_def run_of_def)
      then show ?thesis using False 1 project_steps [OF total _ _ refl refl, of "[PGot req (Inr p)]" req p r1 w2] by simp
    qed
  qed
  then show ?thesis using True
    by (auto simp: project_Reconcile_def wp_rules Let_def project_post_def split: sum.split intro!: project_calls [OF total])
qed

section \<open>Properties\<close>

text \<open>C9 (safety): a run of the project controller never panics, whatever the Kubernetes API, the infrastructure
  client and the certificate controller answer. It writes the project itself at most once, as the last thing but
  reporting a failure of that write, to add the finalizer to a project that is not deleted, or to
  remove it from one that is marked as terminating. It removes it only after lists of the endpoints and of the
  addresses of the namespace were both empty, and, when the project is bound, after the client of its
  infrastructure has deleted the project and the secret of its certificate authority is gone.\<close>

theorem project_finalizer_released:
  assumes "project_ops_total ops"
  shows "\<exists>res err w' h. project_Reconcile (project_logged ops) req (w, []) = Some ((res, err), w', h) \<and>
    (project_updates h \<longrightarrow> (\<exists>found q e h1. PGot req (Inr found) \<in> set h1 \<and> \<not> project_updates h1 \<and> lawful_project_update found q h1 \<and>
       (err = None \<and> e = None \<and> h = PUpdated q e # h1 \<or> err \<noteq> None \<and> (\<exists>c e'. h = PStatusUpdated c e' # PUpdated q e # h1))))"
proof -
  obtain res err w' h where run: "project_Reconcile (project_logged ops) req (w, []) = Some ((res, err), w', h)"
    and post: "project_post req (res, err) (w', h)"
    using project_run_ok [OF assms, of req w] by (auto simp: wp_def)
  then show ?thesis by (fastforce simp: project_post_def)
qed

text \<open>C10 (functional): when a run of the project controller ends without an error and without asking for another run, the
  request was not for the one supported name, the project does not exist, it has been written with a changed list of
  finalizers, or its status has been written as active. In the last case the project is bound to
  the infrastructure that it was bound to before, or else to the one that was chosen from a list; a
  transactional project is placed on a broker; the client of that infrastructure has configured the project
  and its certificate authority is in place.\<close>

theorem project_done:
  assumes "project_ops_total ops"
    and "project_Reconcile (project_logged ops) req (w, []) = Some ((Result0, None), w', h)"
  shows "nn_Name req \<noteq> PROJECT_RESOURCE_NAME \<or> (\<exists>e. PGot req (Inl e) \<in> set h \<and> k8errors_IsNotFound e) \<or>
    (\<exists>q h1. h = PUpdated q None # h1) \<or>
    (\<exists>found b infra h1. h = PStatusUpdated b None # h1 \<and> PGot req (Inr found) \<in> set h1 \<and> same_project found b \<and>
       pst_Phase (mp_Status b) = MessagingProjectActive \<and> chosen found infra h1 \<and>
       pst_MessagingInfrastructureRef (mp_Status b) = \<lparr> ref_Name = mi_Name infra, ref_Namespace = mi_Namespace infra \<rparr> \<and>
       (MessagingCapabilityTransactional \<in> set (ps_Capabilities (mp_Spec found)) \<longrightarrow> pst_Broker (mp_Status b) \<noteq> None) \<and>
       list_ex (syncs found infra) h1 \<and> PCaReconciled infra (mp_Namespace found) None \<in> set h1)"
proof -
  have "project_post req (Result0, None) (w', h)"
    using wp_run [OF project_run_ok [OF assms(1)] assms(2)] .
  moreover have "project_updates h \<Longrightarrow> \<exists>found. project_updated_last found None [PGot req (Inr found)] h \<Longrightarrow> \<exists>q h1. h = PUpdated q None # h1"
    by auto
  ultimately consider "\<exists>q h1. h = PUpdated q None # h1" | "nn_Name req \<noteq> PROJECT_RESOURCE_NAME"
    | "\<exists>e. PGot req (Inl e) \<in> set h \<and> k8errors_IsNotFound e" | found where "project_active req found h"
    unfolding project_post_def by auto
  then show ?thesis
  proof cases
    case (4 found)
    then show ?thesis
      unfolding project_active_def certified_run_def synced_run_def placed_run_def bound_run_def run_of_def by fastforce
  qed blast+
qed

text \<open>C38 (error): the infrastructure that an unbound project is given is the last one of the list whenever any of the list
  suits the project, where it should be the best that suits: the code keeps a pointer to the variable of its
  loop.\<close>

theorem findBestMatch_last:
  "findBestMatch project infras = Some infra \<longleftrightarrow> list_ex (suits project) infras \<and> infra = last infras"
  by (auto simp: findBestMatch_eq)

end
