(* ===== verification/Project_Fake.thy ===== *)
theory Project_Fake
  imports Project_Runs
begin

text \<open>
  Concrete runs of the project controller: instances of the general statements, and a run that binds
  a project to an infrastructure that is not active.
\<close>

definition project_api :: "MessagingProject \<Rightarrow> MessagingInfrastructure list \<Rightarrow> unit project_ops" where
  "project_api p infras =
     \<lparr> po_now = (\<lambda>w. 7), po_reader_Get = (\<lambda>k. ret (Inr p)), po_Get_infra = (\<lambda>k. ret (Inr (hd infras))),
       po_List_infras = ret (Inr infras), po_List_endpoints = (\<lambda>ns. ret (Inr [])), po_List_addresses = (\<lambda>ns. ret (Inr [])),
       po_Status_Update = (\<lambda>q. ret (None, q)), po_Update = (\<lambda>q. ret (None, q)), po_Delete_secret = (\<lambda>k. ret None),
       po_DeleteProject = (\<lambda>i q. ret None), po_ScheduleProject = (\<lambda>i q. ret (None, q)), po_SyncProject = (\<lambda>i q. ret None),
       po_ReconcileProjectCa = (\<lambda>i ns. ret None) \<rparr>"

lemma project_api_total: "project_ops_total (project_api p infras)"
  by (simp add: project_ops_total_def project_api_def total_def)

definition infra_in_phase :: "string \<Rightarrow> string \<Rightarrow> MessagingInfrastructure" where
  "infra_in_phase name phase = \<lparr> mi_Name = name, mi_Namespace = ''enmasse'', mi_DeletionTimestamp = None, mi_Finalizers = [],
     mi_NamespaceSelector = None,
     mi_Status = \<lparr> ist_Phase = phase, ist_Message = '''', ist_Conditions = [], ist_Routers = [], ist_Brokers = [] \<rparr> \<rparr>"

definition sample_project :: "time option \<Rightarrow> string \<Rightarrow> string \<Rightarrow> MessagingProject" where
  "sample_project deletion phase infra = \<lparr> mp_Name = ''default'', mp_Namespace = ''n'', mp_DeletionTimestamp = deletion, mp_Finalizers = [FINALIZER_NAME],
     mp_Spec = \<lparr> ps_MessagingInfrastructureRef = None, ps_Capabilities = [] \<rparr>,
     mp_Status = \<lparr> pst_Phase = phase, pst_Message = '''',
       pst_MessagingInfrastructureRef = \<lparr> ref_Name = infra, ref_Namespace = infra \<rparr>,
       pst_Conditions = [], pst_Capabilities = [], pst_Broker = None \<rparr> \<rparr>"

definition p_request :: NamespacedName where
  "p_request = \<lparr> nn_Namespace = ''n'', nn_Name = ''default'' \<rparr>"

lemma project_unchanged: "p = p\<lparr>mp_Finalizers := xs\<rparr> \<longleftrightarrow> mp_Finalizers p = xs"
  by (cases p) auto

lemma initialize_same [simp]:
  "mp_Name (initialize_project t p) = mp_Name p" "mp_Namespace (initialize_project t p) = mp_Namespace p" "mp_Spec (initialize_project t p) = mp_Spec p"
  using initialize_project_simps(1) [of p t] by (simp_all add: same_project_def)

lemmas project_run_defs = project_Reconcile_def finalize_project_def finalize_resource_def project_resource_def project_accessors_def
  ProcessFinalizers_def deconstruct_def deconstruct_project_def deconstruct_bound_def lookup_infra_def bind_infra_def findBestMatch_def match_next_def
  schedule_project_def transactional_def sync_project_def reconcile_project_ca_def report_project_def complete_project_def
  project_now_def project_Status_Update_def Process_def and_then_def and_return_def project_logged_def logged_def
  initialize_project_simps project_unchanged project_api_def infra_in_phase_def sample_project_def
  MessagingProject_IsBound_def bindp_def Let_def result_defs ShouldReturn_def processorResult_Result_def p_request_def infra_ref_def

lemmas project_name_defs = FINALIZER_NAME_def Terminating_def PROJECT_RESOURCE_NAME_def project_phases

theorem project_done_witness:
  "\<exists>w' b infra h1. project_Reconcile (project_logged (project_api (sample_project None '''' '''') [infra_in_phase ''infra'' ''Active''])) p_request ((), [])
     = Some ((Result0, None), w', PStatusUpdated b None # h1) \<and> pst_Phase (mp_Status b) = MessagingProjectActive \<and>
       chosen (sample_project None '''' '''') infra h1 \<and> PCaReconciled infra ''n'' None \<in> set h1"
proof -
  let ?p = "sample_project None '''' ''''"
  let ?run = "project_Reconcile (project_logged (project_api ?p [infra_in_phase ''infra'' ''Active''])) p_request ((), [])"
  have "\<exists>b h. ?run = Some ((Result0, None), (), PStatusUpdated b None # h) \<and> (\<forall>e. PGot p_request (Inl e) \<notin> set h) \<and>
      (\<forall>f. PGot p_request (Inr f) \<in> set h \<longrightarrow> f = ?p)"
    by (simp add: project_run_defs project_name_defs)
  then obtain b h where run: "?run = Some ((Result0, None), (), PStatusUpdated b None # h)"
    and got: "\<forall>e. PGot p_request (Inl e) \<notin> set h" "\<forall>f. PGot p_request (Inr f) \<in> set h \<longrightarrow> f = ?p" by (elim exE conjE) (rule that)
  have "nn_Name p_request = PROJECT_RESOURCE_NAME" and n: "mp_Namespace ?p = ''n''"
    by (simp_all add: p_request_def PROJECT_RESOURCE_NAME_def sample_project_def)
  with project_done [OF project_api_total run] got
  obtain infra where "pst_Phase (mp_Status b) = MessagingProjectActive" "chosen ?p infra h" "PCaReconciled infra ''n'' None \<in> set h"
    by auto
  with run show ?thesis by blast
qed

theorem project_finalizer_released_witness:
  "\<exists>q w' h1. project_Reconcile (project_logged (project_api (sample_project (Some 1) Terminating ''infra'') [infra_in_phase ''infra'' ''Active''])) p_request ((), [])
     = Some ((Result0, None), w', PUpdated q None # h1) \<and>
     lawful_project_update (sample_project (Some 1) Terminating ''infra'') q h1 \<and> mp_Finalizers q = []"
proof -
  let ?p = "sample_project (Some 1) Terminating ''infra''"
  let ?run = "project_Reconcile (project_logged (project_api ?p [infra_in_phase ''infra'' ''Active''])) p_request ((), [])"
  have "\<exists>q h. ?run = Some ((Result0, None), (), PUpdated q None # h) \<and> mp_Finalizers q = [] \<and>
      (\<forall>f. PGot p_request (Inr f) \<in> set h \<longrightarrow> f = ?p)"
    by (simp add: project_run_defs project_name_defs)
  then obtain q h where run: "?run = Some ((Result0, None), (), PUpdated q None # h)" and rel: "mp_Finalizers q = []"
    and got: "\<forall>f. PGot p_request (Inr f) \<in> set h \<longrightarrow> f = ?p" by (elim exE conjE) (rule that)
  have "project_updates (PUpdated q None # h)" by simp
  with project_finalizer_released [OF project_api_total, of ?p "[infra_in_phase ''infra'' ''Active'']" p_request "()"] run got
  have "lawful_project_update ?p q h" by auto
  with run rel show ?thesis by blast
qed

text \<open>A run can bind a project to an infrastructure that is being deleted, although another one is active,
  and configure the project there.\<close>

theorem project_bound_to_inactive:
  "\<exists>b h. project_Reconcile (project_logged (project_api (sample_project None '''' '''')
       [infra_in_phase ''one'' ''Active'', infra_in_phase ''two'' Terminating])) p_request ((), [])
     = Some ((Result0, None), (), PStatusUpdated b None # h) \<and>
     ref_Name (pst_MessagingInfrastructureRef (mp_Status b)) = ''two'' \<and> list_ex (syncs (sample_project None '''' '''') (infra_in_phase ''two'' Terminating)) h"
  by (simp add: project_run_defs project_name_defs same_project_def)

end
