(* ===== verification/Infra_Controller.thy ===== *)
theory Infra_Controller
  imports Finalizer Infra_SyncAll
begin

text \<open>
  The controller of messaging infrastructures, \<open>pkg/controller/messaginginfra/messaginginfra_controller.go\<close>:
  it has certificates, router pods and broker pods created, has the infrastructure client configure
  all the pods that run, and marks the infrastructure as active when all of them run and are connected. The Kubernetes
  API, the infrastructure client and the controllers of certificates, routers and brokers are
  parameters, the fields of \<open>infra_ops\<close>.
\<close>

definition MessagingInfrastructureConfiguring :: string where "MessagingInfrastructureConfiguring = ''Configuring''"
definition MessagingInfrastructurePending :: string where "MessagingInfrastructurePending = ''Pending''"
definition InfrastructureActive :: string where "InfrastructureActive = ''Active''"

definition infra_conditions :: "string list" where
  "infra_conditions = [''Ready'', ''CaCreated'', ''CertCreated'', ''BrokersCreated'', ''RoutersCreated'', ''BrokersConnected'', ''Synchronized'']"

section \<open>Operations\<close>

record 'w infra_ops =
  io_now :: "'w \<Rightarrow> time"
  io_reader_Get :: "NamespacedName \<Rightarrow> ('w, error + MessagingInfrastructure) prog"
  io_List_projects :: "('w, error + MessagingProject list) prog"
  io_Status_Update :: "MessagingInfrastructure \<Rightarrow> ('w, error option \<times> MessagingInfrastructure) prog"
  io_Update :: "MessagingInfrastructure \<Rightarrow> ('w, error option \<times> MessagingInfrastructure) prog"
  io_ReconcileCa :: "MessagingInfrastructure \<Rightarrow> ('w, error + string) prog"
  io_ReconcileCert :: "MessagingInfrastructure \<Rightarrow> string \<Rightarrow> ('w, error + string) prog"
  io_ReconcileRouters :: "MessagingInfrastructure \<Rightarrow> ('w, error + Host list) prog"
  io_ReconcileBrokers :: "MessagingInfrastructure \<Rightarrow> ('w, error + Host list) prog"
  io_SyncAll :: "MessagingInfrastructure \<Rightarrow> Host list \<Rightarrow> Host list \<Rightarrow> TlsConfig \<Rightarrow> ('w, error + ConnectorStatus list) prog"
  io_DeleteClient :: "MessagingInfrastructure \<Rightarrow> ('w, error option) prog"

text \<open>The variables of a run.\<close>

record infra_run =
  ir_infra :: MessagingInfrastructure
  ir_ready :: "nat option"
  ir_caCreated :: "nat option"
  ir_certCreated :: "nat option"
  ir_brokersCreated :: "nat option"
  ir_routersCreated :: "nat option"
  ir_brokersConnected :: "nat option"
  ir_synchronized :: "nat option"
  ir_infraCa :: string
  ir_controllerCert :: string
  ir_runningRouters :: "Host list"
  ir_routerHosts :: "Host list"
  ir_runningBrokers :: "Host list"
  ir_brokerHosts :: "Host list"
  ir_connectorStatuses :: "ConnectorStatus list"

abbreviation on_istatus :: "(MessagingInfrastructureStatus \<Rightarrow> MessagingInfrastructureStatus) \<Rightarrow> MessagingInfrastructure \<Rightarrow> MessagingInfrastructure" where
  "on_istatus f i \<equiv> i\<lparr>mi_Status := f (mi_Status i)\<rparr>"

abbreviation on_infra :: "(MessagingInfrastructure \<Rightarrow> MessagingInfrastructure) \<Rightarrow> infra_run \<Rightarrow> infra_run" where
  "on_infra f r \<equiv> r\<lparr>ir_infra := f (ir_infra r)\<rparr>"

abbreviation set_infra_phase :: "string \<Rightarrow> MessagingInfrastructure \<Rightarrow> MessagingInfrastructure" where
  "set_infra_phase p \<equiv> on_istatus (\<lambda>s. s\<lparr>ist_Phase := p\<rparr>)"

abbreviation set_infra_message :: "string \<Rightarrow> MessagingInfrastructure \<Rightarrow> MessagingInfrastructure" where
  "set_infra_message m \<equiv> on_istatus (\<lambda>s. s\<lparr>ist_Message := m\<rparr>)"

definition infra_SetStatus :: "time \<Rightarrow> nat option \<Rightarrow> string \<Rightarrow> string \<Rightarrow> MessagingInfrastructure \<Rightarrow> MessagingInfrastructure" where
  "infra_SetStatus now p status message =
     on_istatus (\<lambda>s. s\<lparr>ist_Conditions := set_pointer now status message p (ist_Conditions s)\<rparr>)"

lemma infra_SetStatus_simps [simp]:
  "mi_Name (infra_SetStatus t p st m i) = mi_Name i" "mi_Namespace (infra_SetStatus t p st m i) = mi_Namespace i"
  "mi_DeletionTimestamp (infra_SetStatus t p st m i) = mi_DeletionTimestamp i" "mi_Finalizers (infra_SetStatus t p st m i) = mi_Finalizers i"
  "mi_NamespaceSelector (infra_SetStatus t p st m i) = mi_NamespaceSelector i"
  "ist_Phase (mi_Status (infra_SetStatus t p st m i)) = ist_Phase (mi_Status i)"
  "ist_Message (mi_Status (infra_SetStatus t p st m i)) = ist_Message (mi_Status i)"
  "ist_Routers (mi_Status (infra_SetStatus t p st m i)) = ist_Routers (mi_Status i)"
  "ist_Brokers (mi_Status (infra_SetStatus t p st m i)) = ist_Brokers (mi_Status i)"
  by (simp_all add: infra_SetStatus_def)

definition infra_now :: "'w infra_ops \<Rightarrow> ('w, time) prog" where
  "infra_now ops = (\<lambda>w. Some (io_now ops w, w))"

definition infra_Status_Update :: "'w infra_ops \<Rightarrow> infra_run \<Rightarrow> ('w, error option \<times> infra_run) prog" where
  "infra_Status_Update ops r =
     bindp (io_Status_Update ops (ir_infra r)) (\<lambda>(err, i). ret (err, r\<lparr>ir_infra := i\<rparr>))"

section \<open>Finalizing\<close>

definition infra_accessors :: "MessagingInfrastructure accessors" where
  "infra_accessors =
     \<lparr> acc_deletion = mi_DeletionTimestamp, acc_finalizers = mi_Finalizers, acc_set = (\<lambda>xs i. i\<lparr>mi_Finalizers := xs\<rparr>) \<rparr>"

definition refers_to :: "MessagingInfrastructure \<Rightarrow> MessagingProject \<Rightarrow> bool" where
  "refers_to infra project \<longleftrightarrow>
     pst_MessagingInfrastructureRef (mp_Status project) = \<lparr> ref_Name = mi_Name infra, ref_Namespace = mi_Namespace infra \<rparr>"

definition infra_in_use :: "MessagingInfrastructure \<Rightarrow> MessagingProject \<Rightarrow> error" where
  "infra_in_use infra project =
     Errorf (''unable to delete MessagingInfra '' @ mi_Namespace infra @ ''/'' @ mi_Name infra @ '': in use by MessagingProject '' @
       mp_Namespace project @ ''/'' @ mp_Name project)"

definition deconstruct_infra ::
  "'w infra_ops \<Rightarrow> MessagingInfrastructure \<Rightarrow> ('w, (reconcile_Result \<times> error option) \<times> MessagingInfrastructure) prog" where
  "deconstruct_infra ops infra =
     bindp (io_List_projects ops) (\<lambda>l. case l of
       Inl err \<Rightarrow> ret ((Result0, Some err), infra)
     | Inr projects \<Rightarrow>
         (case List.find (refers_to infra) projects of
            Some project \<Rightarrow> ret ((Result0, Some (infra_in_use infra project)), infra)
          | None \<Rightarrow> bindp (io_DeleteClient ops infra) (\<lambda>err. ret ((Result0, err), infra))))"

definition infra_resource :: "'w infra_ops \<Rightarrow> ('w, MessagingInfrastructure) resource_ops" where
  "infra_resource ops =
     \<lparr> res_accessors = infra_accessors, res_phase = (\<lambda>i. ist_Phase (mi_Status i)), res_set_phase = set_infra_phase,
       res_status_changed = (\<lambda>i j. False), res_Status_Update = io_Status_Update ops, res_Update = io_Update ops \<rparr>"

text \<open>The result type of the code has no \<open>RequeueAfter\<close>; it is 0 here.\<close>

definition reconcileFinalizers :: "'w infra_ops \<Rightarrow> ('w, MessagingInfrastructure) step" where
  "reconcileFinalizers ops = finalize_resource (infra_resource ops) (deconstruct_infra ops)"

lemma infra_resource_lawful: "lawful_ops (infra_resource ops)"
  by (simp add: lawful_ops_def lawful_def infra_resource_def infra_accessors_def)

section \<open>The steps of a run\<close>

definition initialize_infra :: "(nat \<Rightarrow> nat) \<Rightarrow> nat \<Rightarrow> time \<Rightarrow> MessagingInfrastructure \<Rightarrow> infra_run" where
  "initialize_infra grow cap t i =
     (let s = mi_Status i;
          (ptrs, cs) = get_pointers grow t (max cap (length (ist_Conditions s))) infra_conditions ([], ist_Conditions s)
      in \<lparr> ir_infra = i\<lparr>mi_Status := s
             \<lparr>ist_Phase := if ist_Phase s = '''' \<or> ist_Phase s = MessagingInfrastructurePending
                           then MessagingInfrastructureConfiguring else ist_Phase s,
              ist_Conditions := cs\<rparr>\<rparr>,
           ir_ready = ptrs ! 0, ir_caCreated = ptrs ! 1, ir_certCreated = ptrs ! 2, ir_brokersCreated = ptrs ! 3,
           ir_routersCreated = ptrs ! 4, ir_brokersConnected = ptrs ! 5, ir_synchronized = ptrs ! 6,
           ir_infraCa = '''', ir_controllerCert = '''', ir_runningRouters = [], ir_routerHosts = [],
           ir_runningBrokers = [], ir_brokerHosts = [], ir_connectorStatuses = [] \<rparr>)"

text \<open>The four steps that have something created report a failure in the same way.\<close>

definition infra_failed :: "'w infra_ops \<Rightarrow> nat option \<Rightarrow> error \<Rightarrow> ('w, infra_run) step" where
  "infra_failed ops p err r =
     bindp (infra_now ops) (\<lambda>t. ret ((processed, Some err),
       on_infra (infra_SetStatus t p ConditionFalse (error_string err) \<circ> set_infra_message (error_string err)) r))"

definition infra_succeeded :: "'w infra_ops \<Rightarrow> nat option \<Rightarrow> ('w, infra_run) step" where
  "infra_succeeded ops p r =
     bindp (infra_now ops) (\<lambda>t. ret ((processed, None), on_infra (infra_SetStatus t p ConditionTrue '''') r))"

definition reconcile_ca :: "'w infra_ops \<Rightarrow> ('w, infra_run) step" where
  "reconcile_ca ops r =
     bindp (io_ReconcileCa ops (ir_infra r)) (\<lambda>res. case res of
       Inl err \<Rightarrow> infra_failed ops (ir_caCreated r) err r
     | Inr ca \<Rightarrow> infra_succeeded ops (ir_caCreated r) (r\<lparr>ir_infraCa := ca\<rparr>))"

definition reconcile_cert :: "'w infra_ops \<Rightarrow> ('w, infra_run) step" where
  "reconcile_cert ops r =
     bindp (io_ReconcileCert ops (ir_infra r) (''enmasse-operator-'' @ mi_Name (ir_infra r))) (\<lambda>res. case res of
       Inl err \<Rightarrow> infra_failed ops (ir_certCreated r) err r
     | Inr cert \<Rightarrow> infra_succeeded ops (ir_certCreated r) (r\<lparr>ir_controllerCert := cert\<rparr>))"

definition running :: "Host list \<Rightarrow> Host list" where
  "running hosts = filter (\<lambda>host. Ip host \<noteq> '''') hosts"

definition pods_running :: "Host list \<Rightarrow> Host list \<Rightarrow> string \<Rightarrow> string" where
  "pods_running run hosts kind = show_nat (length run) @ ''/'' @ show_nat (length hosts) @ '' '' @ kind @ '' pods running''"

text \<open>When not all pods run yet, the condition says so and the run goes on.\<close>

definition pods_created :: "'w infra_ops \<Rightarrow> nat option \<Rightarrow> Host list \<Rightarrow> string \<Rightarrow> ('w, infra_run) step" where
  "pods_created ops p hosts kind r =
     (if length (running hosts) < length hosts
      then bindp (infra_now ops) (\<lambda>t.
           let msg = pods_running (running hosts) hosts kind
           in ret ((processed, None), on_infra (infra_SetStatus t p ConditionFalse msg \<circ> set_infra_message msg) r))
      else infra_succeeded ops p r)"

definition reconcile_routers :: "'w infra_ops \<Rightarrow> ('w, infra_run) step" where
  "reconcile_routers ops r =
     bindp (io_ReconcileRouters ops (ir_infra r)) (\<lambda>res. case res of
       Inl err \<Rightarrow> infra_failed ops (ir_routersCreated r) err r
     | Inr hosts \<Rightarrow>
         pods_created ops (ir_routersCreated r) hosts ''router''
           ((on_infra (on_istatus (\<lambda>s. s\<lparr>ist_Routers := map Hostname (running hosts)\<rparr>)) r)
              \<lparr>ir_runningRouters := running hosts, ir_routerHosts := hosts\<rparr>))"

definition reconcile_brokers :: "'w infra_ops \<Rightarrow> ('w, infra_run) step" where
  "reconcile_brokers ops r =
     bindp (io_ReconcileBrokers ops (ir_infra r)) (\<lambda>res. case res of
       Inl err \<Rightarrow> infra_failed ops (ir_brokersCreated r) err r
     | Inr hosts \<Rightarrow>
         pods_created ops (ir_brokersCreated r) hosts ''broker''
           ((on_infra (on_istatus (\<lambda>s. s\<lparr>ist_Brokers := map Hostname (running hosts)\<rparr>)) r)
              \<lparr>ir_runningBrokers := running hosts, ir_brokerHosts := hosts\<rparr>))"

definition run_tls :: "infra_run \<Rightarrow> TlsConfig" where
  "run_tls r = \<lparr> Certificates = ir_controllerCert r, RootCAs = ir_infraCa r, ServerName = '''' \<rparr>"

definition sync_infra :: "'w infra_ops \<Rightarrow> ('w, infra_run) step" where
  "sync_infra ops r =
     bindp (io_SyncAll ops (ir_infra r) (ir_runningRouters r) (ir_runningBrokers r) (run_tls r)) (\<lambda>res. case res of
       Inl err \<Rightarrow>
         if err = RequestTimeoutError
         then bindp (infra_now ops) (\<lambda>t.
              ret ((requeue_after 10, None), on_infra (infra_SetStatus t (ir_synchronized r) ConditionFalse (error_string err)) r))
         else ret ((processed, Some err), r)
     | Inr sts \<Rightarrow> infra_succeeded ops (ir_synchronized r) (r\<lparr>ir_connectorStatuses := sts\<rparr>))"

definition await_pods :: "('w, infra_run) step" where
  "await_pods r =
     (if length (ir_runningBrokers r) < length (ir_brokerHosts r) \<or> length (ir_runningRouters r) < length (ir_routerHosts r)
      then ret ((requeue_after 5, None), r) else ret ((processed, None), r))"

definition not_connected :: "'w infra_ops \<Rightarrow> string \<Rightarrow> ('w, infra_run) step" where
  "not_connected ops msg r =
     bindp (infra_now ops) (\<lambda>t. ret ((requeue_after 10, None),
       on_infra (infra_SetStatus t (ir_brokersConnected r) ConditionFalse msg \<circ> set_infra_message msg) r))"

definition check_connected :: "'w infra_ops \<Rightarrow> ('w, infra_run) step" where
  "check_connected ops r =
     (let expected = length (ir_runningRouters r) * length (ir_runningBrokers r); sts = ir_connectorStatuses r in
      if length sts \<noteq> expected
      then not_connected ops (''components not fully connected '' @ show_nat (length sts) @ ''/'' @ show_nat expected @ '' connectors configured'') r
      else case List.find (\<lambda>st. \<not> cst_Connected st) sts of
        Some st \<Rightarrow> not_connected ops (''connection between '' @ cst_Router st @ '' and '' @ cst_Broker st @ '' not ready: '' @ cst_Message st) r
      | None \<Rightarrow> infra_succeeded ops (ir_brokersConnected r) r)"

definition complete_infra :: "'w infra_ops \<Rightarrow> ('w, infra_run) step" where
  "complete_infra ops r =
     bindp (infra_now ops) (\<lambda>t.
     bindp (io_Status_Update ops (infra_SetStatus t (ir_ready r) ConditionTrue ''''
              (set_infra_message '''' (set_infra_phase InfrastructureActive (ir_infra r))))) (\<lambda>(err, i).
     ret ((processed, err), r\<lparr>ir_infra := i\<rparr>)))"

definition recheck :: reconcile_Result where
  "recheck = \<lparr> rr_Requeue = False, rr_RequeueAfter = 30 * 1000000000 \<rparr>"

definition infra_Reconcile ::
  "'w infra_ops \<Rightarrow> (nat \<Rightarrow> nat) \<Rightarrow> nat \<Rightarrow> NamespacedName \<Rightarrow> ('w, reconcile_Result \<times> error option) prog" where
  "infra_Reconcile ops grow cap request =
     bindp (io_reader_Get ops request) (\<lambda>g. case g of
       Inl err \<Rightarrow> ret (Result0, if k8errors_IsNotFound err then None else Some err)
     | Inr found \<Rightarrow>
         and_then (reconcileFinalizers ops found) (\<lambda>found1.
         bindp (infra_now ops) (\<lambda>t.
         let Proc = Process (infra_Status_Update ops)
         in and_then (Proc (reconcile_ca ops) (initialize_infra grow cap t found1)) (\<lambda>r1.
            and_then (Proc (reconcile_cert ops) r1) (\<lambda>r2.
            and_then (Proc (reconcile_routers ops) r2) (\<lambda>r3.
            and_then (Proc (reconcile_brokers ops) r3) (\<lambda>r4.
            and_then (Proc (sync_infra ops) r4) (\<lambda>r5.
            and_then (Proc await_pods r5) (\<lambda>r6.
            and_then (Proc (check_connected ops) r6) (\<lambda>r7.
            and_then (Proc (complete_infra ops) r7) (\<lambda>r8.
            ret (recheck, None))))))))))))"

section \<open>Logging the calls\<close>

datatype infra_event =
    IGot NamespacedName "error + MessagingInfrastructure"
  | IListedProjects "error + MessagingProject list"
  | IStatusUpdated MessagingInfrastructure "error option"
  | IUpdated MessagingInfrastructure "error option"
  | ICa "error + string"
  | ICert string "error + string"
  | IRouters "error + Host list"
  | IBrokers "error + Host list"
  | ISynced "Host list" "Host list" TlsConfig "error + ConnectorStatus list"
  | IClientDeleted MessagingInfrastructure "error option"

definition infra_logged :: "'w infra_ops \<Rightarrow> ('w \<times> infra_event list) infra_ops" where
  "infra_logged ops =
     \<lparr> io_now = io_now ops \<circ> fst,
       io_reader_Get = (\<lambda>k. logged (IGot k) (io_reader_Get ops k)),
       io_List_projects = logged IListedProjects (io_List_projects ops),
       io_Status_Update = (\<lambda>i. logged (IStatusUpdated i \<circ> fst) (io_Status_Update ops i)),
       io_Update = (\<lambda>i. logged (IUpdated i \<circ> fst) (io_Update ops i)),
       io_ReconcileCa = (\<lambda>i. logged ICa (io_ReconcileCa ops i)),
       io_ReconcileCert = (\<lambda>i n. logged (ICert n) (io_ReconcileCert ops i n)),
       io_ReconcileRouters = (\<lambda>i. logged IRouters (io_ReconcileRouters ops i)),
       io_ReconcileBrokers = (\<lambda>i. logged IBrokers (io_ReconcileBrokers ops i)),
       io_SyncAll = (\<lambda>i rs bs tls. logged (ISynced rs bs tls) (io_SyncAll ops i rs bs tls)),
       io_DeleteClient = (\<lambda>i. logged (IClientDeleted i) (io_DeleteClient ops i)) \<rparr>"

text \<open>The calls return.\<close>

definition infra_ops_total :: "'w infra_ops \<Rightarrow> bool" where
  "infra_ops_total ops \<longleftrightarrow>
     (\<forall>k. total (io_reader_Get ops k)) \<and> total (io_List_projects ops) \<and> (\<forall>i. total (io_Status_Update ops i)) \<and>
     (\<forall>i. total (io_Update ops i)) \<and> (\<forall>i. total (io_ReconcileCa ops i)) \<and> (\<forall>i n. total (io_ReconcileCert ops i n)) \<and>
     (\<forall>i. total (io_ReconcileRouters ops i)) \<and> (\<forall>i. total (io_ReconcileBrokers ops i)) \<and>
     (\<forall>i rs bs tls. total (io_SyncAll ops i rs bs tls)) \<and> (\<forall>i. total (io_DeleteClient ops i))"

lemma wp_infra_now [wp_rules]: "wp (infra_now ops) Q = (\<lambda>w. Q (io_now ops w) w)"
  by (rule ext) (simp add: wp_def infra_now_def)

end
