(* ===== verification/Infra_Control_Runs.thy ===== *)
theory Infra_Control_Runs
  imports Infra_Controller
begin

text \<open>
  What a run of the infrastructure controller does, for any behaviour of the Kubernetes API, of the infrastructure
  client and of the controllers of certificates, routers and brokers.
\<close>

section \<open>Calls\<close>

lemma infra_calls:
  assumes "infra_ops_total ops"
  shows "(\<And>r w'. Q1 r (w', IGot k r # h)) \<Longrightarrow> wp (io_reader_Get (infra_logged ops) k) Q1 (w, h)"
    and "(\<And>r w'. Q2 r (w', IListedProjects r # h)) \<Longrightarrow> wp (io_List_projects (infra_logged ops)) Q2 (w, h)"
    and "(\<And>e b w'. Q3 (e, b) (w', IStatusUpdated a e # h)) \<Longrightarrow> wp (io_Status_Update (infra_logged ops) a) Q3 (w, h)"
    and "(\<And>e b w'. Q3 (e, b) (w', IUpdated a e # h)) \<Longrightarrow> wp (io_Update (infra_logged ops) a) Q3 (w, h)"
    and "(\<And>r w'. Q4 r (w', ICa r # h)) \<Longrightarrow> wp (io_ReconcileCa (infra_logged ops) a) Q4 (w, h)"
    and "(\<And>r w'. Q4 r (w', ICert n r # h)) \<Longrightarrow> wp (io_ReconcileCert (infra_logged ops) a n) Q4 (w, h)"
    and "(\<And>r w'. Q5 r (w', IRouters r # h)) \<Longrightarrow> wp (io_ReconcileRouters (infra_logged ops) a) Q5 (w, h)"
    and "(\<And>r w'. Q5 r (w', IBrokers r # h)) \<Longrightarrow> wp (io_ReconcileBrokers (infra_logged ops) a) Q5 (w, h)"
    and "(\<And>r w'. Q6 r (w', ISynced rs bs tls r # h)) \<Longrightarrow> wp (io_SyncAll (infra_logged ops) a rs bs tls) Q6 (w, h)"
    and "(\<And>e w'. Q7 e (w', IClientDeleted a e # h)) \<Longrightarrow> wp (io_DeleteClient (infra_logged ops) a) Q7 (w, h)"
  using assms by (auto simp: infra_logged_def infra_ops_total_def intro!: wp_logged)

lemma infra_logged_now [simp]: "io_now (infra_logged ops) (w, h) = io_now ops w"
  by (simp add: infra_logged_def)

fun is_infra_update :: "infra_event \<Rightarrow> bool" where
  "is_infra_update (IUpdated i err) = True"
| "is_infra_update ev = False"

fun deletes_client :: "infra_event \<Rightarrow> bool" where
  "deletes_client (IClientDeleted i err) = True"
| "deletes_client ev = False"

text \<open>What must not be done lightly: writing the infrastructure, and deleting its client.\<close>

definition touches :: "infra_event \<Rightarrow> bool" where
  "touches ev \<longleftrightarrow> is_infra_update ev \<or> deletes_client ev"

lemma touches_simps [simp]:
  "touches (IUpdated i err)" "touches (IClientDeleted i err)" "\<not> touches (IGot k g)" "\<not> touches (IListedProjects l)" "\<not> touches (IStatusUpdated i err)"
  "\<not> touches (ICa ca)" "\<not> touches (ICert n cert)" "\<not> touches (IRouters hs)" "\<not> touches (IBrokers hs)" "\<not> touches (ISynced rs bs tls res)"
  by (simp_all add: touches_def)

abbreviation infra_updates :: "infra_event list \<Rightarrow> bool" where
  "infra_updates h \<equiv> list_ex is_infra_update h"

abbreviation infra_staged ::
  "'w infra_ops \<Rightarrow> ('w \<times> infra_event list, infra_run) step \<Rightarrow> infra_run \<Rightarrow> 'w \<times> infra_event list
    \<Rightarrow> (infra_run \<Rightarrow> infra_event list \<Rightarrow> bool) \<Rightarrow> bool" where
  "infra_staged ops \<equiv> staged touches (infra_Status_Update (infra_logged ops))"

section \<open>Steps\<close>

text \<open>What has been done in a run, step by step.\<close>

definition infra_run_of :: "NamespacedName \<Rightarrow> MessagingInfrastructure \<Rightarrow> infra_run \<Rightarrow> infra_event list \<Rightarrow> bool" where
  "infra_run_of req i r h \<longleftrightarrow> IGot req (Inr i) \<in> set h \<and>
     mi_Name (ir_infra r) = mi_Name i \<and> mi_Namespace (ir_infra r) = mi_Namespace i"

definition with_ca :: "NamespacedName \<Rightarrow> MessagingInfrastructure \<Rightarrow> infra_run \<Rightarrow> infra_event list \<Rightarrow> bool" where
  "with_ca req i r h \<longleftrightarrow> infra_run_of req i r h \<and> ICa (Inr (ir_infraCa r)) \<in> set h"

definition with_cert :: "NamespacedName \<Rightarrow> MessagingInfrastructure \<Rightarrow> infra_run \<Rightarrow> infra_event list \<Rightarrow> bool" where
  "with_cert req i r h \<longleftrightarrow> with_ca req i r h \<and> ICert (''enmasse-operator-'' @ mi_Name i) (Inr (ir_controllerCert r)) \<in> set h"

definition with_routers :: "NamespacedName \<Rightarrow> MessagingInfrastructure \<Rightarrow> infra_run \<Rightarrow> infra_event list \<Rightarrow> bool" where
  "with_routers req i r h \<longleftrightarrow> with_cert req i r h \<and> IRouters (Inr (ir_routerHosts r)) \<in> set h \<and>
     ir_runningRouters r = running (ir_routerHosts r) \<and> ist_Routers (mi_Status (ir_infra r)) = map Hostname (ir_runningRouters r)"

definition with_brokers :: "NamespacedName \<Rightarrow> MessagingInfrastructure \<Rightarrow> infra_run \<Rightarrow> infra_event list \<Rightarrow> bool" where
  "with_brokers req i r h \<longleftrightarrow> with_routers req i r h \<and> IBrokers (Inr (ir_brokerHosts r)) \<in> set h \<and>
     ir_runningBrokers r = running (ir_brokerHosts r) \<and> ist_Brokers (mi_Status (ir_infra r)) = map Hostname (ir_runningBrokers r)"

definition with_sync :: "NamespacedName \<Rightarrow> MessagingInfrastructure \<Rightarrow> infra_run \<Rightarrow> infra_event list \<Rightarrow> bool" where
  "with_sync req i r h \<longleftrightarrow> with_brokers req i r h \<and>
     ISynced (ir_runningRouters r) (ir_runningBrokers r) (run_tls r) (Inr (ir_connectorStatuses r)) \<in> set h"

definition with_pods :: "NamespacedName \<Rightarrow> MessagingInfrastructure \<Rightarrow> infra_run \<Rightarrow> infra_event list \<Rightarrow> bool" where
  "with_pods req i r h \<longleftrightarrow> with_sync req i r h \<and> ir_runningRouters r = ir_routerHosts r \<and> ir_runningBrokers r = ir_brokerHosts r"

definition connectors_up :: "infra_run \<Rightarrow> bool" where
  "connectors_up r \<longleftrightarrow> length (ir_connectorStatuses r) = length (ir_runningRouters r) * length (ir_runningBrokers r) \<and>
     list_all cst_Connected (ir_connectorStatuses r)"

lemmas with_defs = infra_run_of_def with_ca_def with_cert_def with_routers_def with_brokers_def with_sync_def run_tls_def

lemma running_all: "\<not> length (running hosts) < length hosts \<Longrightarrow> running hosts = hosts"
  by (metis (no_types, lifting) filter_id_conv length_filter_less running_def)

lemma stage_ca:
  assumes "infra_ops_total ops" and "\<not> list_ex touches h" and "infra_run_of req i r h"
  shows "infra_staged ops (reconcile_ca (infra_logged ops)) r (w, h) (with_ca req i)"
  using assms unfolding staged_def reconcile_ca_def infra_failed_def infra_succeeded_def
  by (auto simp: with_defs infra_Status_Update_def wp_rules split: sum.splits prod.splits intro!: infra_calls [OF assms(1)])

lemma stage_cert:
  assumes "infra_ops_total ops" and "\<not> list_ex touches h" and "with_ca req i r h"
  shows "infra_staged ops (reconcile_cert (infra_logged ops)) r (w, h) (with_cert req i)"
  using assms unfolding staged_def reconcile_cert_def infra_failed_def infra_succeeded_def
  by (auto simp: with_defs infra_Status_Update_def wp_rules split: sum.splits prod.splits intro!: infra_calls [OF assms(1)])

lemma stage_routers:
  assumes "infra_ops_total ops" and "\<not> list_ex touches h" and "with_cert req i r h"
  shows "infra_staged ops (reconcile_routers (infra_logged ops)) r (w, h) (with_routers req i)"
  using assms unfolding staged_def reconcile_routers_def infra_failed_def infra_succeeded_def pods_created_def Let_def
  by (auto simp: with_defs infra_Status_Update_def wp_rules split: sum.splits prod.splits intro!: infra_calls [OF assms(1)])

lemma stage_brokers:
  assumes "infra_ops_total ops" and "\<not> list_ex touches h" and "with_routers req i r h"
  shows "infra_staged ops (reconcile_brokers (infra_logged ops)) r (w, h) (with_brokers req i)"
  using assms unfolding staged_def reconcile_brokers_def infra_failed_def infra_succeeded_def pods_created_def Let_def
  by (auto simp: with_defs infra_Status_Update_def wp_rules split: sum.splits prod.splits intro!: infra_calls [OF assms(1)])

lemma stage_sync_infra:
  assumes "infra_ops_total ops" and "\<not> list_ex touches h" and "with_brokers req i r h"
  shows "infra_staged ops (sync_infra (infra_logged ops)) r (w, h) (with_sync req i)"
  using assms unfolding staged_def sync_infra_def infra_succeeded_def
  by (auto simp: with_defs infra_Status_Update_def wp_rules split: sum.splits prod.splits intro!: infra_calls [OF assms(1)])

lemma stage_pods:
  assumes "infra_ops_total ops" and "\<not> list_ex touches h" and "with_sync req i r h"
  shows "infra_staged ops await_pods r (w, h) (with_pods req i)"
  using assms running_all unfolding staged_def await_pods_def
  by (auto simp: with_pods_def with_sync_def with_brokers_def with_routers_def infra_Status_Update_def wp_rules intro!: infra_calls [OF assms(1)])

lemma stage_connected:
  assumes "infra_ops_total ops" and "\<not> list_ex touches h" and "with_pods req i r h"
  shows "infra_staged ops (check_connected (infra_logged ops)) r (w, h) (\<lambda>r' h'. with_pods req i r' h' \<and> connectors_up r')"
  using assms unfolding staged_def check_connected_def not_connected_def infra_succeeded_def Let_def
  by (auto simp: with_pods_def with_defs connectors_up_def list_all_iff find_None_iff infra_Status_Update_def wp_rules
      split: option.splits prod.splits intro!: infra_calls [OF assms(1)])

text \<open>What holds of an infrastructure when it becomes active.\<close>

definition infra_active :: "NamespacedName \<Rightarrow> MessagingInfrastructure \<Rightarrow> infra_event list \<Rightarrow> bool" where
  "infra_active req i h \<longleftrightarrow> (\<exists>r h1. h = IStatusUpdated (ir_infra r) None # h1 \<and> with_pods req i r h1 \<and> connectors_up r \<and>
     ist_Phase (mi_Status (ir_infra r)) = InfrastructureActive \<and> ist_Message (mi_Status (ir_infra r)) = '''')"

lemma complete_infra_step:
  assumes "infra_ops_total ops" and "\<not> list_ex touches h" and "with_pods req i r h \<and> connectors_up r"
  shows "wp (Process (infra_Status_Update (infra_logged ops)) (complete_infra (infra_logged ops)) r)
    (\<lambda>((res, err), r') (w', h'). \<not> list_ex touches h' \<and> res = processed \<and> (err = None \<longrightarrow> infra_active req i h')) (w, h)"
proof -
  have "infra_active req i (IStatusUpdated (infra_SetStatus t p ConditionTrue ''''
          (set_infra_message '''' (set_infra_phase InfrastructureActive (ir_infra r)))) None # h)" for t p
    unfolding infra_active_def using assms(3)
    by (intro exI [of _ "r\<lparr>ir_infra := infra_SetStatus t p ConditionTrue ''''
          (set_infra_message '''' (set_infra_phase InfrastructureActive (ir_infra r)))\<rparr>"] exI [of _ h])
      (auto simp: with_pods_def with_defs connectors_up_def)
  then show ?thesis using assms(2) unfolding complete_infra_def
    by (auto simp: infra_Status_Update_def wp_rules split: prod.splits intro!: infra_calls [OF assms(1)])
qed

section \<open>Finalizing\<close>

text \<open>No project of the list refers to the infrastructure, and its client has been deleted.\<close>

fun lists_no_users :: "MessagingInfrastructure \<Rightarrow> infra_event \<Rightarrow> bool" where
  "lists_no_users i (IListedProjects (Inr projects)) \<longleftrightarrow> \<not> list_ex (refers_to i) projects"
| "lists_no_users i ev \<longleftrightarrow> False"

definition infra_released :: "MessagingInfrastructure \<Rightarrow> infra_event list \<Rightarrow> bool" where
  "infra_released i h \<longleftrightarrow> (\<exists>h1. h = IClientDeleted i None # h1 \<and> list_ex (lists_no_users i) h1)"

text \<open>The client is deleted only when no project refers to the infrastructure.\<close>

definition client_kept :: "MessagingInfrastructure \<Rightarrow> infra_event list \<Rightarrow> bool" where
  "client_kept i h \<longleftrightarrow> list_ex deletes_client h \<longrightarrow> list_ex (lists_no_users i) h"

lemma find_None_ex: "List.find P xs = None \<longleftrightarrow> \<not> list_ex P xs"
  by (auto simp: find_None_iff list_ex_iff)

lemma untouched: "\<not> list_ex touches h \<Longrightarrow> \<not> infra_updates h \<and> \<not> list_ex deletes_client h"
  by (auto simp: list_ex_iff touches_def)

lemma deconstruct_infra_step:
  assumes "infra_ops_total ops" and "\<not> infra_updates h" and "client_kept i h"
  shows "wp (deconstruct_infra (infra_logged ops) i)
    (\<lambda>((res, err), i') (w', h'). \<not> infra_updates h' \<and> (\<forall>e \<in> set h. e \<in> set h') \<and> i' = i \<and> res = Result0 \<and> client_kept i h' \<and>
       (err = None \<longrightarrow> infra_released i h')) (w, h)"
  using assms unfolding deconstruct_infra_def
  by (auto simp: wp_rules infra_released_def client_kept_def find_None_ex
      split: sum.splits prod.splits option.splits if_splits intro!: infra_calls [OF assms(1)])

text \<open>An update of the infrastructure by the first step: it adds the finalizer, or it releases it.\<close>

definition lawful_infra_update :: "MessagingInfrastructure \<Rightarrow> MessagingInfrastructure \<Rightarrow> infra_event list \<Rightarrow> bool" where
  "lawful_infra_update i j h \<longleftrightarrow>
     mi_DeletionTimestamp i = None \<and> FINALIZER_NAME \<notin> set (mi_Finalizers i) \<and> j = i\<lparr>mi_Finalizers := mi_Finalizers i @ [FINALIZER_NAME]\<rparr> \<or>
     mi_DeletionTimestamp i \<noteq> None \<and> ist_Phase (mi_Status i) = Terminating \<and>
     j = i\<lparr>mi_Finalizers := filter (\<lambda>x. x \<noteq> FINALIZER_NAME) (mi_Finalizers i)\<rparr> \<and> infra_released i h"

abbreviation infra_updated_last :: "MessagingInfrastructure \<Rightarrow> error option \<Rightarrow> infra_event list \<Rightarrow> infra_event list \<Rightarrow> bool" where
  "infra_updated_last i err h h' \<equiv> \<exists>j h1. (\<forall>ev \<in> set h. ev \<in> set h1) \<and> lawful_infra_update i j h1 \<and> \<not> infra_updates h1 \<and> h' = IUpdated j err # h1"

lemma reconcileFinalizers_step:
  assumes "infra_ops_total ops" and "\<not> list_ex touches h"
  shows "wp (reconcileFinalizers (infra_logged ops) i)
    (\<lambda>((res, err), i') (w', h'). (infra_updates h' \<longrightarrow> infra_updated_last i err h h') \<and> client_kept i h' \<and> (\<forall>ev \<in> set h. ev \<in> set h') \<and>
      (err = None \<longrightarrow> pr_Return res \<longrightarrow> infra_updates h') \<and> pr_RequeueAfter res = 0 \<and> (\<not> ShouldReturn res err \<longrightarrow> i' = i \<and> h' = h)) (w, h)"
  unfolding reconcileFinalizers_def
proof (rule finalize_resource_rule [OF infra_resource_lawful _ _ _ _ refl refl], goal_cases)
  case 1
  then show ?case using assms untouched [OF assms(2)]
    by (auto simp: infra_resource_def wp_rules client_kept_def intro!: infra_calls)
next
  case 2
  then show ?case using untouched [OF assms(2)] by (auto simp: wp_rules client_kept_def)
next
  case 3
  then show ?case using assms untouched [OF assms(2)]
    by (auto simp: infra_resource_def infra_accessors_def wp_rules lawful_infra_update_def client_kept_def intro!: infra_calls)
next
  case 4
  have "\<not> infra_updates h" "client_kept i h" using untouched [OF assms(2)] by (simp_all add: client_kept_def)
  note d = deconstruct_infra_step [OF assms(1) this, of w]
  show ?case
    by (rule wp_mono [OF d]) (use 4 assms in \<open>auto simp: infra_resource_def infra_accessors_def wp_rules
      lawful_infra_update_def client_kept_def split: option.splits intro!: infra_calls\<close>)
qed

section \<open>Whole runs\<close>

definition infra_post :: "NamespacedName \<Rightarrow> reconcile_Result \<times> error option \<Rightarrow> 'w \<times> infra_event list \<Rightarrow> bool" where
  "infra_post req = (\<lambda>(res, err) (w', h).
      (list_ex touches h \<longrightarrow> (\<exists>found. IGot req (Inr found) \<in> set h \<and> client_kept found h \<and>
         (infra_updates h \<longrightarrow> infra_updated_last found err [IGot req (Inr found)] h))) \<and>
      (err = None \<longrightarrow> (res = Result0 \<longrightarrow> infra_updates h \<or> (\<exists>e. IGot req (Inl e) \<in> set h \<and> k8errors_IsNotFound e)) \<and>
         (res = recheck \<longrightarrow> (\<exists>found. infra_active req found h))))"

lemma infra_post_again:
  assumes "\<not> list_ex touches h" and "err = None \<longrightarrow> soon res"
  shows "infra_post req (processorResult_Result res, err) (w, h)"
  using assms untouched [OF assms(1)] by (auto simp: infra_post_def processorResult_Result_def Result0_def recheck_def soon_def)

lemmas infra_then = staged_then [where up = touches and Post = "infra_post req" for req, OF _ infra_post_again]

lemma infra_steps:
  assumes total: "infra_ops_total ops" and h: "\<not> list_ex touches h" and r: "infra_run_of req i r h"
    and U: "U = infra_Status_Update (infra_logged ops)" and L: "L = infra_logged ops"
  shows "wp (and_then (Process U (reconcile_ca L) r) (\<lambda>r1.
    and_then (Process U (reconcile_cert L) r1) (\<lambda>r2.
    and_then (Process U (reconcile_routers L) r2) (\<lambda>r3.
    and_then (Process U (reconcile_brokers L) r3) (\<lambda>r4.
    and_then (Process U (sync_infra L) r4) (\<lambda>r5.
    and_then (Process U await_pods r5) (\<lambda>r6.
    and_then (Process U (check_connected L) r6) (\<lambda>r7.
    and_then (Process U (complete_infra L) r7) (\<lambda>r8.
    ret (recheck, None)))))))))) (infra_post req) (w, h)"
  unfolding U L
proof (rule infra_then [OF stage_ca [OF total h r]], assumption, assumption,
    rule infra_then [OF stage_cert [OF total]], assumption, assumption, assumption, assumption,
    rule infra_then [OF stage_routers [OF total]], assumption, assumption, assumption, assumption,
    rule infra_then [OF stage_brokers [OF total]], assumption, assumption, assumption, assumption,
    rule infra_then [OF stage_sync_infra [OF total]], assumption, assumption, assumption, assumption,
    rule infra_then [OF stage_pods [OF total]], assumption, assumption, assumption, assumption,
    rule infra_then [OF stage_connected [OF total]], assumption, assumption, assumption, assumption)
  fix r7 w7 h7
  assume r7: "with_pods req i r7 h7 \<and> connectors_up r7" and h7: "\<not> list_ex touches h7"
  show "wp (and_then (Process (infra_Status_Update (infra_logged ops)) (complete_infra (infra_logged ops)) r7) (\<lambda>r8. ret (recheck, None)))
      (infra_post req) (w7, h7)"
    unfolding wp_and_then
    by (intro wp_mono [OF complete_infra_step [OF total h7 r7]])
      (auto simp: infra_post_def wp_rules recheck_def Result0_def processorResult_Result_def split: if_splits)
qed

lemma infra_run_ok:
  assumes total: "infra_ops_total ops"
  shows "wp (infra_Reconcile (infra_logged ops) grow cap req) (infra_post req) (w, [])"
proof -
  let ?U = "infra_Status_Update (infra_logged ops)" and ?L = "infra_logged ops"
  have "wp (and_then (reconcileFinalizers ?L i) (\<lambda>found1. bindp (infra_now ?L) (\<lambda>t.
      and_then (Process ?U (reconcile_ca ?L) (initialize_infra grow cap t found1)) (\<lambda>r1.
      and_then (Process ?U (reconcile_cert ?L) r1) (\<lambda>r2.
      and_then (Process ?U (reconcile_routers ?L) r2) (\<lambda>r3.
      and_then (Process ?U (reconcile_brokers ?L) r3) (\<lambda>r4.
      and_then (Process ?U (sync_infra ?L) r4) (\<lambda>r5.
      and_then (Process ?U await_pods r5) (\<lambda>r6.
      and_then (Process ?U (check_connected ?L) r6) (\<lambda>r7.
      and_then (Process ?U (complete_infra ?L) r7) (\<lambda>r8. ret (recheck, None)))))))))))) (infra_post req) (w1, [IGot req (Inr i)])" for i w1
    unfolding wp_and_then [of "reconcileFinalizers _ _"]
  proof (rule wp_mono [OF reconcileFinalizers_step [OF total]], simp, clarify, goal_cases)
    case (1 res err i1 w2 h2)
    show ?case
    proof (cases "ShouldReturn res err")
      case True
      have "err = None \<longrightarrow> \<not> infra_updates h2 \<longrightarrow> pr_Requeue res"
        using 1 True by (auto simp: ShouldReturn_def)
      then show ?thesis using True 1 by (auto simp: infra_post_def processorResult_Result_def Result0_def recheck_def)
    next
      case False
      have "infra_run_of req i (initialize_infra grow cap t i) [IGot req (Inr i)]" for t
        by (simp add: infra_run_of_def initialize_infra_def Let_def split: prod.split)
      then show ?thesis using False 1 infra_steps [OF total _ _ refl refl, of "[IGot req (Inr i)]" req i] by (simp add: wp_rules)
    qed
  qed
  then show ?thesis
    by (auto simp: infra_Reconcile_def wp_rules Let_def infra_post_def recheck_def Result0_def split: sum.split intro!: infra_calls [OF total])
qed

section \<open>Properties\<close>

text \<open>C11 (functional): a run of the infrastructure controller asks to be run again after 30 seconds only when the infrastructure
  has become active. Then the certificate authority and the certificate of the operator are in place, every router
  and broker pod runs and is listed in the status, the infrastructure client has configured exactly these
  with that certificate and authority, and there is one connector for every pair of a router and a broker and all
  of them are connected. And a run that asks for nothing has found no infrastructure, or has changed its finalizers.\<close>

theorem infra_done:
  assumes "infra_ops_total ops"
    and "infra_Reconcile (infra_logged ops) grow cap req (w, []) = Some ((res, None), w', h)"
  shows "(res = recheck \<longrightarrow> (\<exists>found b ca cert routers brokers sts h1. h = IStatusUpdated b None # h1 \<and> IGot req (Inr found) \<in> set h1 \<and>
      mi_Name b = mi_Name found \<and> mi_Namespace b = mi_Namespace found \<and> ist_Phase (mi_Status b) = InfrastructureActive \<and>
      ICa (Inr ca) \<in> set h1 \<and> ICert (''enmasse-operator-'' @ mi_Name found) (Inr cert) \<in> set h1 \<and>
      IRouters (Inr routers) \<in> set h1 \<and> IBrokers (Inr brokers) \<in> set h1 \<and> running routers = routers \<and> running brokers = brokers \<and>
      ist_Routers (mi_Status b) = map Hostname routers \<and> ist_Brokers (mi_Status b) = map Hostname brokers \<and>
      ISynced routers brokers \<lparr> Certificates = cert, RootCAs = ca, ServerName = '''' \<rparr> (Inr sts) \<in> set h1 \<and>
      length sts = length routers * length brokers \<and> list_all cst_Connected sts)) \<and>
    (res = Result0 \<longrightarrow> (\<exists>e. IGot req (Inl e) \<in> set h \<and> k8errors_IsNotFound e) \<or> (\<exists>j h1. h = IUpdated j None # h1))"
proof -
  have post: "infra_post req (res, None) (w', h)"
    using wp_run [OF infra_run_ok [OF assms(1)] assms(2)] .
  have "infra_updates h \<Longrightarrow> list_ex touches h" by (auto simp: list_ex_iff touches_def)
  with post have "res = Result0 \<longrightarrow> (\<exists>e. IGot req (Inl e) \<in> set h \<and> k8errors_IsNotFound e) \<or> (\<exists>j h1. h = IUpdated j None # h1)"
    by (fastforce simp: infra_post_def)
  moreover have "\<exists>found b ca cert routers brokers sts h1. h = IStatusUpdated b None # h1 \<and> IGot req (Inr found) \<in> set h1 \<and>
      mi_Name b = mi_Name found \<and> mi_Namespace b = mi_Namespace found \<and> ist_Phase (mi_Status b) = InfrastructureActive \<and>
      ICa (Inr ca) \<in> set h1 \<and> ICert (''enmasse-operator-'' @ mi_Name found) (Inr cert) \<in> set h1 \<and>
      IRouters (Inr routers) \<in> set h1 \<and> IBrokers (Inr brokers) \<in> set h1 \<and> running routers = routers \<and> running brokers = brokers \<and>
      ist_Routers (mi_Status b) = map Hostname routers \<and> ist_Brokers (mi_Status b) = map Hostname brokers \<and>
      ISynced routers brokers \<lparr> Certificates = cert, RootCAs = ca, ServerName = '''' \<rparr> (Inr sts) \<in> set h1 \<and>
      length sts = length routers * length brokers \<and> list_all cst_Connected sts" if act: "infra_active req found h" for found
  proof -
    obtain r h1 where h: "h = IStatusUpdated (ir_infra r) None # h1" and r: "with_pods req found r h1" "connectors_up r"
      and phase: "ist_Phase (mi_Status (ir_infra r)) = InfrastructureActive"
      using act unfolding infra_active_def by (elim exE conjE) (rule that)
    show ?thesis
      by (rule exI [of _ found], rule exI [of _ "ir_infra r"], rule exI [of _ "ir_infraCa r"], rule exI [of _ "ir_controllerCert r"],
          rule exI [of _ "ir_routerHosts r"], rule exI [of _ "ir_brokerHosts r"], rule exI [of _ "ir_connectorStatuses r"], rule exI [of _ h1])
        (use h r phase in \<open>auto simp: with_pods_def with_defs connectors_up_def\<close>)
  qed
  ultimately show ?thesis using post unfolding infra_post_def by blast
qed

text \<open>C12 (safety): a run of the infrastructure controller never panics. It deletes the client of the infrastructure only
  after it has listed the projects and none refers to the infrastructure. It writes the infrastructure itself at
  most once, as the last thing it does, and only changes the list of finalizers: it adds its own when the infrastructure is not
  deleted, or removes it from a terminating one right after its client was deleted.\<close>

theorem infra_client_deleted:
  assumes "infra_ops_total ops"
  shows "\<exists>res err w' h. infra_Reconcile (infra_logged ops) grow cap req (w, []) = Some ((res, err), w', h) \<and>
    (list_ex deletes_client h \<longrightarrow> (\<exists>found. IGot req (Inr found) \<in> set h \<and> list_ex (lists_no_users found) h)) \<and>
    (infra_updates h \<longrightarrow> (\<exists>found j h1. h = IUpdated j err # h1 \<and> IGot req (Inr found) \<in> set h1 \<and> \<not> infra_updates h1 \<and> lawful_infra_update found j h1))"
proof -
  obtain res err w' h where run: "infra_Reconcile (infra_logged ops) grow cap req (w, []) = Some ((res, err), w', h)"
    and post: "infra_post req (res, err) (w', h)"
    using infra_run_ok [OF assms, of grow cap req w] by (auto simp: wp_def)
  have "list_ex deletes_client h \<or> infra_updates h \<Longrightarrow> list_ex touches h" by (auto simp: list_ex_iff touches_def)
  with post have "list_ex deletes_client h \<or> infra_updates h \<Longrightarrow> \<exists>found. IGot req (Inr found) \<in> set h \<and> client_kept found h \<and>
       (infra_updates h \<longrightarrow> infra_updated_last found err [IGot req (Inr found)] h)"
    unfolding infra_post_def by blast
  then show ?thesis using run by (fastforce simp: client_kept_def)
qed

end
