(* ===== verification/Infra_Control_Fake.thy ===== *)
theory Infra_Control_Fake
  imports Infra_Control_Runs
begin

text \<open>Concrete runs of the infrastructure controller: instances of the general statements.\<close>

definition pod :: "string \<Rightarrow> Host" where
  "pod name = \<lparr> Hostname = name, Ip = ''10.0.0.1'' \<rparr>"

definition up_status :: ConnectorStatus where
  "up_status = \<lparr> cst_Router = ''r'', cst_Broker = ''b'', cst_Connected = True, cst_Message = '''' \<rparr>"

definition infra_api :: "MessagingInfrastructure \<Rightarrow> unit infra_ops" where
  "infra_api i =
     \<lparr> io_now = (\<lambda>w. 7), io_reader_Get = (\<lambda>k. ret (Inr i)), io_List_projects = ret (Inr []),
       io_Status_Update = (\<lambda>j. ret (None, j)), io_Update = (\<lambda>j. ret (None, j)),
       io_ReconcileCa = (\<lambda>j. ret (Inr ''ca'')), io_ReconcileCert = (\<lambda>j n. ret (Inr ''cert'')),
       io_ReconcileRouters = (\<lambda>j. ret (Inr [pod ''r''])), io_ReconcileBrokers = (\<lambda>j. ret (Inr [pod ''b''])),
       io_SyncAll = (\<lambda>j rs bs tls. ret (Inr [up_status])), io_DeleteClient = (\<lambda>j. ret None) \<rparr>"

lemma infra_api_total: "infra_ops_total (infra_api i)"
  by (simp add: infra_ops_total_def infra_api_def total_def)

definition sample_infra :: "time option \<Rightarrow> string \<Rightarrow> MessagingInfrastructure" where
  "sample_infra deletion phase = \<lparr> mi_Name = ''i'', mi_Namespace = ''n'', mi_DeletionTimestamp = deletion, mi_Finalizers = [FINALIZER_NAME],
     mi_NamespaceSelector = None,
     mi_Status = \<lparr> ist_Phase = phase, ist_Message = '''', ist_Conditions = [], ist_Routers = [], ist_Brokers = [] \<rparr> \<rparr>"

definition i_request :: NamespacedName where
  "i_request = \<lparr> nn_Namespace = ''n'', nn_Name = ''i'' \<rparr>"

lemmas infra_run_defs = infra_Reconcile_def reconcileFinalizers_def finalize_resource_def infra_resource_def infra_accessors_def
  ProcessFinalizers_def deconstruct_def deconstruct_infra_def reconcile_ca_def reconcile_cert_def infra_failed_def infra_succeeded_def
  reconcile_routers_def reconcile_brokers_def running_def pods_created_def sync_infra_def await_pods_def check_connected_def complete_infra_def
  infra_now_def infra_Status_Update_def Process_def and_then_def and_return_def infra_logged_def logged_def
  infra_api_def sample_infra_def pod_def up_status_def bindp_def Let_def result_defs ShouldReturn_def processorResult_Result_def i_request_def

theorem infra_done_witness:
  "\<exists>w' b h1. infra_Reconcile (infra_logged (infra_api (sample_infra None ''''))) Suc 0 i_request ((), [])
     = Some ((recheck, None), w', IStatusUpdated b None # h1) \<and> ist_Phase (mi_Status b) = InfrastructureActive \<and>
       (\<exists>sts. ISynced [pod ''r''] [pod ''b''] \<lparr> Certificates = ''cert'', RootCAs = ''ca'', ServerName = '''' \<rparr> (Inr sts) \<in> set h1 \<and> list_all cst_Connected sts)"
proof -
  let ?run = "infra_Reconcile (infra_logged (infra_api (sample_infra None ''''))) Suc 0 i_request ((), [])"
  have "\<exists>b h. ?run = Some ((recheck, None), (), IStatusUpdated b None # h) \<and>
     (\<forall>rs. IRouters (Inr rs) \<in> set h \<longrightarrow> rs = [pod ''r'']) \<and> (\<forall>bs. IBrokers (Inr bs) \<in> set h \<longrightarrow> bs = [pod ''b'']) \<and>
     (\<forall>c. ICa (Inr c) \<in> set h \<longrightarrow> c = ''ca'') \<and> (\<forall>n c. ICert n (Inr c) \<in> set h \<longrightarrow> c = ''cert'')"
    by (simp add: infra_run_defs FINALIZER_NAME_def)
  then obtain b h where run: "?run = Some ((recheck, None), (), IStatusUpdated b None # h)"
    and got: "\<forall>rs. IRouters (Inr rs) \<in> set h \<longrightarrow> rs = [pod ''r'']" "\<forall>bs. IBrokers (Inr bs) \<in> set h \<longrightarrow> bs = [pod ''b'']"
      "\<forall>c. ICa (Inr c) \<in> set h \<longrightarrow> c = ''ca''" "\<forall>n c. ICert n (Inr c) \<in> set h \<longrightarrow> c = ''cert''"
    by (elim exE conjE) (rule that)
  from infra_done [OF infra_api_total run] got
  have "ist_Phase (mi_Status b) = InfrastructureActive \<and>
      (\<exists>sts. ISynced [pod ''r''] [pod ''b''] \<lparr> Certificates = ''cert'', RootCAs = ''ca'', ServerName = '''' \<rparr> (Inr sts) \<in> set h \<and> list_all cst_Connected sts)"
    by auto
  with run show ?thesis by blast
qed

theorem infra_client_deleted_witness:
  "\<exists>j w' h1. infra_Reconcile (infra_logged (infra_api (sample_infra (Some 1) Terminating))) Suc 0 i_request ((), [])
     = Some ((Result0, None), w', IUpdated j None # h1) \<and>
     lawful_infra_update (sample_infra (Some 1) Terminating) j h1 \<and> list_ex deletes_client h1"
proof -
  let ?i = "sample_infra (Some 1) Terminating"
  let ?run = "infra_Reconcile (infra_logged (infra_api ?i)) Suc 0 i_request ((), [])"
  have "\<exists>j h. ?run = Some ((Result0, None), (), IUpdated j None # h) \<and> list_ex deletes_client h \<and>
      (\<forall>f. IGot i_request (Inr f) \<in> set h \<longrightarrow> f = ?i)"
    by (simp add: infra_run_defs FINALIZER_NAME_def Terminating_def)
  then obtain j h where run: "?run = Some ((Result0, None), (), IUpdated j None # h)" and del: "list_ex deletes_client h"
    and got: "\<forall>f. IGot i_request (Inr f) \<in> set h \<longrightarrow> f = ?i" by (elim exE conjE) (rule that)
  have "infra_updates (IUpdated j None # h)" by simp
  with infra_client_deleted [OF infra_api_total, of ?i Suc 0 i_request "()"] run got
  have "lawful_infra_update ?i j h" by auto
  with run del show ?thesis by blast
qed

end
