(* ===== verification/Endpoint_Objects.thy ===== *)
theory Endpoint_Objects
  imports Reconcile
begin

text \<open>
  The Kubernetes objects that the endpoint controller (\<open>pkg/controller/messagingendpoint\<close>) keeps for an
  endpoint: its service, and a route or an ingress. Each is brought up to date by a function
  that the code hands to \<open>controllerutil.CreateOrUpdate\<close>. Of the objects the fields that the
  controller sets or reads are kept.
\<close>

section \<open>Names\<close>

definition protocolToPortName :: "MessagingEndpointProtocol \<Rightarrow> string" where
  "protocolToPortName p =
     (if p = MessagingProtocolAMQP then ''amqp'' else if p = MessagingProtocolAMQPS then ''amqps''
      else if p = MessagingProtocolAMQPWS then ''amqp-ws'' else if p = MessagingProtocolAMQPWSS then ''amqp-wss'' else '''')"

definition portNameToProtocol :: "string \<Rightarrow> MessagingEndpointProtocol" where
  "portNameToProtocol n =
     (if n = ''amqp'' then MessagingProtocolAMQP else if n = ''amqps'' then MessagingProtocolAMQPS
      else if n = ''amqp-ws'' then MessagingProtocolAMQPWS else if n = ''amqp-wss'' then MessagingProtocolAMQPWSS else '''')"

definition known_protocol :: "MessagingEndpointProtocol \<Rightarrow> bool" where
  "known_protocol p \<longleftrightarrow>
     p \<in> {MessagingProtocolAMQP, MessagingProtocolAMQPS, MessagingProtocolAMQPWS, MessagingProtocolAMQPWSS}"

lemma portName_protocol: "known_protocol p \<Longrightarrow> portNameToProtocol (protocolToPortName p) = p"
  by (auto simp: known_protocol_def portNameToProtocol_def protocolToPortName_def protocol_defs)

lemma protocolToPortName_inj: "known_protocol p \<Longrightarrow> known_protocol q \<Longrightarrow> protocolToPortName p = protocolToPortName q \<longleftrightarrow> p = q"
  by (metis portName_protocol)

definition getServiceName :: "MessagingEndpoint \<Rightarrow> string" where
  "getServiceName e = me_Namespace e @ ''-'' @ me_Name e"

definition getOpenShiftCertSecret :: "string \<Rightarrow> string" where
  "getOpenShiftCertSecret serviceName = serviceName @ ''-openshift-cert''"

definition servingCertAnnotation :: string where
  "servingCertAnnotation = ''service.beta.openshift.io/serving-cert-secret-name''"

text \<open>\<open>CreateDefaultLabels\<close> of \<open>pkg/util/install/utils.go\<close>\<close>

definition CreateDefaultLabels :: "(string, string) gomap \<Rightarrow> string \<Rightarrow> string \<Rightarrow> (string, string) gomap" where
  "CreateDefaultLabels labels component name =
     gm_put ''app.kubernetes.io/part-of'' component (gm_put ''name'' name (gm_put ''app'' ''enmasse'' (gm_put ''component'' component labels)))"

definition apply_annotations :: "(string, string) gomap \<Rightarrow> (string, string) gomap \<Rightarrow> (string, string) gomap" where
  "apply_annotations new old = fold (\<lambda>(key, v). gm_put key v) new old"

section \<open>Services\<close>

record ServicePort =
  sp_Name :: string
  sp_Port :: int
  sp_Protocol :: string
  sp_TargetPort :: int
  sp_NodePort :: int

record Service =
  svc_Labels :: "(string, string) gomap"
  svc_Annotations :: "(string, string) gomap"
  svc_Type :: string
  svc_Selector :: "(string, string) gomap"
  svc_Ports :: "ServicePort list"
  svc_LoadBalancer :: "(string \<times> string) list"

definition ApplyServiceDefaults :: "string \<Rightarrow> string \<Rightarrow> Service \<Rightarrow> Service" where
  "ApplyServiceDefaults component name s =
     s\<lparr>svc_Labels := CreateDefaultLabels (svc_Labels s) component name, svc_Selector := CreateDefaultLabels [] component name\<rparr>"

definition service_port :: "MessagingEndpointPort \<Rightarrow> ServicePort option" where
  "service_port p =
     (let port = (\<lambda>n. Some \<lparr> sp_Name = protocolToPortName (ep_Protocol p), sp_Port = n, sp_Protocol = ''TCP'',
                              sp_TargetPort = ep_Port p, sp_NodePort = 0 \<rparr>)
      in if ep_Protocol p = MessagingProtocolAMQP then port 5672
         else if ep_Protocol p = MessagingProtocolAMQPS then port 5671
         else if ep_Protocol p = MessagingProtocolAMQPWS then port 80
         else if ep_Protocol p = MessagingProtocolAMQPWSS then port 433
         else None)"

fun add_service_ports :: "MessagingEndpointPort list \<Rightarrow> ServicePort list \<Rightarrow> ServicePort list" where
  "add_service_ports [] sps = sps"
| "add_service_ports (p # ps) sps =
     add_service_ports ps
       (if list_ex (\<lambda>sp. sp_Name sp = protocolToPortName (ep_Protocol p)) sps then sps
        else case service_port p of None \<Rightarrow> sps | Some sp \<Rightarrow> sps @ [sp])"

definition service_type :: "MessagingEndpointSpec \<Rightarrow> string" where
  "service_type spec =
     (if es_NodePort spec \<noteq> None then ''NodePort'' else if es_LoadBalancer spec \<noteq> None then ''LoadBalancer'' else ''ClusterIP'')"

definition mutate_service :: "MessagingInfrastructure \<Rightarrow> MessagingEndpoint \<Rightarrow> Service \<Rightarrow> Service" where
  "mutate_service infra e s0 =
     (let s = ApplyServiceDefaults ''endpoint'' (me_Name e) s0; spec = me_Spec e;
          annotations = apply_annotations (es_Annotations spec) (svc_Annotations s)
      in s\<lparr>svc_Type := service_type spec,
           svc_Annotations :=
             (case es_Tls spec of
                Some tls \<Rightarrow>
                  if tls_Openshift tls \<noteq> None
                  then gm_put servingCertAnnotation (getOpenShiftCertSecret (getServiceName e)) annotations else annotations
              | None \<Rightarrow> annotations),
           svc_Selector := [(''infra'', mi_Name infra), (''component'', ''router'')],
           svc_Ports := add_service_ports (est_InternalPorts (me_Status e)) (svc_Ports s)\<rparr>)"

text \<open>The first host name or address of a load balancer.\<close>

fun load_balancer_host :: "(string \<times> string) list \<Rightarrow> string" where
  "load_balancer_host [] = ''''"
| "load_balancer_host ((hostname, ip) # rest) =
     (if hostname \<noteq> '''' then hostname else if ip \<noteq> '''' then ip else load_balancer_host rest)"

section \<open>Routes and ingresses\<close>

definition TLSTerminationPassthrough :: string where "TLSTerminationPassthrough = ''passthrough''"
definition TLSTerminationReencrypt :: string where "TLSTerminationReencrypt = ''reencrypt''"

record RouteTls =
  rt_Termination :: string
  rt_DestinationCACertificate :: string

record Route =
  ro_Labels :: "(string, string) gomap"
  ro_Annotations :: "(string, string) gomap"
  ro_Host :: string
  ro_To :: string
  ro_TLS :: "RouteTls option"
  ro_TargetPort :: "string option"

definition with_termination :: "string \<Rightarrow> RouteTls option \<Rightarrow> RouteTls option" where
  "with_termination termination tls =
     (case tls of Some t \<Rightarrow> Some t | None \<Rightarrow> Some \<lparr> rt_Termination = termination, rt_DestinationCACertificate = '''' \<rparr>)"

definition route_tls :: "MessagingEndpointSpec \<Rightarrow> MessagingEndpointProtocol \<Rightarrow> RouteTls option \<Rightarrow> error + RouteTls option" where
  "route_tls spec protocol tls =
     (if es_Tls spec \<noteq> None
      then let termination = (case es_Route spec of Some (Some t) \<Rightarrow> t | _ \<Rightarrow> TLSTerminationPassthrough)
           in if protocol = MessagingProtocolAMQPS \<and> termination \<noteq> TLSTerminationPassthrough
              then Inl (Errorf ''route endpoints require passthrough termination for AMQPS protocol'')
              else Inr (with_termination termination tls)
      else Inr (if protocol = MessagingProtocolAMQPWSS then with_termination TLSTerminationEdge tls else tls))"

definition mutate_route :: "MessagingEndpoint \<Rightarrow> MessagingEndpointProtocol \<Rightarrow> Route \<Rightarrow> error + Route" where
  "mutate_route e protocol r =
     (case route_tls (me_Spec e) protocol (ro_TLS r) of
        Inl err \<Rightarrow> Inl err
      | Inr tls \<Rightarrow>
          Inr (r\<lparr>ro_Labels := CreateDefaultLabels (ro_Labels r) ''endpoint'' (getServiceName e),
                 ro_Annotations := apply_annotations (es_Annotations (me_Spec e)) (ro_Annotations r),
                 ro_Host := (case es_Host (me_Spec e) of Some h \<Rightarrow> h | None \<Rightarrow> ro_Host r),
                 ro_To := getServiceName e, ro_TLS := tls, ro_TargetPort := Some (protocolToPortName protocol)\<rparr>))"

record Ingress =
  in_Labels :: "(string, string) gomap"
  in_Annotations :: "(string, string) gomap"
  in_Rules :: "(string \<times> string \<times> string \<times> string) list"
  in_TLS :: "string list list"

definition mutate_ingress :: "MessagingEndpoint \<Rightarrow> string \<Rightarrow> MessagingEndpointProtocol \<Rightarrow> Ingress \<Rightarrow> Ingress" where
  "mutate_ingress e host protocol i =
     i\<lparr>in_Labels := CreateDefaultLabels (in_Labels i) ''endpoint'' (getServiceName e),
       in_Annotations := apply_annotations (es_Annotations (me_Spec e)) (in_Annotations i),
       in_Rules := [(host, ''/'', getServiceName e, protocolToPortName protocol)],
       in_TLS := (if es_Tls (me_Spec e) \<noteq> None then [[host]] else in_TLS i)\<rparr>"

section \<open>The ports of the status\<close>

text \<open>The ports of an endpoint that is served by its service. After an error the ports before it are kept.\<close>

fun service_status_ports :: "MessagingEndpointSpec \<Rightarrow> ServicePort list \<Rightarrow> MessagingEndpointPort list \<times> error option" where
  "service_status_ports spec [] = ([], None)"
| "service_status_ports spec (sp # sps) =
     (if es_NodePort spec \<noteq> None \<and> sp_NodePort sp = 0 then ([], Some (Errorf ''nodePort not yet set for service''))
      else
        let port = (if es_NodePort spec \<noteq> None then sp_NodePort sp else sp_Port sp);
            port = (if es_LoadBalancer spec \<noteq> None \<and> sp_NodePort sp \<noteq> 0 then sp_NodePort sp else port);
            (ports, err) = service_status_ports spec sps
        in (\<lparr> ep_Name = sp_Name sp, ep_Protocol = portNameToProtocol (sp_Name sp), ep_Port = port \<rparr> # ports, err))"

text \<open>The ports of an endpoint behind a route or an ingress.\<close>

definition external_status_ports :: "MessagingEndpointProtocol list \<Rightarrow> MessagingEndpointPort list" where
  "external_status_ports protocols =
     map (\<lambda>p. \<lparr> ep_Name = protocolToPortName p, ep_Protocol = p, ep_Port = (if p = MessagingProtocolAMQPWS then 80 else 443) \<rparr>) protocols"

section \<open>What the service of an endpoint offers\<close>

lemma service_port_some: "service_port p \<noteq> None \<longleftrightarrow> known_protocol (ep_Protocol p)"
  by (auto simp: service_port_def known_protocol_def Let_def)

lemma service_port_fields:
  "service_port p = Some sp \<Longrightarrow> sp_Name sp = protocolToPortName (ep_Protocol p) \<and> sp_TargetPort sp = ep_Port p"
  by (auto simp: service_port_def Let_def split: if_splits)

lemma add_service_ports_keeps: "\<exists>new. add_service_ports ps sps = sps @ new \<and>
    (\<forall>sp \<in> set new. sp_Name sp \<notin> sp_Name ` set sps \<and> (\<exists>p \<in> set ps. service_port p = Some sp)) \<and> distinct (map sp_Name new)"
proof (induction ps arbitrary: sps)
  case (Cons p ps)
  show ?case
  proof (cases "list_ex (\<lambda>sp. sp_Name sp = protocolToPortName (ep_Protocol p)) sps \<or> service_port p = None")
    case True
    then have "add_service_ports (p # ps) sps = add_service_ports ps sps" by auto
    then show ?thesis using Cons.IH [of sps] by auto
  next
    case False
    then obtain sp where sp: "service_port p = Some sp" by auto
    then have eq: "add_service_ports (p # ps) sps = add_service_ports ps (sps @ [sp])" using False by simp
    have fresh: "sp_Name sp \<notin> sp_Name ` set sps" using False service_port_fields [OF sp] by (auto simp: list_ex_iff)
    obtain new where new: "add_service_ports ps (sps @ [sp]) = (sps @ [sp]) @ new"
      "\<forall>s \<in> set new. sp_Name s \<notin> sp_Name ` set (sps @ [sp]) \<and> (\<exists>q \<in> set ps. service_port q = Some s)" "distinct (map sp_Name new)"
      using Cons.IH [of "sps @ [sp]"] by (elim exE conjE) (rule that)
    show ?thesis
      by (rule exI [of _ "sp # new"]) (use new fresh sp eq in \<open>auto simp: image_iff\<close>)
  qed
qed simp

lemma add_service_ports_covers:
  assumes "p \<in> set ps" and "known_protocol (ep_Protocol p)"
  shows "\<exists>sp \<in> set (add_service_ports ps sps). sp_Name sp = protocolToPortName (ep_Protocol p)"
  using assms
proof (induction ps arbitrary: sps)
  case (Cons q ps)
  show ?case
  proof (cases "p = q")
    case True
    let ?sps = "if list_ex (\<lambda>sp. sp_Name sp = protocolToPortName (ep_Protocol p)) sps then sps
        else case service_port p of None \<Rightarrow> sps | Some sp \<Rightarrow> sps @ [sp]"
    obtain sp0 where "service_port p = Some sp0" using Cons.prems(2) service_port_some [of p] by auto
    then have "\<exists>sp \<in> set ?sps. sp_Name sp = protocolToPortName (ep_Protocol p)"
      using service_port_fields [of p sp0] by (auto simp: list_ex_iff)
    moreover obtain new where "add_service_ports ps ?sps = ?sps @ new" using add_service_ports_keeps [of ps ?sps] by (elim exE conjE) (rule that)
    ultimately show ?thesis using True by auto
  next
    case False
    then show ?thesis using Cons by simp
  qed
qed simp

lemma service_status_ports_names:
  assumes "service_status_ports spec sps = (ports, None)"
  shows "map ep_Name ports = map sp_Name sps"
    and "map ep_Protocol ports = map (portNameToProtocol \<circ> sp_Name) sps"
  using assms by (induction sps arbitrary: ports) (auto simp: Let_def split: if_splits prod.splits)

end
