(* ===== verification/Endpoint_Controller.thy ===== *)
theory Endpoint_Controller
  imports Finalizer Endpoint_Objects
begin

text \<open>
  The controller of messaging endpoints, \<open>pkg/controller/messagingendpoint/messagingendpoint_controller.go\<close>: it
  allocates the internal ports of an endpoint, creates its service and, where asked for, a route or an ingress,
  provides its certificates, has the infrastructure client configure the listeners, and releases a
  deleted endpoint. The Kubernetes API, \<open>controllerutil.CreateOrUpdate\<close>, the infrastructure client and the
  certificate controller are parameters, the fields of \<open>endpoint_ops\<close>.
\<close>

definition MessagingEndpointConfiguring :: string where "MessagingEndpointConfiguring = ''Configuring''"

definition MessagingEndpointFoundProject :: string where "MessagingEndpointFoundProject = ''FoundProject''"
definition MessagingEndpointConfiguredTls :: string where "MessagingEndpointConfiguredTls = ''ConfiguredTLS''"
definition MessagingEndpointAllocatedPorts :: string where "MessagingEndpointAllocatedPorts = ''AllocatedPorts''"
definition MessagingEndpointCreated :: string where "MessagingEndpointCreated = ''Created''"
definition MessagingEndpointServiceCreated :: string where "MessagingEndpointServiceCreated = ''ServiceCreated''"
definition MessagingEndpointReady :: string where "MessagingEndpointReady = ''Ready''"

section \<open>Operations\<close>

type_synonym validity = "time \<times> time"

text \<open>
  \<open>AllocatePorts\<close> and \<open>FreePorts\<close> change the internal ports of the endpoint only; the operations return
  the new ports. An apply operation is a call of \<open>CreateOrUpdate\<close> with its function.
\<close>

record 'w endpoint_ops =
  eo_now :: "'w \<Rightarrow> time"
  eo_IsOpenshift :: bool
  eo_GetCertInfo :: "string \<Rightarrow> string \<Rightarrow> error + validity"
  eo_reader_Get :: "NamespacedName \<Rightarrow> ('w, error + MessagingEndpoint) prog"
  eo_Get_project :: "NamespacedName \<Rightarrow> ('w, error + MessagingProject) prog"
  eo_Get_infra :: "NamespacedName \<Rightarrow> ('w, error + MessagingInfrastructure) prog"
  eo_Status_Update :: "MessagingEndpoint \<Rightarrow> ('w, error option \<times> MessagingEndpoint) prog"
  eo_Update :: "MessagingEndpoint \<Rightarrow> ('w, error option \<times> MessagingEndpoint) prog"
  eo_AllocatePorts :: "MessagingInfrastructure \<Rightarrow> MessagingEndpoint \<Rightarrow> MessagingEndpointProtocol list
    \<Rightarrow> ('w, error option \<times> MessagingEndpointPort list) prog"
  eo_FreePorts :: "MessagingInfrastructure \<Rightarrow> MessagingEndpoint \<Rightarrow> ('w, MessagingEndpointPort list) prog"
  eo_SyncEndpoint :: "MessagingInfrastructure \<Rightarrow> MessagingEndpoint \<Rightarrow> ('w, error option) prog"
  eo_DeleteEndpoint :: "MessagingInfrastructure \<Rightarrow> MessagingEndpoint \<Rightarrow> ('w, error option) prog"
  eo_ReconcileEndpointCert :: "MessagingInfrastructure \<Rightarrow> MessagingEndpoint \<Rightarrow> ('w, error + validity) prog"
  eo_ReconcileEndpointCertFromValues :: "MessagingInfrastructure \<Rightarrow> MessagingEndpoint \<Rightarrow> string \<Rightarrow> string \<Rightarrow> ('w, error option) prog"
  eo_DeleteEndpointCert :: "MessagingInfrastructure \<Rightarrow> MessagingEndpoint \<Rightarrow> ('w, error option) prog"
  eo_Get_secret :: "NamespacedName \<Rightarrow> ('w, error + (string, string) gomap) prog"
  eo_Apply_service :: "NamespacedName \<Rightarrow> (Service \<Rightarrow> error + Service) \<Rightarrow> ('w, error option) prog"
  eo_Get_service :: "NamespacedName \<Rightarrow> ('w, error + Service) prog"
  eo_Delete_service :: "NamespacedName \<Rightarrow> ('w, error option) prog"
  eo_Apply_route :: "NamespacedName \<Rightarrow> (Route \<Rightarrow> error + Route) \<Rightarrow> ('w, error option) prog"
  eo_Get_route :: "NamespacedName \<Rightarrow> ('w, error + Route) prog"
  eo_Update_route :: "NamespacedName \<Rightarrow> Route \<Rightarrow> ('w, error option) prog"
  eo_Delete_route :: "NamespacedName \<Rightarrow> ('w, error option) prog"
  eo_Apply_ingress :: "NamespacedName \<Rightarrow> (Ingress \<Rightarrow> error + Ingress) \<Rightarrow> ('w, error option) prog"
  eo_Delete_ingress :: "NamespacedName \<Rightarrow> ('w, error option) prog"

record endpoint_run =
  er_endpoint :: MessagingEndpoint
  er_infra :: "MessagingInfrastructure option"

abbreviation on_estatus :: "(MessagingEndpointStatus \<Rightarrow> MessagingEndpointStatus) \<Rightarrow> MessagingEndpoint \<Rightarrow> MessagingEndpoint" where
  "on_estatus f e \<equiv> e\<lparr>me_Status := f (me_Status e)\<rparr>"

abbreviation on_endpoint :: "(MessagingEndpoint \<Rightarrow> MessagingEndpoint) \<Rightarrow> endpoint_run \<Rightarrow> endpoint_run" where
  "on_endpoint f r \<equiv> r\<lparr>er_endpoint := f (er_endpoint r)\<rparr>"

abbreviation set_endpoint_phase :: "string \<Rightarrow> MessagingEndpoint \<Rightarrow> MessagingEndpoint" where
  "set_endpoint_phase p \<equiv> on_estatus (\<lambda>s. s\<lparr>est_Phase := p\<rparr>)"

abbreviation set_endpoint_message :: "string \<Rightarrow> MessagingEndpoint \<Rightarrow> MessagingEndpoint" where
  "set_endpoint_message m \<equiv> on_estatus (\<lambda>s. s\<lparr>est_Message := m\<rparr>)"

abbreviation set_internal_ports :: "MessagingEndpointPort list \<Rightarrow> MessagingEndpoint \<Rightarrow> MessagingEndpoint" where
  "set_internal_ports ps \<equiv> on_estatus (\<lambda>s. s\<lparr>est_InternalPorts := ps\<rparr>)"

text \<open>\<open>endpoint.Status.GetMessagingEndpointCondition(t).SetStatus(status, "", message)\<close>\<close>

definition endpoint_SetStatus :: "time \<Rightarrow> string \<Rightarrow> string \<Rightarrow> string \<Rightarrow> MessagingEndpoint \<Rightarrow> MessagingEndpoint" where
  "endpoint_SetStatus now t status message =
     on_estatus (\<lambda>s. let (i, s') = GetMessagingEndpointCondition now t s
       in s'\<lparr>est_Conditions := (est_Conditions s')[i := Condition_SetStatus now status '''' message (est_Conditions s' ! i)]\<rparr>)"

lemma endpoint_SetStatus_simps [simp]:
  "me_Name (endpoint_SetStatus t c st m e) = me_Name e" "me_Namespace (endpoint_SetStatus t c st m e) = me_Namespace e"
  "me_Spec (endpoint_SetStatus t c st m e) = me_Spec e" "me_DeletionTimestamp (endpoint_SetStatus t c st m e) = me_DeletionTimestamp e"
  "me_Finalizers (endpoint_SetStatus t c st m e) = me_Finalizers e"
  "est_Phase (me_Status (endpoint_SetStatus t c st m e)) = est_Phase (me_Status e)"
  "est_Message (me_Status (endpoint_SetStatus t c st m e)) = est_Message (me_Status e)"
  "est_Host (me_Status (endpoint_SetStatus t c st m e)) = est_Host (me_Status e)"
  "est_Ports (me_Status (endpoint_SetStatus t c st m e)) = est_Ports (me_Status e)"
  "est_InternalPorts (me_Status (endpoint_SetStatus t c st m e)) = est_InternalPorts (me_Status e)"
  by (simp_all add: endpoint_SetStatus_def GetMessagingEndpointCondition_def split: prod.split)

definition endpoint_now :: "'w endpoint_ops \<Rightarrow> ('w, time) prog" where
  "endpoint_now ops = (\<lambda>w. Some (eo_now ops w, w))"

definition endpoint_Status_Update :: "'w endpoint_ops \<Rightarrow> endpoint_run \<Rightarrow> ('w, error option \<times> endpoint_run) prog" where
  "endpoint_Status_Update ops r =
     bindp (eo_Status_Update ops (er_endpoint r)) (\<lambda>(err, e). ret (err, r\<lparr>er_endpoint := e\<rparr>))"

text \<open>\<open>if err != nil { return processorResult{}, err }\<close> after a call.\<close>

definition or_fail ::
  "('w, error + 'a) prog \<Rightarrow> 'o \<Rightarrow> ('a \<Rightarrow> ('w, (processorResult \<times> error option) \<times> 'o) prog) \<Rightarrow> ('w, (processorResult \<times> error option) \<times> 'o) prog" where
  "or_fail m obj f = bindp m (\<lambda>res. case res of Inl err \<Rightarrow> ret ((processed, Some err), obj) | Inr a \<Rightarrow> f a)"

definition or_return ::
  "('w, error option) prog \<Rightarrow> 'o \<Rightarrow> ('w, (processorResult \<times> error option) \<times> 'o) prog \<Rightarrow> ('w, (processorResult \<times> error option) \<times> 'o) prog" where
  "or_return m obj f = bindp m (\<lambda>err. if err \<noteq> None then ret ((processed, err), obj) else f)"

abbreviation fails :: "string \<Rightarrow> 'o \<Rightarrow> ('w, (processorResult \<times> error option) \<times> 'o) prog" where
  "fails message obj \<equiv> ret ((processed, Some (Errorf message)), obj)"

abbreviation succeeds :: "'o \<Rightarrow> ('w, (processorResult \<times> error option) \<times> 'o) prog" where
  "succeeds obj \<equiv> ret ((processed, None), obj)"

definition object_key :: "MessagingInfrastructure \<Rightarrow> string \<Rightarrow> NamespacedName" where
  "object_key infra name = \<lparr> nn_Namespace = mi_Namespace infra, nn_Name = name \<rparr>"

section \<open>Initializing\<close>

definition endpoint_type :: "MessagingEndpointSpec \<Rightarrow> string option" where
  "endpoint_type spec =
     (if es_Cluster spec \<noteq> None then Some ''Cluster''
      else if es_NodePort spec \<noteq> None then Some ''NodePort''
      else if es_LoadBalancer spec \<noteq> None then Some ''LoadBalancer''
      else if es_Route spec \<noteq> None then Some ''Route''
      else if es_Ingress spec \<noteq> None then Some ''Ingress''
      else None)"

definition endpoint_conditions :: "string list" where
  "endpoint_conditions = [MessagingEndpointFoundProject, MessagingEndpointConfiguredTls, MessagingEndpointAllocatedPorts,
     MessagingEndpointCreated, MessagingEndpointServiceCreated, MessagingEndpointReady]"

definition initialize_endpoint :: "time \<Rightarrow> MessagingEndpoint \<Rightarrow> MessagingEndpoint" where
  "initialize_endpoint t e =
     on_estatus (\<lambda>s. fold (\<lambda>c s. snd (GetMessagingEndpointCondition t c s)) endpoint_conditions
       (s\<lparr>est_Phase := if est_Phase s = '''' then MessagingEndpointConfiguring else est_Phase s,
          est_Type := (case endpoint_type (me_Spec e) of Some ty \<Rightarrow> ty | None \<Rightarrow> est_Type s)\<rparr>)) e"

section \<open>Finalizing\<close>

definition endpoint_accessors :: "MessagingEndpoint accessors" where
  "endpoint_accessors =
     \<lparr> acc_deletion = me_DeletionTimestamp, acc_finalizers = me_Finalizers, acc_set = (\<lambda>xs e. e\<lparr>me_Finalizers := xs\<rparr>) \<rparr>"

text \<open>\<open>if err != nil && !k8errors.IsNotFound(err) { return err }\<close> after a deletion.\<close>

definition delete_object ::
  "('w, error option) prog \<Rightarrow> MessagingEndpoint \<Rightarrow> ('w, (reconcile_Result \<times> error option) \<times> MessagingEndpoint) prog
    \<Rightarrow> ('w, (reconcile_Result \<times> error option) \<times> MessagingEndpoint) prog" where
  "delete_object m e continue =
     bindp m (\<lambda>err. case err of
       Some x \<Rightarrow> if k8errors_IsNotFound x then continue else ret ((Result0, Some x), e)
     | None \<Rightarrow> continue)"

definition deconstruct_objects ::
  "'w endpoint_ops \<Rightarrow> MessagingInfrastructure \<Rightarrow> MessagingEndpoint \<Rightarrow> ('w, (reconcile_Result \<times> error option) \<times> MessagingEndpoint) prog" where
  "deconstruct_objects ops infra e =
     (let key = object_key infra (getServiceName e);
          service = delete_object (eo_Delete_service ops key) e (ret ((Result0, None), e));
          route = (if es_Route (me_Spec e) \<noteq> None then delete_object (eo_Delete_route ops key) e service else service)
      in if es_Ingress (me_Spec e) \<noteq> None then delete_object (eo_Delete_ingress ops key) e route else route)"

definition deconstruct_endpoint ::
  "'w endpoint_ops \<Rightarrow> MessagingEndpoint \<Rightarrow> ('w, (reconcile_Result \<times> error option) \<times> MessagingEndpoint) prog" where
  "deconstruct_endpoint ops e =
     bindp (LookupInfra (eo_Get_project ops) (eo_Get_infra ops) (me_Namespace e)) (\<lambda>l. case l of
       Inl err \<Rightarrow>
         if utilerrors_IsNotBound err \<or> utilerrors_IsNotFound err then ret ((Result0, None), e)
         else ret ((Result0, Some err), e)
     | Inr (project, infra) \<Rightarrow>
         bindp (eo_DeleteEndpoint ops infra e) (\<lambda>err.
         if err \<noteq> None then ret ((Result0, err), e)
         else bindp (eo_DeleteEndpointCert ops infra e) (\<lambda>err.
         if err \<noteq> None then ret ((Result0, err), e) else deconstruct_objects ops infra e)))"

definition endpoint_resource :: "'w endpoint_ops \<Rightarrow> ('w, MessagingEndpoint) resource_ops" where
  "endpoint_resource ops =
     \<lparr> res_accessors = endpoint_accessors, res_phase = (\<lambda>e. est_Phase (me_Status e)), res_set_phase = set_endpoint_phase,
       res_status_changed = (\<lambda>e f. False), res_Status_Update = eo_Status_Update ops, res_Update = eo_Update ops \<rparr>"

definition reconcileFinalizer :: "'w endpoint_ops \<Rightarrow> ('w, endpoint_run) step" where
  "reconcileFinalizer ops r =
     bindp (finalize_resource (endpoint_resource ops) (deconstruct_endpoint ops) (er_endpoint r)) (\<lambda>(res, e).
     ret (res, r\<lparr>er_endpoint := e\<rparr>))"

lemma endpoint_resource_lawful: "lawful_ops (endpoint_resource ops)"
  by (simp add: lawful_ops_def lawful_def endpoint_resource_def endpoint_accessors_def)

section \<open>Service, route and ingress\<close>

definition reconcileEndpointExternal ::
  "'w endpoint_ops \<Rightarrow> MessagingInfrastructure \<Rightarrow> MessagingEndpoint \<Rightarrow> ('w, (processorResult \<times> error option) \<times> MessagingEndpoint) prog" where
  "reconcileEndpointExternal ops infra e =
     (let key = object_key infra (getServiceName e); spec = me_Spec e in
      or_fail (eo_Get_service ops key) e (\<lambda>service.
      if length (es_Protocols spec) > 1 then fails ''route and ingress endpoints can only handle 1 protocol'' e
      else case es_Protocols spec of
        [] \<Rightarrow> panic
      | protocol # _ \<Rightarrow>
          if protocol = MessagingProtocolAMQP
          then fails ''route and ingress endpoints can only handle TLS-enabled AMQP protocol'' e
          else if es_Route spec \<noteq> None
          then if \<not> eo_IsOpenshift ops then fails ''route endpoints are only supported on OpenShift'' e
               else or_return (eo_Apply_route ops key (mutate_route e protocol)) e (succeeds e)
          else if es_Ingress spec \<noteq> None
          then case es_Host spec of
                 None \<Rightarrow> fails ''ingress endpoints require host to be set'' e
               | Some host \<Rightarrow> or_return (eo_Apply_ingress ops key (Inr \<circ> mutate_ingress e host protocol)) e (succeeds e)
          else succeeds e))"

definition reconcileEndpointPorts ::
  "'w endpoint_ops \<Rightarrow> MessagingInfrastructure \<Rightarrow> MessagingEndpoint \<Rightarrow> ('w, (processorResult \<times> error option) \<times> MessagingEndpoint) prog" where
  "reconcileEndpointPorts ops infra e =
     (let spec = me_Spec e; set_ports = (\<lambda>ps. on_estatus (\<lambda>s. s\<lparr>est_Ports := ps\<rparr>) e) in
      if es_NodePort spec \<noteq> None \<or> es_Cluster spec \<noteq> None \<or> es_LoadBalancer spec \<noteq> None
      then or_fail (eo_Get_service ops (object_key infra (getServiceName e))) (set_ports []) (\<lambda>service.
           if svc_Ports service = [] then fails ''no service ports found'' (set_ports [])
           else let (ports, err) = service_status_ports spec (svc_Ports service) in ret ((processed, err), set_ports ports))
      else if es_Route spec \<noteq> None \<or> es_Ingress spec \<noteq> None
      then succeeds (set_ports (external_status_ports (es_Protocols spec)))
      else succeeds (set_ports []))"

text \<open>The host name of the endpoint, and then its ports.\<close>

definition endpoint_host ::
  "'w endpoint_ops \<Rightarrow> MessagingInfrastructure \<Rightarrow> MessagingEndpoint
    \<Rightarrow> (string \<Rightarrow> ('w, (processorResult \<times> error option) \<times> MessagingEndpoint) prog) \<Rightarrow> ('w, (processorResult \<times> error option) \<times> MessagingEndpoint) prog" where
  "endpoint_host ops infra e continue =
     (let spec = me_Spec e; key = object_key infra (getServiceName e) in
      case es_Host spec of
        Some host \<Rightarrow> continue host
      | None \<Rightarrow>
          if es_NodePort spec \<noteq> None \<or> es_Cluster spec \<noteq> None then continue (getServiceName e @ ''.'' @ mi_Namespace infra @ ''.svc'')
          else if es_LoadBalancer spec \<noteq> None
          then or_fail (eo_Get_service ops key) e (\<lambda>service. continue (load_balancer_host (svc_LoadBalancer service)))
          else if es_Route spec \<noteq> None
          then if \<not> eo_IsOpenshift ops then fails ''route endpoints are only supported on OpenShift'' e
               else or_fail (eo_Get_route ops key) e (\<lambda>route. continue (ro_Host route))
          else if es_Ingress spec \<noteq> None then fails ''ingress endpoints require host to be set'' e
          else continue '''')"

definition reconcileEndpointService ::
  "'w endpoint_ops \<Rightarrow> MessagingInfrastructure \<Rightarrow> MessagingEndpoint \<Rightarrow> ('w, (processorResult \<times> error option) \<times> MessagingEndpoint) prog" where
  "reconcileEndpointService ops infra e =
     (let spec = me_Spec e;
          rest = endpoint_host ops infra e (\<lambda>host. reconcileEndpointPorts ops infra (on_estatus (\<lambda>s. s\<lparr>est_Host := host\<rparr>) e))
      in or_return (eo_Apply_service ops (object_key infra (getServiceName e)) (Inr \<circ> mutate_service infra e)) e
           (if es_Route spec \<noteq> None \<or> es_Ingress spec \<noteq> None
            then bindp (reconcileEndpointExternal ops infra e) (\<lambda>((result, err), e1).
                 if err \<noteq> None then ret ((result, err), e1) else rest)
            else rest))"

section \<open>Certificates\<close>

definition needs_tls :: "MessagingEndpoint \<Rightarrow> bool" where
  "needs_tls e \<longleftrightarrow> list_ex (\<lambda>p. p = MessagingProtocolAMQPS \<or> p = MessagingProtocolAMQPWSS \<and> \<not> MessagingEndpoint_IsEdgeTerminated e)
     (es_Protocols (me_Spec e))"

definition getInputValue :: "'w endpoint_ops \<Rightarrow> MessagingEndpoint \<Rightarrow> InputValue \<Rightarrow> ('w, error + string) prog" where
  "getInputValue ops e input =
     (if length (iv_Value input) > 0 then ret (Inr (iv_Value input))
      else case iv_ValueFromSecret input of
        None \<Rightarrow> ret (Inl (Errorf ''missing secret reference''))
      | Some (name, key) \<Rightarrow>
          bindp (eo_Get_secret ops \<lparr> nn_Namespace = me_Namespace e, nn_Name = name \<rparr>) (\<lambda>res. case res of
            Inl err \<Rightarrow> ret (Inl err)
          | Inr data \<Rightarrow> ret (Inr (case map_of data key of Some v \<Rightarrow> v | None \<Rightarrow> ''''))))"

definition set_tls :: "validity \<Rightarrow> string \<Rightarrow> MessagingEndpoint \<Rightarrow> MessagingEndpoint" where
  "set_tls v ca = on_estatus (\<lambda>s. s\<lparr>est_Tls := Some \<lparr> tst_CertificateValidity = Some v, tst_CaCertificate = ca \<rparr>\<rparr>)"

text \<open>A certificate whose key and value are given.\<close>

definition cert_from_values ::
  "'w endpoint_ops \<Rightarrow> MessagingInfrastructure \<Rightarrow> MessagingEndpoint \<Rightarrow> string \<Rightarrow> string
    \<Rightarrow> ('w, (processorResult \<times> error option) \<times> MessagingEndpoint) prog" where
  "cert_from_values ops infra e key cert =
     or_return (eo_ReconcileEndpointCertFromValues ops infra e key cert) e
       (case eo_GetCertInfo ops cert key of
          Inl err \<Rightarrow> ret ((processed, Some err), e)
        | Inr v \<Rightarrow> succeeds (set_tls v '''' e))"

definition tls_selfsigned ::
  "'w endpoint_ops \<Rightarrow> MessagingInfrastructure \<Rightarrow> MessagingEndpoint \<Rightarrow> ('w, (processorResult \<times> error option) \<times> MessagingEndpoint) prog" where
  "tls_selfsigned ops infra e =
     (if est_Host (me_Status e) = '''' then ret ((requeue_after 5, None), e)
      else or_fail (eo_ReconcileEndpointCert ops infra e) e (\<lambda>v.
           or_fail (eo_Get_secret ops (object_key infra (GetProjectCaSecretName (me_Namespace e)))) e (\<lambda>data.
           let ca = (case map_of data ''tls.crt'' of Some c \<Rightarrow> c | None \<Rightarrow> ''''); e1 = set_tls v ca e;
               key = object_key infra (getServiceName e)
           in if eo_IsOpenshift ops \<and> es_Route (me_Spec e) = Some (Some TLSTerminationReencrypt)
              then or_fail (eo_Get_route ops key) e1 (\<lambda>route. case ro_TLS route of
                     None \<Rightarrow> succeeds e1
                   | Some t \<Rightarrow>
                       if rt_DestinationCACertificate t = ''''
                       then or_return (eo_Update_route ops key (route\<lparr>ro_TLS := Some (t\<lparr>rt_DestinationCACertificate := ca\<rparr>)\<rparr>)) e1
                              (ret ((requeue, None), e1))
                       else succeeds e1)
              else succeeds e1)))"

definition tls_openshift ::
  "'w endpoint_ops \<Rightarrow> MessagingInfrastructure \<Rightarrow> MessagingEndpoint \<Rightarrow> ('w, (processorResult \<times> error option) \<times> MessagingEndpoint) prog" where
  "tls_openshift ops infra e =
     or_fail (eo_Get_secret ops (object_key infra (getOpenShiftCertSecret (getServiceName e)))) e (\<lambda>data.
     case (map_of data ''tls.key'', map_of data ''tls.crt'') of
       (Some key, Some cert) \<Rightarrow> cert_from_values ops infra e key cert
     | _ \<Rightarrow> fails ''secret not yet poulated with certificates'' e)"

definition tls_external ::
  "'w endpoint_ops \<Rightarrow> MessagingInfrastructure \<Rightarrow> MessagingEndpoint \<Rightarrow> InputValue \<Rightarrow> InputValue
    \<Rightarrow> ('w, (processorResult \<times> error option) \<times> MessagingEndpoint) prog" where
  "tls_external ops infra e key cert =
     or_fail (getInputValue ops e key) e (\<lambda>k.
     or_fail (getInputValue ops e cert) e (\<lambda>c. cert_from_values ops infra e k c))"

definition reconcileEndpointTls ::
  "'w endpoint_ops \<Rightarrow> MessagingInfrastructure \<Rightarrow> MessagingEndpoint \<Rightarrow> ('w, (processorResult \<times> error option) \<times> MessagingEndpoint) prog" where
  "reconcileEndpointTls ops infra e =
     (case es_Tls (me_Spec e) of
        None \<Rightarrow>
          if needs_tls e then fails ''protocol requiring TLS is enabled but no TLS configuration specified'' e else succeeds e
      | Some tls \<Rightarrow>
          if tls_Selfsigned tls \<noteq> None then tls_selfsigned ops infra e
          else if tls_Openshift tls \<noteq> None then tls_openshift ops infra e
          else case tls_External tls of
            Some (key, cert) \<Rightarrow> tls_external ops infra e key cert
          | None \<Rightarrow> fails ''TLS configuration is missing certificate configuration'' e)"

section \<open>The steps of a run\<close>

definition endpoint_find_infra :: "'w endpoint_ops \<Rightarrow> ('w, endpoint_run) step" where
  "endpoint_find_infra ops r =
     bindp (LookupInfra (eo_Get_project ops) (eo_Get_infra ops) (me_Namespace (er_endpoint r))) (\<lambda>l.
     bindp (endpoint_now ops) (\<lambda>t. case l of
       Inl err \<Rightarrow>
         if k8errors_IsNotFound err \<or> utilerrors_IsNotBound err
         then ret ((requeue_after 10, None), on_endpoint (set_endpoint_message (error_string err) \<circ>
                endpoint_SetStatus t MessagingEndpointFoundProject ConditionFalse (error_string err)) r)
         else ret ((processed, Some err), on_endpoint (endpoint_SetStatus t MessagingEndpointFoundProject ConditionTrue '''') r)
     | Inr (project, infra) \<Rightarrow>
         ret ((processed, None), on_endpoint (endpoint_SetStatus t MessagingEndpointFoundProject ConditionTrue '''') (r\<lparr>er_infra := Some infra\<rparr>))))"

definition allocate_ports :: "'w endpoint_ops \<Rightarrow> MessagingInfrastructure \<Rightarrow> ('w, endpoint_run) step" where
  "allocate_ports ops infra r =
     (let e = er_endpoint r in
      if length (es_Protocols (me_Spec e)) = 0
      then bindp (endpoint_now ops) (\<lambda>t.
           let msg = ''must specify at least 1 protocol''
           in fails msg (on_endpoint (set_endpoint_message msg \<circ> endpoint_SetStatus t MessagingEndpointAllocatedPorts ConditionFalse msg) r))
      else bindp (eo_AllocatePorts ops infra e (es_Protocols (me_Spec e))) (\<lambda>(err, ports).
           bindp (endpoint_now ops) (\<lambda>t.
           let r1 = on_endpoint (set_internal_ports ports) r in
           case err of
             Some x \<Rightarrow>
               let r2 = on_endpoint (set_endpoint_message (error_string x) \<circ>
                          endpoint_SetStatus t MessagingEndpointAllocatedPorts ConditionFalse (error_string x)) r1
               in if is_transient x then ret ((requeue_after 10, None), r2)
                  else bindp (eo_FreePorts ops infra (er_endpoint r2)) (\<lambda>ports.
                       ret ((processed, Some x), on_endpoint (set_internal_ports ports) r2))
           | None \<Rightarrow>
               ret ((processed\<lparr>pr_Requeue := est_InternalPorts (me_Status e) \<noteq> ports\<rparr>, None),
                    on_endpoint (endpoint_SetStatus t MessagingEndpointAllocatedPorts ConditionTrue '''') r1))))"

text \<open>
  The steps for the service and for the certificates, which report their outcome in a condition. The
  second one sleeps for five seconds when the endpoint is not active yet, which has no effect here.
\<close>

definition report_endpoint ::
  "'w endpoint_ops \<Rightarrow> string \<Rightarrow> (MessagingEndpoint \<Rightarrow> ('w, (processorResult \<times> error option) \<times> MessagingEndpoint) prog) \<Rightarrow> ('w, endpoint_run) step" where
  "report_endpoint ops condition m r =
     bindp (m (er_endpoint r)) (\<lambda>((result, err), e).
     bindp (endpoint_now ops) (\<lambda>t. case err of
       Some x \<Rightarrow>
         ret ((result, Some x), r\<lparr>er_endpoint := endpoint_SetStatus t condition ConditionFalse (error_string x)
                (set_endpoint_message (error_string x) e)\<rparr>)
     | None \<Rightarrow> ret ((result, None), r\<lparr>er_endpoint := endpoint_SetStatus t condition ConditionTrue '''' e\<rparr>)))"

definition sync_endpoint :: "'w endpoint_ops \<Rightarrow> MessagingInfrastructure \<Rightarrow> ('w, endpoint_run) step" where
  "sync_endpoint ops infra r =
     bindp (eo_SyncEndpoint ops infra (er_endpoint r)) (\<lambda>err.
     bindp (endpoint_now ops) (\<lambda>t. case err of
       Some x \<Rightarrow>
         ret (if is_transient x then (requeue_after 10, None) else (processed, Some x),
              on_endpoint (set_endpoint_message (error_string x) \<circ>
                endpoint_SetStatus t MessagingEndpointCreated ConditionFalse (error_string x)) r)
     | None \<Rightarrow> ret ((processed, None), on_endpoint (endpoint_SetStatus t MessagingEndpointCreated ConditionTrue '''') r)))"

definition complete_endpoint :: "'w endpoint_ops \<Rightarrow> ('w, endpoint_run) step" where
  "complete_endpoint ops r =
     bindp (endpoint_now ops) (\<lambda>t.
     if est_Host (me_Status (er_endpoint r)) = ''''
     then let msg = ''hostname is not yet defined''
          in ret ((requeue_after 5, None), on_endpoint (endpoint_SetStatus t MessagingEndpointReady ConditionFalse msg \<circ> set_endpoint_message msg) r)
     else bindp (eo_Status_Update ops (endpoint_SetStatus t MessagingEndpointReady ConditionTrue ''''
                   (set_endpoint_message '''' (set_endpoint_phase MessagingEndpointActive (er_endpoint r))))) (\<lambda>(err, e).
          ret ((processed, err), r\<lparr>er_endpoint := e\<rparr>)))"

definition endpoint_Reconcile :: "'w endpoint_ops \<Rightarrow> NamespacedName \<Rightarrow> ('w, reconcile_Result \<times> error option) prog" where
  "endpoint_Reconcile ops request =
     bindp (eo_reader_Get ops request) (\<lambda>g. case g of
       Inl err \<Rightarrow> ret (Result0, if k8errors_IsNotFound err then None else Some err)
     | Inr found \<Rightarrow>
         bindp (endpoint_now ops) (\<lambda>t.
         let Proc = Process (endpoint_Status_Update ops)
         in and_then (Proc (reconcileFinalizer ops) \<lparr> er_endpoint = initialize_endpoint t found, er_infra = None \<rparr>) (\<lambda>r1.
            and_then (Proc (endpoint_find_infra ops) r1) (\<lambda>r2.
            bindp (liftO (er_infra r2)) (\<lambda>infra.
            and_then (Proc (allocate_ports ops infra) r2) (\<lambda>r3.
            and_then (Proc (report_endpoint ops MessagingEndpointServiceCreated (reconcileEndpointService ops infra)) r3) (\<lambda>r4.
            and_then (Proc (report_endpoint ops MessagingEndpointConfiguredTls (reconcileEndpointTls ops infra)) r4) (\<lambda>r5.
            and_then (Proc (sync_endpoint ops infra) r5) (\<lambda>r6.
            and_return (Proc (complete_endpoint ops) r6))))))))))"

section \<open>Logging the calls\<close>

datatype endpoint_event =
    EGot NamespacedName "error + MessagingEndpoint"
  | EGotProject NamespacedName "error + MessagingProject"
  | EGotInfra NamespacedName "error + MessagingInfrastructure"
  | EStatusUpdated MessagingEndpoint "error option"
  | EUpdated MessagingEndpoint "error option"
  | EAllocated MessagingInfrastructure "MessagingEndpointProtocol list" "error option \<times> MessagingEndpointPort list"
  | EFreed MessagingInfrastructure
  | ESynced MessagingInfrastructure MessagingEndpoint "error option"
  | EDeleted MessagingInfrastructure MessagingEndpoint "error option"
  | ECertReconciled MessagingInfrastructure "error + validity"
  | ECertGiven MessagingInfrastructure string string "error option"
  | ECertDeleted MessagingInfrastructure MessagingEndpoint "error option"
  | EGotSecret NamespacedName "error + (string, string) gomap"
  | EServiceApplied NamespacedName "Service \<Rightarrow> error + Service" "error option"
  | EGotService NamespacedName "error + Service"
  | EServiceDeleted NamespacedName "error option"
  | ERouteApplied NamespacedName "Route \<Rightarrow> error + Route" "error option"
  | EGotRoute NamespacedName "error + Route"
  | ERouteUpdated NamespacedName "error option"
  | ERouteDeleted NamespacedName "error option"
  | EIngressApplied NamespacedName "Ingress \<Rightarrow> error + Ingress" "error option"
  | EIngressDeleted NamespacedName "error option"

definition endpoint_logged :: "'w endpoint_ops \<Rightarrow> ('w \<times> endpoint_event list) endpoint_ops" where
  "endpoint_logged ops =
     \<lparr> eo_now = eo_now ops \<circ> fst, eo_IsOpenshift = eo_IsOpenshift ops, eo_GetCertInfo = eo_GetCertInfo ops,
       eo_reader_Get = (\<lambda>k. logged (EGot k) (eo_reader_Get ops k)),
       eo_Get_project = (\<lambda>k. logged (EGotProject k) (eo_Get_project ops k)),
       eo_Get_infra = (\<lambda>k. logged (EGotInfra k) (eo_Get_infra ops k)),
       eo_Status_Update = (\<lambda>e. logged (EStatusUpdated e \<circ> fst) (eo_Status_Update ops e)),
       eo_Update = (\<lambda>e. logged (EUpdated e \<circ> fst) (eo_Update ops e)),
       eo_AllocatePorts = (\<lambda>i e ps. logged (EAllocated i ps) (eo_AllocatePorts ops i e ps)),
       eo_FreePorts = (\<lambda>i e. logged (\<lambda>_. EFreed i) (eo_FreePorts ops i e)),
       eo_SyncEndpoint = (\<lambda>i e. logged (ESynced i e) (eo_SyncEndpoint ops i e)),
       eo_DeleteEndpoint = (\<lambda>i e. logged (EDeleted i e) (eo_DeleteEndpoint ops i e)),
       eo_ReconcileEndpointCert = (\<lambda>i e. logged (ECertReconciled i) (eo_ReconcileEndpointCert ops i e)),
       eo_ReconcileEndpointCertFromValues = (\<lambda>i e k c. logged (ECertGiven i k c) (eo_ReconcileEndpointCertFromValues ops i e k c)),
       eo_DeleteEndpointCert = (\<lambda>i e. logged (ECertDeleted i e) (eo_DeleteEndpointCert ops i e)),
       eo_Get_secret = (\<lambda>k. logged (EGotSecret k) (eo_Get_secret ops k)),
       eo_Apply_service = (\<lambda>k f. logged (EServiceApplied k f) (eo_Apply_service ops k f)),
       eo_Get_service = (\<lambda>k. logged (EGotService k) (eo_Get_service ops k)),
       eo_Delete_service = (\<lambda>k. logged (EServiceDeleted k) (eo_Delete_service ops k)),
       eo_Apply_route = (\<lambda>k f. logged (ERouteApplied k f) (eo_Apply_route ops k f)),
       eo_Get_route = (\<lambda>k. logged (EGotRoute k) (eo_Get_route ops k)),
       eo_Update_route = (\<lambda>k ro. logged (ERouteUpdated k) (eo_Update_route ops k ro)),
       eo_Delete_route = (\<lambda>k. logged (ERouteDeleted k) (eo_Delete_route ops k)),
       eo_Apply_ingress = (\<lambda>k f. logged (EIngressApplied k f) (eo_Apply_ingress ops k f)),
       eo_Delete_ingress = (\<lambda>k. logged (EIngressDeleted k) (eo_Delete_ingress ops k)) \<rparr>"

text \<open>The calls return.\<close>

definition endpoint_ops_total :: "'w endpoint_ops \<Rightarrow> bool" where
  "endpoint_ops_total ops \<longleftrightarrow>
     (\<forall>k. total (eo_reader_Get ops k)) \<and> (\<forall>k. total (eo_Get_project ops k)) \<and> (\<forall>k. total (eo_Get_infra ops k)) \<and>
     (\<forall>e. total (eo_Status_Update ops e)) \<and> (\<forall>e. total (eo_Update ops e)) \<and> (\<forall>i e ps. total (eo_AllocatePorts ops i e ps)) \<and>
     (\<forall>i e. total (eo_FreePorts ops i e)) \<and> (\<forall>i e. total (eo_SyncEndpoint ops i e)) \<and> (\<forall>i e. total (eo_DeleteEndpoint ops i e)) \<and>
     (\<forall>i e. total (eo_ReconcileEndpointCert ops i e)) \<and> (\<forall>i e k c. total (eo_ReconcileEndpointCertFromValues ops i e k c)) \<and>
     (\<forall>i e. total (eo_DeleteEndpointCert ops i e)) \<and> (\<forall>k. total (eo_Get_secret ops k)) \<and> (\<forall>k f. total (eo_Apply_service ops k f)) \<and>
     (\<forall>k. total (eo_Get_service ops k)) \<and> (\<forall>k. total (eo_Delete_service ops k)) \<and> (\<forall>k f. total (eo_Apply_route ops k f)) \<and>
     (\<forall>k. total (eo_Get_route ops k)) \<and> (\<forall>k ro. total (eo_Update_route ops k ro)) \<and> (\<forall>k. total (eo_Delete_route ops k)) \<and>
     (\<forall>k f. total (eo_Apply_ingress ops k f)) \<and> (\<forall>k. total (eo_Delete_ingress ops k))"

lemma wp_endpoint_now [wp_rules]: "wp (endpoint_now ops) Q = (\<lambda>w. Q (eo_now ops w) w)"
  by (rule ext) (simp add: wp_def endpoint_now_def)

lemma wp_or_fail [wp_rules]:
  "wp (or_fail m obj f) Q = wp m (\<lambda>res. case res of Inl err \<Rightarrow> Q ((processed, Some err), obj) | Inr a \<Rightarrow> wp (f a) Q)"
  unfolding or_fail_def wp_bindp by (rule arg_cong [of _ _ "wp m"]) (auto simp: wp_rules fun_eq_iff split: sum.split)

lemma wp_or_return [wp_rules]:
  "wp (or_return m obj f) Q = wp m (\<lambda>err. if err \<noteq> None then Q ((processed, err), obj) else wp f Q)"
  unfolding or_return_def wp_bindp by (rule arg_cong [of _ _ "wp m"]) (auto simp: wp_rules fun_eq_iff)

lemma wp_delete_object [wp_rules]:
  "wp (delete_object m e f) Q = wp m (\<lambda>err. case err of
     Some x \<Rightarrow> if k8errors_IsNotFound x then wp f Q else Q ((Result0, Some x), e) | None \<Rightarrow> wp f Q)"
  unfolding delete_object_def wp_bindp by (rule arg_cong [of _ _ "wp m"]) (auto simp: wp_rules fun_eq_iff split: option.split)

end
