(* ===== verification/Endpoint_Runs.thy ===== *)
theory Endpoint_Runs
  imports Endpoint_Controller
begin

text \<open>
  What a run of the endpoint controller does, for any behaviour of the Kubernetes API, of the infrastructure
  client and of the certificate controller.
\<close>

section \<open>Calls\<close>

lemma endpoint_calls:
  assumes "endpoint_ops_total ops"
  shows "(\<And>r w'. Q1 r (w', EGot k r # h)) \<Longrightarrow> wp (eo_reader_Get (endpoint_logged ops) k) Q1 (w, h)"
    and "(\<And>r w'. Q2 r (w', EGotProject k r # h)) \<Longrightarrow> wp (eo_Get_project (endpoint_logged ops) k) Q2 (w, h)"
    and "(\<And>r w'. Q3 r (w', EGotInfra k r # h)) \<Longrightarrow> wp (eo_Get_infra (endpoint_logged ops) k) Q3 (w, h)"
    and "(\<And>x b w'. Q4 (x, b) (w', EStatusUpdated e x # h)) \<Longrightarrow> wp (eo_Status_Update (endpoint_logged ops) e) Q4 (w, h)"
    and "(\<And>x b w'. Q4 (x, b) (w', EUpdated e x # h)) \<Longrightarrow> wp (eo_Update (endpoint_logged ops) e) Q4 (w, h)"
    and "(\<And>x qs w'. Q5 (x, qs) (w', EAllocated i ps (x, qs) # h)) \<Longrightarrow> wp (eo_AllocatePorts (endpoint_logged ops) i e ps) Q5 (w, h)"
    and "(\<And>r w'. Q6 r (w', EFreed i # h)) \<Longrightarrow> wp (eo_FreePorts (endpoint_logged ops) i e) Q6 (w, h)"
    and "(\<And>x w'. Q7 x (w', ESynced i e x # h)) \<Longrightarrow> wp (eo_SyncEndpoint (endpoint_logged ops) i e) Q7 (w, h)"
    and "(\<And>x w'. Q7 x (w', EDeleted i e x # h)) \<Longrightarrow> wp (eo_DeleteEndpoint (endpoint_logged ops) i e) Q7 (w, h)"
    and "(\<And>r w'. Q8 r (w', ECertReconciled i r # h)) \<Longrightarrow> wp (eo_ReconcileEndpointCert (endpoint_logged ops) i e) Q8 (w, h)"
    and "(\<And>x w'. Q7 x (w', ECertGiven i kk c x # h)) \<Longrightarrow> wp (eo_ReconcileEndpointCertFromValues (endpoint_logged ops) i e kk c) Q7 (w, h)"
    and "(\<And>x w'. Q7 x (w', ECertDeleted i e x # h)) \<Longrightarrow> wp (eo_DeleteEndpointCert (endpoint_logged ops) i e) Q7 (w, h)"
    and "(\<And>r w'. Q9 r (w', EGotSecret k r # h)) \<Longrightarrow> wp (eo_Get_secret (endpoint_logged ops) k) Q9 (w, h)"
    and "(\<And>x w'. Q7 x (w', EServiceApplied k f x # h)) \<Longrightarrow> wp (eo_Apply_service (endpoint_logged ops) k f) Q7 (w, h)"
    and "(\<And>r w'. Q10 r (w', EGotService k r # h)) \<Longrightarrow> wp (eo_Get_service (endpoint_logged ops) k) Q10 (w, h)"
    and "(\<And>x w'. Q7 x (w', EServiceDeleted k x # h)) \<Longrightarrow> wp (eo_Delete_service (endpoint_logged ops) k) Q7 (w, h)"
    and "(\<And>x w'. Q7 x (w', ERouteApplied k g x # h)) \<Longrightarrow> wp (eo_Apply_route (endpoint_logged ops) k g) Q7 (w, h)"
    and "(\<And>r w'. Q11 r (w', EGotRoute k r # h)) \<Longrightarrow> wp (eo_Get_route (endpoint_logged ops) k) Q11 (w, h)"
    and "(\<And>x w'. Q7 x (w', ERouteUpdated k x # h)) \<Longrightarrow> wp (eo_Update_route (endpoint_logged ops) k ro) Q7 (w, h)"
    and "(\<And>x w'. Q7 x (w', ERouteDeleted k x # h)) \<Longrightarrow> wp (eo_Delete_route (endpoint_logged ops) k) Q7 (w, h)"
    and "(\<And>x w'. Q7 x (w', EIngressApplied k j x # h)) \<Longrightarrow> wp (eo_Apply_ingress (endpoint_logged ops) k j) Q7 (w, h)"
    and "(\<And>x w'. Q7 x (w', EIngressDeleted k x # h)) \<Longrightarrow> wp (eo_Delete_ingress (endpoint_logged ops) k) Q7 (w, h)"
  using assms by (auto simp: endpoint_logged_def endpoint_ops_total_def intro!: wp_logged)

lemma endpoint_logged_pure [simp]:
  "eo_now (endpoint_logged ops) (w, h) = eo_now ops w" "eo_IsOpenshift (endpoint_logged ops) = eo_IsOpenshift ops"
  "eo_GetCertInfo (endpoint_logged ops) = eo_GetCertInfo ops"
  by (simp_all add: endpoint_logged_def)

fun is_endpoint_update :: "endpoint_event \<Rightarrow> bool" where
  "is_endpoint_update (EUpdated e err) = True"
| "is_endpoint_update ev = False"

abbreviation endpoint_updates :: "endpoint_event list \<Rightarrow> bool" where
  "endpoint_updates h \<equiv> list_ex is_endpoint_update h"

abbreviation endpoint_staged ::
  "'w endpoint_ops \<Rightarrow> ('w \<times> endpoint_event list, endpoint_run) step \<Rightarrow> endpoint_run \<Rightarrow> 'w \<times> endpoint_event list
    \<Rightarrow> (endpoint_run \<Rightarrow> endpoint_event list \<Rightarrow> bool) \<Rightarrow> bool" where
  "endpoint_staged ops \<equiv> staged is_endpoint_update (endpoint_Status_Update (endpoint_logged ops))"

text \<open>A part of a step that does not write the endpoint.\<close>

definition quiet :: "endpoint_event list \<Rightarrow> endpoint_event list \<Rightarrow> bool" where
  "quiet h h' \<longleftrightarrow> grown h h' \<and> (endpoint_updates h' \<longrightarrow> endpoint_updates h)"

lemma quiet_refl [simp]: "quiet h h"
  by (simp add: quiet_def)

lemma quiet_trans: "quiet h h1 \<Longrightarrow> quiet h1 h2 \<Longrightarrow> quiet h h2"
  by (auto simp: quiet_def intro: grown_trans)

lemma quiet_Cons: "quiet h h' \<Longrightarrow> \<not> is_endpoint_update ev \<Longrightarrow> quiet h (ev # h')"
  by (auto simp: quiet_def)

lemma quiet_mem: "quiet h h' \<Longrightarrow> ev \<in> set h \<Longrightarrow> ev \<in> set h'"
  by (auto simp: quiet_def grown_def)

lemma quiet_list_ex: "quiet h h' \<Longrightarrow> list_ex P h \<Longrightarrow> list_ex P h'"
  using grown_list_ex [of h h' P] by (simp add: quiet_def)

section \<open>Service and ports\<close>

definition same_endpoint :: "MessagingEndpoint \<Rightarrow> MessagingEndpoint \<Rightarrow> bool" where
  "same_endpoint e f \<longleftrightarrow> me_Name e = me_Name f \<and> me_Namespace e = me_Namespace f \<and> me_Spec e = me_Spec f"

definition by_service :: "MessagingEndpointSpec \<Rightarrow> bool" where
  "by_service spec \<longleftrightarrow> es_NodePort spec \<noteq> None \<or> es_Cluster spec \<noteq> None \<or> es_LoadBalancer spec \<noteq> None"

fun offers :: "NamespacedName \<Rightarrow> MessagingEndpointSpec \<Rightarrow> MessagingEndpointPort list \<Rightarrow> endpoint_event \<Rightarrow> bool" where
  "offers k spec ports (EGotService k' (Inr svc)) \<longleftrightarrow> k' = k \<and> svc_Ports svc \<noteq> [] \<and> service_status_ports spec (svc_Ports svc) = (ports, None)"
| "offers k spec ports ev \<longleftrightarrow> False"

text \<open>The ports of the status are those of a service that was read, or those of routes and ingresses.\<close>

definition ports_reported :: "MessagingInfrastructure \<Rightarrow> MessagingEndpoint \<Rightarrow> endpoint_event list \<Rightarrow> bool" where
  "ports_reported infra e h \<longleftrightarrow>
     (if by_service (me_Spec e) then list_ex (offers (object_key infra (getServiceName e)) (me_Spec e) (est_Ports (me_Status e))) h
      else est_Ports (me_Status e) =
        (if es_Route (me_Spec e) \<noteq> None \<or> es_Ingress (me_Spec e) \<noteq> None then external_status_ports (es_Protocols (me_Spec e)) else []))"

lemma getServiceName_simps [simp]: "getServiceName (e\<lparr>me_Status := s\<rparr>) = getServiceName e"
  by (simp add: getServiceName_def)

lemma ports_step:
  assumes "endpoint_ops_total ops"
  shows "wp (reconcileEndpointPorts (endpoint_logged ops) infra e)
    (\<lambda>((res, err), e') (w', h'). quiet h h' \<and> res = processed \<and> same_endpoint e e' \<and> est_InternalPorts (me_Status e') = est_InternalPorts (me_Status e) \<and>
       est_Host (me_Status e') = est_Host (me_Status e) \<and> (err = None \<longrightarrow> ports_reported infra e' h')) (w, h)"
  unfolding reconcileEndpointPorts_def Let_def
  by (auto simp: wp_rules quiet_Cons same_endpoint_def ports_reported_def by_service_def split: sum.splits prod.splits
      intro!: endpoint_calls [OF assms])

lemma external_step:
  assumes "endpoint_ops_total ops" and "es_Protocols (me_Spec e) \<noteq> []"
  shows "wp (reconcileEndpointExternal (endpoint_logged ops) infra e)
    (\<lambda>((res, err), e') (w', h'). quiet h h' \<and> res = processed \<and> e' = e) (w, h)"
  using assms(2) unfolding reconcileEndpointExternal_def Let_def
  by (auto simp: wp_rules quiet_Cons split: sum.splits prod.splits list.splits option.splits intro!: endpoint_calls [OF assms(1)])

lemma host_step:
  assumes "endpoint_ops_total ops" and "\<And>err w' h'. quiet h h' \<Longrightarrow> Q ((processed, Some err), e) (w', h')"
    and "\<And>host w' h'. quiet h h' \<Longrightarrow> wp (f host) Q (w', h')"
  shows "wp (endpoint_host (endpoint_logged ops) infra e f) Q (w, h)"
  unfolding endpoint_host_def Let_def
  by (auto simp: wp_rules quiet_Cons split: sum.splits option.splits intro!: endpoint_calls [OF assms(1)] assms(2,3))

definition service_applied :: "MessagingInfrastructure \<Rightarrow> MessagingEndpoint \<Rightarrow> endpoint_event list \<Rightarrow> bool" where
  "service_applied infra e h \<longleftrightarrow> EServiceApplied (object_key infra (getServiceName e)) (Inr \<circ> mutate_service infra e) None \<in> set h"

lemma service_step:
  assumes total: "endpoint_ops_total ops" and "es_Protocols (me_Spec e) \<noteq> []"
  shows "wp (reconcileEndpointService (endpoint_logged ops) infra e)
    (\<lambda>((res, err), e') (w', h'). quiet h h' \<and> res = processed \<and> same_endpoint e e' \<and> est_InternalPorts (me_Status e') = est_InternalPorts (me_Status e) \<and>
       (err = None \<longrightarrow> service_applied infra e h' \<and> ports_reported infra e' h')) (w, h)"
    (is "wp _ ?Q _")
proof -
  let ?rest = "endpoint_host (endpoint_logged ops) infra e (\<lambda>host. reconcileEndpointPorts (endpoint_logged ops) infra (e\<lparr>me_Status := (me_Status e)\<lparr>est_Host := host\<rparr>\<rparr>))"
  have rest: "wp ?rest ?Q (w1, h1)" if q: "quiet h h1" and a: "service_applied infra e h1" for w1 h1
  proof (rule host_step [OF total])
    show "?Q ((processed, Some err), e) (w', h')" if "quiet h1 h'" for err w' h'
      using quiet_trans [OF q that] by (simp add: same_endpoint_def)
    show "wp (reconcileEndpointPorts (endpoint_logged ops) infra (e\<lparr>me_Status := (me_Status e)\<lparr>est_Host := host\<rparr>\<rparr>)) ?Q (w', h')"
      if "quiet h1 h'" for host w' h'
      by (rule wp_mono [OF ports_step [OF total]])
        (use quiet_trans [OF q quiet_trans [OF that]] quiet_mem [OF that] quiet_mem a in \<open>auto simp: same_endpoint_def service_applied_def\<close>)
  qed
  have ext: "wp (bindp (reconcileEndpointExternal (endpoint_logged ops) infra e) (\<lambda>((result, err), e1). if err \<noteq> None then ret ((result, err), e1) else ?rest)) ?Q (w1, h1)"
    if q: "quiet h h1" and a: "service_applied infra e h1" for w1 h1
    unfolding wp_bindp
    by (rule wp_mono [OF external_step [OF total assms(2)]])
      (use q a rest quiet_trans [OF q] quiet_mem in \<open>auto simp: wp_rules same_endpoint_def service_applied_def split: prod.splits\<close>)
  show ?thesis unfolding reconcileEndpointService_def Let_def wp_or_return
    by (rule endpoint_calls(14) [OF total]) (use rest ext in \<open>auto simp: quiet_Cons same_endpoint_def service_applied_def\<close>)
qed

section \<open>Certificates\<close>

fun cert_made :: "MessagingInfrastructure \<Rightarrow> endpoint_event \<Rightarrow> bool" where
  "cert_made infra (ECertReconciled i (Inr v)) \<longleftrightarrow> i = infra"
| "cert_made infra ev \<longleftrightarrow> False"

fun cert_given :: "MessagingInfrastructure \<Rightarrow> endpoint_event \<Rightarrow> bool" where
  "cert_given infra (ECertGiven i k c None) \<longleftrightarrow> i = infra"
| "cert_given infra ev \<longleftrightarrow> False"

text \<open>The endpoint has its certificate, or none of its protocols needs one.\<close>

definition tls_configured :: "MessagingInfrastructure \<Rightarrow> MessagingEndpoint \<Rightarrow> endpoint_event list \<Rightarrow> bool" where
  "tls_configured infra e h \<longleftrightarrow>
     (case es_Tls (me_Spec e) of
        None \<Rightarrow> \<not> needs_tls e
      | Some tls \<Rightarrow> if tls_Selfsigned tls \<noteq> None then list_ex (cert_made infra) h else list_ex (cert_given infra) h)"

definition tls_post :: "MessagingInfrastructure \<Rightarrow> MessagingEndpoint \<Rightarrow> endpoint_event list
    \<Rightarrow> (processorResult \<times> error option) \<times> MessagingEndpoint \<Rightarrow> 'w \<times> endpoint_event list \<Rightarrow> bool" where
  "tls_post infra e h = (\<lambda>((res, err), e') (w', h'). quiet h h' \<and> same_endpoint e e' \<and>
     est_InternalPorts (me_Status e') = est_InternalPorts (me_Status e) \<and> est_Ports (me_Status e') = est_Ports (me_Status e) \<and>
     (case err of Some x \<Rightarrow> res = processed | None \<Rightarrow> res = requeue \<or> res = requeue_after 5 \<or> res = processed \<and> tls_configured infra e h'))"

lemma set_tls_simps [simp]:
  "same_endpoint e (set_tls v ca e)" "est_InternalPorts (me_Status (set_tls v ca e)) = est_InternalPorts (me_Status e)"
  "est_Ports (me_Status (set_tls v ca e)) = est_Ports (me_Status e)"
  by (simp_all add: set_tls_def same_endpoint_def)

lemma same_endpoint_refl [simp]: "same_endpoint e e"
  by (simp add: same_endpoint_def)

lemma selfsigned_step:
  assumes "endpoint_ops_total ops" and "es_Tls (me_Spec e) = Some tls" and "tls_Selfsigned tls \<noteq> None"
  shows "wp (tls_selfsigned (endpoint_logged ops) infra e) (tls_post infra e h) (w, h)"
  using assms(2,3) unfolding tls_selfsigned_def Let_def
  by (auto simp: wp_rules quiet_Cons tls_post_def tls_configured_def split: sum.splits prod.splits option.splits intro!: endpoint_calls [OF assms(1)])

lemma cert_from_values_step:
  assumes "endpoint_ops_total ops" and "es_Tls (me_Spec e) = Some tls" and "tls_Selfsigned tls = None" and "quiet h h1"
  shows "wp (cert_from_values (endpoint_logged ops) infra e key cert) (tls_post infra e h) (w, h1)"
  using assms(2,3,4) unfolding cert_from_values_def
  by (auto simp: wp_rules quiet_Cons tls_post_def tls_configured_def split: sum.splits prod.splits option.splits intro!: endpoint_calls [OF assms(1)])

lemma tls_post_failed: "quiet h h' \<Longrightarrow> tls_post infra e h ((processed, Some err), e) (w', h')"
  by (simp add: tls_post_def)

lemma openshift_step:
  assumes "endpoint_ops_total ops" and "es_Tls (me_Spec e) = Some tls" and "tls_Selfsigned tls = None"
  shows "wp (tls_openshift (endpoint_logged ops) infra e) (tls_post infra e h) (w, h)"
  using cert_from_values_step [OF assms, of h] unfolding tls_openshift_def
  by (auto simp: wp_rules quiet_Cons tls_post_failed split: sum.splits prod.splits option.splits intro!: endpoint_calls [OF assms(1)])

lemma input_step:
  assumes "endpoint_ops_total ops" and "\<And>x w' h'. quiet h h' \<Longrightarrow> Q x (w', h')"
  shows "wp (getInputValue (endpoint_logged ops) e input) Q (w, h)"
  unfolding getInputValue_def
  by (auto simp: wp_rules quiet_Cons split: sum.splits prod.splits option.splits intro!: endpoint_calls [OF assms(1)] assms(2))

lemma external_tls_step:
  assumes "endpoint_ops_total ops" and "es_Tls (me_Spec e) = Some tls" and "tls_Selfsigned tls = None"
  shows "wp (tls_external (endpoint_logged ops) infra e key cert) (tls_post infra e h) (w, h)"
proof -
  show ?thesis unfolding tls_external_def wp_or_fail
  proof (rule input_step [OF assms(1)], goal_cases)
    case (1 x w1 h1)
    then show ?case using tls_post_failed [OF 1] tls_post_failed [OF quiet_trans [OF 1]] cert_from_values_step [OF assms quiet_trans [OF 1]]
      by (auto split: sum.splits intro!: input_step [OF assms(1)])
  qed
qed

lemma tls_step:
  assumes "endpoint_ops_total ops"
  shows "wp (reconcileEndpointTls (endpoint_logged ops) infra e) (tls_post infra e h) (w, h)"
proof (cases "es_Tls (me_Spec e)")
  case None
  then show ?thesis by (auto simp: reconcileEndpointTls_def wp_rules tls_post_def tls_configured_def)
next
  case (Some tls)
  show ?thesis
  proof (cases "tls_Selfsigned tls")
    case None
    then show ?thesis
      using openshift_step [OF assms Some, of infra h w] external_tls_step [OF assms Some, of infra _ _ h w] Some tls_post_failed [OF quiet_refl, of infra e h _ w]
      by (cases "tls_Openshift tls"; cases "tls_External tls") (auto simp: reconcileEndpointTls_def wp_rules)
  next
    case (Some u)
    then show ?thesis using selfsigned_step [OF assms \<open>es_Tls (me_Spec e) = Some tls\<close>, of infra h w] \<open>es_Tls (me_Spec e) = Some tls\<close>
      by (simp add: reconcileEndpointTls_def)
  qed
qed

section \<open>Steps\<close>

lemma same_endpoint_trans: "same_endpoint e f \<Longrightarrow> same_endpoint f g \<Longrightarrow> same_endpoint e g"
  by (simp add: same_endpoint_def)

lemma getServiceName_cong: "same_endpoint e f \<Longrightarrow> getServiceName e = getServiceName f"
  by (simp add: same_endpoint_def getServiceName_def)

lemma service_applied_cong:
  assumes "same_endpoint e f" and "est_InternalPorts (me_Status e) = est_InternalPorts (me_Status f)"
  shows "service_applied infra e = service_applied infra f"
proof -
  have "mutate_service infra e = mutate_service infra f"
    using assms getServiceName_cong [OF assms(1)] by (intro ext) (simp add: mutate_service_def same_endpoint_def Let_def split: option.split)
  then show ?thesis using getServiceName_cong [OF assms(1)] by (intro ext) (simp add: service_applied_def)
qed

lemma ports_reported_cong:
  "same_endpoint e f \<Longrightarrow> est_Ports (me_Status e) = est_Ports (me_Status f) \<Longrightarrow> ports_reported infra e = ports_reported infra f"
  using getServiceName_cong [of e f] by (auto simp: fun_eq_iff ports_reported_def same_endpoint_def)

lemma tls_configured_cong: "same_endpoint e f \<Longrightarrow> tls_configured infra e = tls_configured infra f"
  by (auto simp: fun_eq_iff tls_configured_def same_endpoint_def needs_tls_def MessagingEndpoint_IsEdgeTerminated_def split: option.splits)

lemma quiet_keeps:
  assumes "quiet h h'"
  shows "service_applied infra e h \<Longrightarrow> service_applied infra e h'" "ports_reported infra e h \<Longrightarrow> ports_reported infra e h'"
    "tls_configured infra e h \<Longrightarrow> tls_configured infra e h'"
  using quiet_mem [OF assms] quiet_list_ex [OF assms]
  by (auto simp: service_applied_def ports_reported_def tls_configured_def split: option.splits if_splits)

text \<open>What has been done in a run, step by step.\<close>

definition endpoint_run_of :: "NamespacedName \<Rightarrow> MessagingEndpoint \<Rightarrow> MessagingEndpoint \<Rightarrow> endpoint_event list \<Rightarrow> bool" where
  "endpoint_run_of req e f h \<longleftrightarrow> EGot req (Inr e) \<in> set h \<and> same_endpoint e f"

definition allocated_run :: "NamespacedName \<Rightarrow> MessagingInfrastructure \<Rightarrow> MessagingEndpoint \<Rightarrow> MessagingEndpoint \<Rightarrow> endpoint_event list \<Rightarrow> bool" where
  "allocated_run req infra e f h \<longleftrightarrow> endpoint_run_of req e f h \<and> es_Protocols (me_Spec e) \<noteq> [] \<and>
     EAllocated infra (es_Protocols (me_Spec e)) (None, est_InternalPorts (me_Status f)) \<in> set h"

definition served_run :: "NamespacedName \<Rightarrow> MessagingInfrastructure \<Rightarrow> MessagingEndpoint \<Rightarrow> MessagingEndpoint \<Rightarrow> endpoint_event list \<Rightarrow> bool" where
  "served_run req infra e f h \<longleftrightarrow> allocated_run req infra e f h \<and> service_applied infra f h \<and> ports_reported infra f h"

definition secured_run :: "NamespacedName \<Rightarrow> MessagingInfrastructure \<Rightarrow> MessagingEndpoint \<Rightarrow> MessagingEndpoint \<Rightarrow> endpoint_event list \<Rightarrow> bool" where
  "secured_run req infra e f h \<longleftrightarrow> served_run req infra e f h \<and> tls_configured infra f h"

fun syncs_endpoint :: "MessagingInfrastructure \<Rightarrow> MessagingEndpoint \<Rightarrow> endpoint_event \<Rightarrow> bool" where
  "syncs_endpoint infra e (ESynced i f None) \<longleftrightarrow> i = infra \<and> same_endpoint e f"
| "syncs_endpoint infra e ev \<longleftrightarrow> False"

definition listening_run :: "NamespacedName \<Rightarrow> MessagingInfrastructure \<Rightarrow> MessagingEndpoint \<Rightarrow> MessagingEndpoint \<Rightarrow> endpoint_event list \<Rightarrow> bool" where
  "listening_run req infra e f h \<longleftrightarrow> secured_run req infra e f h \<and> list_ex (syncs_endpoint infra e) h"

lemma run_cong:
  assumes "same_endpoint f g" and "est_InternalPorts (me_Status g) = est_InternalPorts (me_Status f)"
  shows "allocated_run req infra e f h \<Longrightarrow> allocated_run req infra e g h"
    and "est_Ports (me_Status g) = est_Ports (me_Status f) \<Longrightarrow> served_run req infra e f h \<Longrightarrow> served_run req infra e g h"
    and "est_Ports (me_Status g) = est_Ports (me_Status f) \<Longrightarrow> secured_run req infra e f h \<Longrightarrow> secured_run req infra e g h"
    and "est_Ports (me_Status g) = est_Ports (me_Status f) \<Longrightarrow> listening_run req infra e f h \<Longrightarrow> listening_run req infra e g h"
  using assms same_endpoint_trans [OF _ assms(1)] service_applied_cong [OF assms(1)] ports_reported_cong [OF assms(1)] tls_configured_cong [OF assms(1)]
  by (simp_all add: listening_run_def secured_run_def served_run_def allocated_run_def endpoint_run_of_def)

lemma run_quiet:
  assumes "quiet h h'"
  shows "allocated_run req infra e f h \<Longrightarrow> allocated_run req infra e f h'"
    and "served_run req infra e f h \<Longrightarrow> served_run req infra e f h'"
    and "secured_run req infra e f h \<Longrightarrow> secured_run req infra e f h'"
  using quiet_mem [OF assms] quiet_keeps [OF assms]
  by (auto simp: secured_run_def served_run_def allocated_run_def endpoint_run_of_def)

lemma stage_endpoint_infra:
  assumes "endpoint_ops_total ops" and "\<not> endpoint_updates h" and "endpoint_run_of req e (er_endpoint r) h"
  shows "endpoint_staged ops (endpoint_find_infra (endpoint_logged ops)) r (w, h)
    (\<lambda>r' h'. endpoint_run_of req e (er_endpoint r') h' \<and> (\<exists>infra. er_infra r' = Some infra))"
  using assms unfolding staged_def endpoint_find_infra_def LookupInfra_def
  by (auto simp: endpoint_run_of_def same_endpoint_def endpoint_Status_Update_def wp_rules split: sum.splits prod.splits
      intro!: endpoint_calls [OF assms(1)])

lemma stage_allocate:
  assumes "endpoint_ops_total ops" and "\<not> endpoint_updates h" and "endpoint_run_of req e (er_endpoint r) h"
  shows "endpoint_staged ops (allocate_ports (endpoint_logged ops) infra) r (w, h) (\<lambda>r' h'. allocated_run req infra e (er_endpoint r') h')"
  using assms unfolding staged_def allocate_ports_def Let_def
  by (auto simp: allocated_run_def endpoint_run_of_def same_endpoint_def soon_def ShouldReturn_def endpoint_Status_Update_def wp_rules
      split: option.splits prod.splits intro!: endpoint_calls [OF assms(1)])

lemma stage_service:
  assumes total: "endpoint_ops_total ops" and h: "\<not> endpoint_updates h" and r: "allocated_run req infra e (er_endpoint r) h"
  shows "endpoint_staged ops (report_endpoint (endpoint_logged ops) c (reconcileEndpointService (endpoint_logged ops) infra)) r (w, h)
    (\<lambda>r' h'. served_run req infra e (er_endpoint r') h')"
proof -
  have "es_Protocols (me_Spec (er_endpoint r)) \<noteq> []" using r by (auto simp: allocated_run_def endpoint_run_of_def same_endpoint_def)
  note step = service_step [OF total this, of infra h w]
  have finish: "served_run req infra e (endpoint_SetStatus t c st m e') h'"
    if "quiet h h'" "same_endpoint (er_endpoint r) e'" "est_InternalPorts (me_Status e') = est_InternalPorts (me_Status (er_endpoint r))"
      "service_applied infra (er_endpoint r) h'" "ports_reported infra e' h'" for e' h' t st m
  proof -
    have "allocated_run req infra e e' h'" using run_quiet(1) [OF that(1) r] run_cong(1) [OF that(2,3)] by simp
    moreover have "service_applied infra e' h'" using that(4) service_applied_cong [OF that(2) that(3) [symmetric]] by simp
    ultimately have "served_run req infra e e' h'" using that(5) by (simp add: served_run_def)
    then show ?thesis by (rule run_cong(2) [rotated -1]) (simp_all add: same_endpoint_def)
  qed
  show ?thesis unfolding staged_def report_endpoint_def wp_Process wp_bindp
    by (rule wp_mono [OF step])
      (use h finish in \<open>auto simp: endpoint_Status_Update_def quiet_def wp_rules split: option.splits prod.splits intro!: endpoint_calls [OF total]\<close>)
qed

lemma stage_tls:
  assumes total: "endpoint_ops_total ops" and h: "\<not> endpoint_updates h" and r: "served_run req infra e (er_endpoint r) h"
  shows "endpoint_staged ops (report_endpoint (endpoint_logged ops) c (reconcileEndpointTls (endpoint_logged ops) infra)) r (w, h)
    (\<lambda>r' h'. secured_run req infra e (er_endpoint r') h')"
proof -
  note step = tls_step [OF total, of infra "er_endpoint r" h w]
  have later: "processed \<noteq> requeue_after 5" by (simp add: result_defs)
  have finish: "secured_run req infra e (endpoint_SetStatus t c st m e') h'"
    if "quiet h h'" "same_endpoint (er_endpoint r) e'" "est_InternalPorts (me_Status e') = est_InternalPorts (me_Status (er_endpoint r))"
      "est_Ports (me_Status e') = est_Ports (me_Status (er_endpoint r))" "tls_configured infra (er_endpoint r) h'" for e' h' t st m
  proof -
    have "served_run req infra e e' h'" using run_quiet(2) [OF that(1) r] run_cong(2) [OF that(2,3)] that(4) by simp
    moreover have "tls_configured infra e' h'" using that(5) tls_configured_cong [OF that(2)] by simp
    ultimately have "secured_run req infra e e' h'" by (simp add: secured_run_def)
    then show ?thesis by (rule run_cong(3) [rotated -1]) (simp_all add: same_endpoint_def)
  qed
  show ?thesis unfolding staged_def report_endpoint_def wp_Process wp_bindp
    by (rule wp_mono [OF step])
      (use h later finish in \<open>auto simp: tls_post_def endpoint_Status_Update_def quiet_def wp_rules
        split: option.splits prod.splits intro!: endpoint_calls [OF total]\<close>)
qed

lemma secured_Cons: "secured_run req infra e f h \<Longrightarrow> \<not> is_endpoint_update ev \<Longrightarrow> secured_run req infra e f (ev # h)"
  by (rule run_quiet(3) [OF quiet_Cons [OF quiet_refl]])

lemma stage_sync_endpoint:
  assumes total: "endpoint_ops_total ops" and h: "\<not> endpoint_updates h" and r: "secured_run req infra e (er_endpoint r) h"
  shows "endpoint_staged ops (sync_endpoint (endpoint_logged ops) infra) r (w, h) (\<lambda>r' h'. listening_run req infra e (er_endpoint r') h')"
proof -
  have "same_endpoint e (er_endpoint r)" using r by (simp add: secured_run_def served_run_def allocated_run_def endpoint_run_of_def)
  then have "listening_run req infra e (er_endpoint r) (ESynced infra (er_endpoint r) None # h)"
    using secured_Cons [OF r] by (simp add: listening_run_def)
  then have "listening_run req infra e (endpoint_SetStatus t c st m (er_endpoint r)) (ESynced infra (er_endpoint r) None # h)" for t c st m
    by (rule run_cong(4) [rotated -1]) (simp_all add: same_endpoint_def)
  then show ?thesis using h unfolding staged_def sync_endpoint_def
    by (auto simp: endpoint_Status_Update_def wp_rules split: option.splits prod.splits intro!: endpoint_calls [OF total])
qed

text \<open>What holds of an endpoint when its phase becomes active.\<close>

definition endpoint_active :: "NamespacedName \<Rightarrow> MessagingEndpoint \<Rightarrow> endpoint_event list \<Rightarrow> bool" where
  "endpoint_active req e h \<longleftrightarrow> (\<exists>b infra h1. h = EStatusUpdated b None # h1 \<and> est_Phase (me_Status b) = MessagingEndpointActive \<and>
     est_Message (me_Status b) = '''' \<and> est_Host (me_Status b) \<noteq> '''' \<and> listening_run req infra e b h1)"

lemma complete_endpoint_step:
  assumes total: "endpoint_ops_total ops" and h: "\<not> endpoint_updates h" and r: "listening_run req infra e (er_endpoint r) h"
  shows "wp (Process (endpoint_Status_Update (endpoint_logged ops)) (complete_endpoint (endpoint_logged ops)) r)
    (\<lambda>((res, err), r') (w', h'). \<not> endpoint_updates h' \<and> (err = None \<longrightarrow> soon res \<or> res = processed \<and> endpoint_active req e h')) (w, h)"
proof -
  have "endpoint_active req e (EStatusUpdated (endpoint_SetStatus t MessagingEndpointReady ConditionTrue ''''
          (set_endpoint_message '''' (set_endpoint_phase MessagingEndpointActive (er_endpoint r)))) None # h)"
    if "est_Host (me_Status (er_endpoint r)) \<noteq> ''''" for t
  proof -
    have "listening_run req infra e (endpoint_SetStatus t MessagingEndpointReady ConditionTrue ''''
          (set_endpoint_message '''' (set_endpoint_phase MessagingEndpointActive (er_endpoint r)))) h"
      using r by (rule run_cong(4) [rotated -1]) (simp_all add: same_endpoint_def)
    then show ?thesis using that unfolding endpoint_active_def by (intro exI conjI) (assumption | simp)+
  qed
  then show ?thesis using h unfolding complete_endpoint_def Let_def
    by (auto simp: endpoint_Status_Update_def wp_rules split: option.splits prod.splits intro!: endpoint_calls [OF total])
qed

section \<open>Finalizing\<close>

fun no_bound_project :: "endpoint_event \<Rightarrow> bool" where
  "no_bound_project (EGotProject k (Inl err)) \<longleftrightarrow> k8errors_IsNotFound err \<or> utilerrors_IsNotFound err \<or> utilerrors_IsNotBound err"
| "no_bound_project (EGotProject k (Inr project)) \<longleftrightarrow> \<not> MessagingProject_IsBound project"
| "no_bound_project (EGotInfra k (Inl err)) \<longleftrightarrow> utilerrors_IsNotFound err \<or> utilerrors_IsNotBound err"
| "no_bound_project ev \<longleftrightarrow> False"

text \<open>An object is gone when it was deleted or not found.\<close>

fun gone :: "error option \<Rightarrow> bool" where
  "gone None \<longleftrightarrow> True"
| "gone (Some x) \<longleftrightarrow> k8errors_IsNotFound x"

fun service_gone :: "NamespacedName \<Rightarrow> endpoint_event \<Rightarrow> bool" where
  "service_gone k (EServiceDeleted k' err) \<longleftrightarrow> k' = k \<and> gone err"
| "service_gone k ev \<longleftrightarrow> False"

fun route_gone :: "NamespacedName \<Rightarrow> endpoint_event \<Rightarrow> bool" where
  "route_gone k (ERouteDeleted k' err) \<longleftrightarrow> k' = k \<and> gone err"
| "route_gone k ev \<longleftrightarrow> False"

fun ingress_gone :: "NamespacedName \<Rightarrow> endpoint_event \<Rightarrow> bool" where
  "ingress_gone k (EIngressDeleted k' err) \<longleftrightarrow> k' = k \<and> gone err"
| "ingress_gone k ev \<longleftrightarrow> False"

fun deletes_endpoint :: "MessagingInfrastructure \<Rightarrow> MessagingEndpoint \<Rightarrow> endpoint_event \<Rightarrow> bool" where
  "deletes_endpoint infra e (EDeleted i f None) \<longleftrightarrow> i = infra \<and> same_endpoint e f"
| "deletes_endpoint infra e ev \<longleftrightarrow> False"

fun deletes_cert :: "MessagingInfrastructure \<Rightarrow> MessagingEndpoint \<Rightarrow> endpoint_event \<Rightarrow> bool" where
  "deletes_cert infra e (ECertDeleted i f None) \<longleftrightarrow> i = infra \<and> same_endpoint e f"
| "deletes_cert infra e ev \<longleftrightarrow> False"

text \<open>What has been removed before the finalizer of an endpoint is released.\<close>

definition removed_from :: "MessagingInfrastructure \<Rightarrow> MessagingEndpoint \<Rightarrow> endpoint_event list \<Rightarrow> bool" where
  "removed_from infra e h \<longleftrightarrow> list_ex (deletes_endpoint infra e) h \<and> list_ex (deletes_cert infra e) h \<and>
     (let k = object_key infra (getServiceName e) in list_ex (service_gone k) h \<and>
        (es_Route (me_Spec e) \<noteq> None \<longrightarrow> list_ex (route_gone k) h) \<and> (es_Ingress (me_Spec e) \<noteq> None \<longrightarrow> list_ex (ingress_gone k) h))"

lemma objects_step:
  assumes "endpoint_ops_total ops" and "list_ex (deletes_endpoint infra e) h" and "list_ex (deletes_cert infra e) h" and "quiet h0 h"
  shows "wp (deconstruct_objects (endpoint_logged ops) infra e)
    (\<lambda>((res, err), e') (w', h'). quiet h0 h' \<and> e' = e \<and> res = Result0 \<and> (err = None \<longrightarrow> removed_from infra e h')) (w, h)"
  using assms(2-4) unfolding deconstruct_objects_def Let_def
  by (auto simp: wp_rules quiet_Cons removed_from_def Let_def split: option.splits if_splits intro!: endpoint_calls [OF assms(1)])

definition endpoint_released :: "MessagingEndpoint \<Rightarrow> endpoint_event list \<Rightarrow> bool" where
  "endpoint_released e h \<longleftrightarrow> list_ex no_bound_project h \<or> (\<exists>infra. removed_from infra e h)"

lemma released_unbound: "list_ex no_bound_project h \<Longrightarrow> endpoint_released e h"
  by (simp add: endpoint_released_def)

lemma deconstruct_endpoint_step:
  assumes total: "endpoint_ops_total ops"
  shows "wp (deconstruct_endpoint (endpoint_logged ops) e)
    (\<lambda>((res, err), e') (w', h'). quiet h h' \<and> e' = e \<and> res = Result0 \<and> (err = None \<longrightarrow> endpoint_released e h')) (w, h)"
proof -
  have objs: "wp (deconstruct_objects (endpoint_logged ops) infra e)
      (\<lambda>((res, err), e') (w', h'). quiet h h' \<and> e' = e \<and> res = Result0 \<and> (err = None \<longrightarrow> endpoint_released e h')) (w1, h1)"
    if "list_ex (deletes_endpoint infra e) h1" "list_ex (deletes_cert infra e) h1" "quiet h h1" for infra w1 h1
    by (rule wp_mono [OF objects_step [OF total that]]) (auto simp: endpoint_released_def)
  show ?thesis unfolding deconstruct_endpoint_def LookupInfra_def
    by (auto simp: wp_rules quiet_Cons released_unbound split: sum.splits prod.splits intro!: endpoint_calls [OF total] objs)
qed

text \<open>An update of the endpoint by the first step: it adds the finalizer, or it releases it.\<close>

definition lawful_endpoint_update :: "MessagingEndpoint \<Rightarrow> MessagingEndpoint \<Rightarrow> endpoint_event list \<Rightarrow> bool" where
  "lawful_endpoint_update e f h \<longleftrightarrow> same_endpoint e f \<and>
     (me_DeletionTimestamp e = None \<and> FINALIZER_NAME \<notin> set (me_Finalizers e) \<and> me_Finalizers f = me_Finalizers e @ [FINALIZER_NAME] \<or>
      me_DeletionTimestamp e \<noteq> None \<and> est_Phase (me_Status e) = Terminating \<and>
      me_Finalizers f = filter (\<lambda>x. x \<noteq> FINALIZER_NAME) (me_Finalizers e) \<and> endpoint_released e h)"

abbreviation endpoint_updated_last :: "MessagingEndpoint \<Rightarrow> error option \<Rightarrow> endpoint_event list \<Rightarrow> endpoint_event list \<Rightarrow> bool" where
  "endpoint_updated_last e err h h' \<equiv> \<exists>f x h1. grown h h1 \<and> lawful_endpoint_update e f h1 \<and> \<not> endpoint_updates h1 \<and>
     (err = None \<and> x = None \<and> h' = EUpdated f x # h1 \<or>
      err \<noteq> None \<and> (\<exists>c x'. h' = EStatusUpdated c x' # EUpdated f x # h1))"

lemma finalize_endpoint_step:
  assumes "endpoint_ops_total ops" and "\<not> endpoint_updates h"
  shows "wp (Process (endpoint_Status_Update (endpoint_logged ops)) (reconcileFinalizer (endpoint_logged ops)) r)
    (\<lambda>((res, err), r') (w', h'). (endpoint_updates h' \<longrightarrow> endpoint_updated_last (er_endpoint r) err h h') \<and>
      (err = None \<longrightarrow> pr_Return res \<longrightarrow> endpoint_updates h') \<and> (\<not> ShouldReturn res err \<longrightarrow> r' = r \<and> h' = h)) (w, h)"
  unfolding reconcileFinalizer_def wp_Process wp_bindp
proof (rule finalize_resource_rule [OF endpoint_resource_lawful _ _ _ _ refl refl], goal_cases)
  case 1
  then show ?case using assms
    by (auto simp: endpoint_resource_def endpoint_Status_Update_def wp_rules intro!: endpoint_calls)
next
  case 2
  then show ?case using assms by (auto simp: wp_rules)
next
  case 3
  then show ?case using assms
    by (auto simp: endpoint_resource_def endpoint_accessors_def endpoint_Status_Update_def wp_rules lawful_endpoint_update_def same_endpoint_def intro!: endpoint_calls)
next
  case 4
  note d = deconstruct_endpoint_step [OF assms(1), of "er_endpoint r" h w]
  show ?case
    by (rule wp_mono [OF d]) (use 4 assms in \<open>auto simp: quiet_def endpoint_resource_def endpoint_accessors_def endpoint_Status_Update_def wp_rules
      lawful_endpoint_update_def same_endpoint_def split: option.splits intro!: endpoint_calls\<close>)
qed

section \<open>Whole runs\<close>

lemma initialize_endpoint_fold [simp]:
  "est_Phase (fold (\<lambda>c s. snd (GetMessagingEndpointCondition t c s)) cs s) = est_Phase s"
  by (induction cs arbitrary: s) (simp_all add: GetMessagingEndpointCondition_def split: prod.split)

lemma initialize_endpoint_simps:
  "same_endpoint e (initialize_endpoint t e)"
  "me_DeletionTimestamp (initialize_endpoint t e) = me_DeletionTimestamp e" "me_Finalizers (initialize_endpoint t e) = me_Finalizers e"
  "est_Phase (me_Status (initialize_endpoint t e)) = (if est_Phase (me_Status e) = '''' then MessagingEndpointConfiguring else est_Phase (me_Status e))"
  by (simp_all add: initialize_endpoint_def same_endpoint_def)

lemma same_endpoint_deletes:
  assumes "same_endpoint e f"
  shows "deletes_endpoint infra e = deletes_endpoint infra f" and "deletes_cert infra e = deletes_cert infra f"
proof -
  show "deletes_endpoint infra e = deletes_endpoint infra f"
  proof
    show "deletes_endpoint infra e ev = deletes_endpoint infra f ev" for ev
      using assms by (cases "(infra, e, ev)" rule: deletes_endpoint.cases) (auto simp: same_endpoint_def)
  qed
  show "deletes_cert infra e = deletes_cert infra f"
  proof
    show "deletes_cert infra e ev = deletes_cert infra f ev" for ev
      using assms by (cases "(infra, e, ev)" rule: deletes_cert.cases) (auto simp: same_endpoint_def)
  qed
qed

lemma endpoint_released_cong: "same_endpoint e f \<Longrightarrow> endpoint_released e h = endpoint_released f h"
  using same_endpoint_deletes [of e f] getServiceName_cong [of e f]
  by (simp add: endpoint_released_def removed_from_def same_endpoint_def)

lemma lawful_endpoint_found:
  assumes "lawful_endpoint_update (initialize_endpoint t e) f h"
  shows "lawful_endpoint_update e f h"
  using assms initialize_endpoint_simps [where e = e and t = t] endpoint_released_cong [of e "initialize_endpoint t e" h]
  by (auto simp: lawful_endpoint_update_def same_endpoint_def Terminating_def MessagingEndpointConfiguring_def split: if_splits)

definition endpoint_post :: "NamespacedName \<Rightarrow> reconcile_Result \<times> error option \<Rightarrow> 'w \<times> endpoint_event list \<Rightarrow> bool" where
  "endpoint_post req = (\<lambda>(res, err) (w', h).
      (endpoint_updates h \<longrightarrow> (\<exists>found. endpoint_updated_last found err [EGot req (Inr found)] h)) \<and>
      (res = Result0 \<longrightarrow> err = None \<longrightarrow> endpoint_updates h \<or>
         (\<exists>e. EGot req (Inl e) \<in> set h \<and> k8errors_IsNotFound e) \<or> (\<exists>found. endpoint_active req found h)))"

lemma endpoint_post_again:
  assumes "\<not> endpoint_updates h" and "err = None \<longrightarrow> soon res"
  shows "endpoint_post req (processorResult_Result res, err) (w, h)"
  using assms by (auto simp: endpoint_post_def processorResult_Result_def Result0_def soon_def)

lemmas endpoint_then = staged_then [where up = is_endpoint_update and Post = "endpoint_post req" for req, OF _ endpoint_post_again]

lemma endpoint_last_step:
  assumes total: "endpoint_ops_total ops" and h: "\<not> endpoint_updates h" and r: "listening_run req infra e (er_endpoint r) h"
  shows "wp (and_return (Process (endpoint_Status_Update (endpoint_logged ops)) (complete_endpoint (endpoint_logged ops)) r)) (endpoint_post req) (w, h)"
  unfolding wp_and_return
proof (rule wp_mono [OF complete_endpoint_step [OF assms]], goal_cases)
  case (1 a wh')
  obtain res err r' w' h' where eqs: "a = ((res, err), r')" "wh' = (w', h')" by (metis prod.exhaust)
  then show ?case using 1 endpoint_post_again [of h' err res req w'] by (auto simp: endpoint_post_def)
qed

lemma endpoint_steps:
  assumes total: "endpoint_ops_total ops" and h: "\<not> endpoint_updates h" and r: "endpoint_run_of req e (er_endpoint r) h"
    and U: "U = endpoint_Status_Update (endpoint_logged ops)" and L: "L = endpoint_logged ops"
  shows "wp (and_then (Process U (endpoint_find_infra L) r) (\<lambda>r2.
    bindp (liftO (er_infra r2)) (\<lambda>infra.
    and_then (Process U (allocate_ports L infra) r2) (\<lambda>r3.
    and_then (Process U (report_endpoint L MessagingEndpointServiceCreated (reconcileEndpointService L infra)) r3) (\<lambda>r4.
    and_then (Process U (report_endpoint L MessagingEndpointConfiguredTls (reconcileEndpointTls L infra)) r4) (\<lambda>r5.
    and_then (Process U (sync_endpoint L infra) r5) (\<lambda>r6.
    and_return (Process U (complete_endpoint L) r6)))))))) (endpoint_post req) (w, h)"
  unfolding U L
proof (rule endpoint_then [OF stage_endpoint_infra [OF total h r]], assumption, assumption, elim conjE exE)
  fix r2 :: endpoint_run and w2 h2 infra
  assume r2: "endpoint_run_of req e (er_endpoint r2) h2" "er_infra r2 = Some infra" and h2: "\<not> endpoint_updates h2"
  show "wp (bindp (liftO (er_infra r2)) (\<lambda>infra.
    and_then (Process (endpoint_Status_Update (endpoint_logged ops)) (allocate_ports (endpoint_logged ops) infra) r2) (\<lambda>r3.
    and_then (Process (endpoint_Status_Update (endpoint_logged ops)) (report_endpoint (endpoint_logged ops) MessagingEndpointServiceCreated (reconcileEndpointService (endpoint_logged ops) infra)) r3) (\<lambda>r4.
    and_then (Process (endpoint_Status_Update (endpoint_logged ops)) (report_endpoint (endpoint_logged ops) MessagingEndpointConfiguredTls (reconcileEndpointTls (endpoint_logged ops) infra)) r4) (\<lambda>r5.
    and_then (Process (endpoint_Status_Update (endpoint_logged ops)) (sync_endpoint (endpoint_logged ops) infra) r5) (\<lambda>r6.
    and_return (Process (endpoint_Status_Update (endpoint_logged ops)) (complete_endpoint (endpoint_logged ops)) r6)))))))
    (endpoint_post req) (w2, h2)"
    unfolding r2(2) liftO_def option.case bindp_ret
    by (rule endpoint_then [OF stage_allocate [OF total h2 r2(1)]], assumption, assumption,
      rule endpoint_then [OF stage_service [OF total]], assumption, assumption, assumption, assumption,
      rule endpoint_then [OF stage_tls [OF total]], assumption, assumption, assumption, assumption,
      rule endpoint_then [OF stage_sync_endpoint [OF total]], assumption, assumption, assumption, assumption,
      rule endpoint_last_step [OF total])
qed

lemma endpoint_run_ok:
  assumes total: "endpoint_ops_total ops"
  shows "wp (endpoint_Reconcile (endpoint_logged ops) req) (endpoint_post req) (w, [])"
proof -
  let ?U = "endpoint_Status_Update (endpoint_logged ops)" and ?L = "endpoint_logged ops"
  have "wp (and_then (Process ?U (reconcileFinalizer ?L) \<lparr> er_endpoint = initialize_endpoint t e, er_infra = None \<rparr>) (\<lambda>r1.
      and_then (Process ?U (endpoint_find_infra ?L) r1) (\<lambda>r2.
      bindp (liftO (er_infra r2)) (\<lambda>infra.
      and_then (Process ?U (allocate_ports ?L infra) r2) (\<lambda>r3.
      and_then (Process ?U (report_endpoint ?L MessagingEndpointServiceCreated (reconcileEndpointService ?L infra)) r3) (\<lambda>r4.
      and_then (Process ?U (report_endpoint ?L MessagingEndpointConfiguredTls (reconcileEndpointTls ?L infra)) r4) (\<lambda>r5.
      and_then (Process ?U (sync_endpoint ?L infra) r5) (\<lambda>r6.
      and_return (Process ?U (complete_endpoint ?L) r6))))))))) (endpoint_post req) (w1, [EGot req (Inr e)])" for t e w1
    unfolding wp_and_then [of "Process _ (reconcileFinalizer _) _"]
  proof (rule wp_mono [OF finalize_endpoint_step [OF total]], simp, clarify, goal_cases)
    case (1 res err r1 w2 h2)
    show ?case
    proof (cases "ShouldReturn res err")
      case True
      have "endpoint_updates h2 \<longrightarrow> endpoint_updated_last e err [EGot req (Inr e)] h2"
        using 1(1) lawful_endpoint_found [of t e] by fastforce
      moreover have "err = None \<longrightarrow> \<not> endpoint_updates h2 \<longrightarrow> pr_Requeue res \<or> 0 < pr_RequeueAfter res"
        using 1(2) True by (auto simp: ShouldReturn_def)
      ultimately show ?thesis using True by (auto simp: endpoint_post_def processorResult_Result_def Result0_def)
    next
      case False
      have "endpoint_run_of req e (initialize_endpoint t e) [EGot req (Inr e)]"
        using initialize_endpoint_simps(1) [of e t] by (simp add: endpoint_run_of_def)
      then show ?thesis using False 1 endpoint_steps [OF total _ _ refl refl, of "[EGot req (Inr e)]" req e r1 w2] by simp
    qed
  qed
  then show ?thesis
    by (auto simp: endpoint_Reconcile_def wp_rules Let_def endpoint_post_def split: sum.split intro!: endpoint_calls [OF total])
qed

section \<open>Properties\<close>

text \<open>C13 (safety): a run of the endpoint controller never panics, whatever the Kubernetes API, the infrastructure client
  and the certificate controller answer. It writes the endpoint itself at most once, as the last thing but
  reporting a failure of that write, to add the finalizer to an endpoint that is not deleted, or to
  remove it from one that is marked as terminating. It removes it only after it has found that there is no project that is
  bound to an infrastructure, or after the infrastructure client has deleted the endpoint, its certificate has been
  deleted, and its service and, where it has one, its route and its ingress are gone.\<close>

theorem endpoint_finalizer_released:
  assumes "endpoint_ops_total ops"
  shows "\<exists>res err w' h. endpoint_Reconcile (endpoint_logged ops) req (w, []) = Some ((res, err), w', h) \<and>
    (endpoint_updates h \<longrightarrow> (\<exists>found f x h1. EGot req (Inr found) \<in> set h1 \<and> \<not> endpoint_updates h1 \<and> lawful_endpoint_update found f h1 \<and>
       (err = None \<and> x = None \<and> h = EUpdated f x # h1 \<or> err \<noteq> None \<and> (\<exists>c x'. h = EStatusUpdated c x' # EUpdated f x # h1))))"
proof -
  obtain res err w' h where run: "endpoint_Reconcile (endpoint_logged ops) req (w, []) = Some ((res, err), w', h)"
    and post: "endpoint_post req (res, err) (w', h)"
    using endpoint_run_ok [OF assms, of req w] by (auto simp: wp_def)
  have "grown [EGot req (Inr found)] h1 \<Longrightarrow> EGot req (Inr found) \<in> set h1" for found h1 by (auto simp: grown_def)
  then show ?thesis using run post unfolding endpoint_post_def by fastforce
qed

text \<open>C6 (functional): when a run of the endpoint controller ends without an error and without asking for another run, the
  endpoint does not exist, or it has been written with a changed list of finalizers, or its status has been written as active. In
  the last case it has a host name and at least one protocol; the internal ports of its status are those that the
  infrastructure client allocated for its protocols; its service has been brought up to date with these ports; the
  ports of its status are those that the service was found to offer, or those of routes and ingresses; its certificate is
  in place, or no protocol needs one; and the infrastructure client has configured the endpoint.\<close>

theorem endpoint_done:
  assumes "endpoint_ops_total ops"
    and "endpoint_Reconcile (endpoint_logged ops) req (w, []) = Some ((Result0, None), w', h)"
  shows "(\<exists>e. EGot req (Inl e) \<in> set h \<and> k8errors_IsNotFound e) \<or> (\<exists>f h1. h = EUpdated f None # h1) \<or>
    (\<exists>found b infra h1. h = EStatusUpdated b None # h1 \<and> EGot req (Inr found) \<in> set h1 \<and> same_endpoint found b \<and>
       est_Phase (me_Status b) = MessagingEndpointActive \<and> est_Host (me_Status b) \<noteq> '''' \<and> es_Protocols (me_Spec b) \<noteq> [] \<and>
       EAllocated infra (es_Protocols (me_Spec b)) (None, est_InternalPorts (me_Status b)) \<in> set h1 \<and>
       service_applied infra b h1 \<and> ports_reported infra b h1 \<and> tls_configured infra b h1 \<and> list_ex (syncs_endpoint infra found) h1)"
proof -
  have "endpoint_post req (Result0, None) (w', h)"
    using wp_run [OF endpoint_run_ok [OF assms(1)] assms(2)] .
  moreover have "\<exists>found. endpoint_updated_last found None [EGot req (Inr found)] h \<Longrightarrow> \<exists>f h1. h = EUpdated f None # h1"
    by auto
  ultimately consider "\<exists>f h1. h = EUpdated f None # h1"
    | "\<exists>e. EGot req (Inl e) \<in> set h \<and> k8errors_IsNotFound e" | found where "endpoint_active req found h"
    unfolding endpoint_post_def by auto
  then show ?thesis
  proof cases
    case (3 found)
    then show ?thesis
      unfolding endpoint_active_def listening_run_def secured_run_def served_run_def allocated_run_def endpoint_run_of_def same_endpoint_def
      by fastforce
  qed blast+
qed

text \<open>C20 (functional): bringing the service of an endpoint up to date keeps the ports that it has, in place and unchanged, and
  appends new ones. Afterwards every internal port of a known protocol has a port of the service under the name of
  its protocol. Every new port leads to an internal port of the endpoint, and no two ports have the same name if none
  had before.\<close>

theorem service_offers:
  assumes "p \<in> set (est_InternalPorts (me_Status e))" and "known_protocol (ep_Protocol p)" and "distinct (map sp_Name (svc_Ports s))"
  shows "\<exists>new. svc_Ports (mutate_service infra e s) = svc_Ports s @ new \<and>
    distinct (map sp_Name (svc_Ports s @ new)) \<and>
    (\<exists>sp \<in> set (svc_Ports s @ new). sp_Name sp = protocolToPortName (ep_Protocol p)) \<and>
    (\<forall>sp \<in> set new. \<exists>q \<in> set (est_InternalPorts (me_Status e)). sp_Name sp = protocolToPortName (ep_Protocol q) \<and> sp_TargetPort sp = ep_Port q)"
proof -
  let ?ps = "est_InternalPorts (me_Status e)"
  have eq: "svc_Ports (mutate_service infra e s) = add_service_ports ?ps (svc_Ports s)"
    by (simp add: mutate_service_def ApplyServiceDefaults_def Let_def)
  obtain new where new: "add_service_ports ?ps (svc_Ports s) = svc_Ports s @ new"
    "\<forall>sp \<in> set new. sp_Name sp \<notin> sp_Name ` set (svc_Ports s) \<and> (\<exists>q \<in> set ?ps. service_port q = Some sp)" "distinct (map sp_Name new)"
    using add_service_ports_keeps [of ?ps "svc_Ports s"] by (elim exE conjE) (rule that)
  have "\<forall>sp \<in> set new. \<exists>q \<in> set ?ps. sp_Name sp = protocolToPortName (ep_Protocol q) \<and> sp_TargetPort sp = ep_Port q"
    using new(2) service_port_fields by blast
  moreover have "distinct (map sp_Name (svc_Ports s @ new))"
  proof -
    have "n \<notin> sp_Name ` set (svc_Ports s)" if "n \<in> sp_Name ` set new" for n
      using that bspec [OF new(2)] by (elim imageE) simp
    then have "sp_Name ` set (svc_Ports s) \<inter> sp_Name ` set new = {}" by (intro equals0I) (elim IntE, simp)
    then show ?thesis using new(3) assms(3) by simp
  qed
  moreover have "\<exists>sp \<in> set (svc_Ports s @ new). sp_Name sp = protocolToPortName (ep_Protocol p)"
    using add_service_ports_covers [OF assms(1,2), of "svc_Ports s"] unfolding new(1) .
  ultimately show ?thesis unfolding eq new(1) by (intro exI [of _ new] conjI refl)
qed

text \<open>The service offers the protocol AMQP over secure web sockets at port 433, where the controller itself gives
  443 as the port of the protocol behind a route or an ingress.\<close>

theorem wss_service_port:
  "map sp_Port (svc_Ports (mutate_service infra (set_internal_ports
      [\<lparr> ep_Name = n, ep_Protocol = MessagingProtocolAMQPWSS, ep_Port = q \<rparr>] e) (s\<lparr>svc_Ports := []\<rparr>))) = [433] \<and>
   map ep_Port (external_status_ports [MessagingProtocolAMQPWSS]) = [443]"
  by (simp add: mutate_service_def ApplyServiceDefaults_def service_port_def external_status_ports_def protocol_defs Let_def)

end
