(* ===== verification/Endpoint_Fake.thy ===== *)
theory Endpoint_Fake
  imports Endpoint_Runs
begin

text \<open>
  Concrete runs of the endpoint controller: instances of the general statements, two endpoints that
  share a service, and a condition that is set too early.
\<close>

definition amqp_service :: Service where
  "amqp_service = \<lparr> svc_Labels = [], svc_Annotations = [], svc_Type = ''ClusterIP'', svc_Selector = [],
     svc_Ports = [\<lparr> sp_Name = ''amqp'', sp_Port = 5672, sp_Protocol = ''TCP'', sp_TargetPort = 40000, sp_NodePort = 0 \<rparr>], svc_LoadBalancer = [] \<rparr>"

definition amqp_port :: "int \<Rightarrow> MessagingEndpointPort" where
  "amqp_port n = \<lparr> ep_Name = ''n-e-AMQP'', ep_Protocol = MessagingProtocolAMQP, ep_Port = n \<rparr>"

definition cluster_endpoint :: "string \<Rightarrow> string \<Rightarrow> time option \<Rightarrow> string \<Rightarrow> int \<Rightarrow> MessagingEndpoint" where
  "cluster_endpoint ns name deletion phase port = \<lparr> me_Name = name, me_Namespace = ns, me_DeletionTimestamp = deletion, me_Finalizers = [FINALIZER_NAME],
     me_Spec = \<lparr> es_Tls = None, es_Annotations = [], es_Protocols = [MessagingProtocolAMQP], es_Host = None, es_Cluster = Some (), es_Ingress = None,
       es_Route = None, es_NodePort = None, es_LoadBalancer = None \<rparr>,
     me_Status = \<lparr> est_Phase = phase, est_Type = '''', est_Message = '''', est_Conditions = [], est_Host = '''', est_Ports = [], est_Tls = None,
       est_InternalPorts = [amqp_port port] \<rparr> \<rparr>"

definition endpoint_project :: MessagingProject where
  "endpoint_project = \<lparr> mp_Name = ''default'', mp_Namespace = ''n'', mp_DeletionTimestamp = None, mp_Finalizers = [],
     mp_Spec = \<lparr> ps_MessagingInfrastructureRef = None, ps_Capabilities = [] \<rparr>,
     mp_Status = \<lparr> pst_Phase = ''Active'', pst_Message = '''', pst_MessagingInfrastructureRef = \<lparr> ref_Name = ''i'', ref_Namespace = ''infra'' \<rparr>,
       pst_Conditions = [], pst_Capabilities = [], pst_Broker = None \<rparr> \<rparr>"

definition endpoint_infra :: MessagingInfrastructure where
  "endpoint_infra = \<lparr> mi_Name = ''i'', mi_Namespace = ''infra'', mi_DeletionTimestamp = None, mi_Finalizers = [], mi_NamespaceSelector = None,
     mi_Status = \<lparr> ist_Phase = ''Active'', ist_Message = '''', ist_Conditions = [], ist_Routers = [], ist_Brokers = [] \<rparr> \<rparr>"

definition endpoint_api :: "MessagingEndpoint \<Rightarrow> unit endpoint_ops" where
  "endpoint_api e =
     \<lparr> eo_now = (\<lambda>w. 7), eo_IsOpenshift = False, eo_GetCertInfo = (\<lambda>c k. Inl (Errorf ''no certificate'')),
       eo_reader_Get = (\<lambda>k. ret (Inr e)), eo_Get_project = (\<lambda>k. ret (Inr endpoint_project)), eo_Get_infra = (\<lambda>k. ret (Inr endpoint_infra)),
       eo_Status_Update = (\<lambda>f. ret (None, f)), eo_Update = (\<lambda>f. ret (None, f)),
       eo_AllocatePorts = (\<lambda>i f ps. ret (None, est_InternalPorts (me_Status f))), eo_FreePorts = (\<lambda>i f. ret []),
       eo_SyncEndpoint = (\<lambda>i f. ret None), eo_DeleteEndpoint = (\<lambda>i f. ret None),
       eo_ReconcileEndpointCert = (\<lambda>i f. ret (Inr (0, 1))), eo_ReconcileEndpointCertFromValues = (\<lambda>i f k c. ret None),
       eo_DeleteEndpointCert = (\<lambda>i f. ret None), eo_Get_secret = (\<lambda>k. ret (Inr [])),
       eo_Apply_service = (\<lambda>k f. ret None), eo_Get_service = (\<lambda>k. ret (Inr amqp_service)), eo_Delete_service = (\<lambda>k. ret None),
       eo_Apply_route = (\<lambda>k f. ret None), eo_Get_route = (\<lambda>k. ret (Inl (StatusNotFound ''route''))), eo_Update_route = (\<lambda>k ro. ret None),
       eo_Delete_route = (\<lambda>k. ret None), eo_Apply_ingress = (\<lambda>k f. ret None), eo_Delete_ingress = (\<lambda>k. ret None) \<rparr>"

lemma endpoint_api_total: "endpoint_ops_total (endpoint_api e)"
  by (simp add: endpoint_ops_total_def endpoint_api_def total_def)

definition e_request :: NamespacedName where
  "e_request = \<lparr> nn_Namespace = ''n'', nn_Name = ''e'' \<rparr>"

lemma endpoint_unchanged: "e = e\<lparr>me_Finalizers := xs\<rparr> \<longleftrightarrow> me_Finalizers e = xs"
  by (cases e) auto

lemma initialize_ports: "est_InternalPorts (fold (\<lambda>c s. snd (GetMessagingEndpointCondition t c s)) cs s) = est_InternalPorts s"
  by (induction cs arbitrary: s) (simp_all add: GetMessagingEndpointCondition_def split: prod.split)

lemma initialize_endpoint_same [simp]:
  "me_Name (initialize_endpoint t e) = me_Name e" "me_Namespace (initialize_endpoint t e) = me_Namespace e" "me_Spec (initialize_endpoint t e) = me_Spec e"
  "est_InternalPorts (me_Status (initialize_endpoint t e)) = est_InternalPorts (me_Status e)"
  using initialize_endpoint_simps(1) [of e t] by (simp_all add: same_endpoint_def initialize_endpoint_def initialize_ports)

lemmas endpoint_run_defs = endpoint_Reconcile_def reconcileFinalizer_def finalize_resource_def endpoint_resource_def endpoint_accessors_def
  ProcessFinalizers_def deconstruct_def deconstruct_endpoint_def deconstruct_objects_def delete_object_def LookupInfra_def endpoint_find_infra_def
  allocate_ports_def report_endpoint_def reconcileEndpointService_def or_return_def or_fail_def endpoint_host_def reconcileEndpointPorts_def
  reconcileEndpointTls_def needs_tls_def sync_endpoint_def complete_endpoint_def endpoint_now_def endpoint_Status_Update_def Process_def and_then_def
  and_return_def endpoint_logged_def logged_def initialize_endpoint_simps endpoint_unchanged endpoint_api_def cluster_endpoint_def
  endpoint_project_def endpoint_infra_def amqp_service_def MessagingProject_IsBound_def bindp_def liftO_def Let_def result_defs ShouldReturn_def
  processorResult_Result_def e_request_def infra_ref_def protocol_defs portNameToProtocol_def getServiceName_def

section \<open>Instances\<close>

theorem endpoint_done_witness:
  "\<exists>w' b infra h1. endpoint_Reconcile (endpoint_logged (endpoint_api (cluster_endpoint ''n'' ''e'' None '''' 40000))) e_request ((), [])
     = Some ((Result0, None), w', EStatusUpdated b None # h1) \<and> est_Phase (me_Status b) = MessagingEndpointActive \<and>
       ports_reported infra b h1 \<and> tls_configured infra b h1"
proof -
  let ?e = "cluster_endpoint ''n'' ''e'' None '''' 40000"
  let ?run = "endpoint_Reconcile (endpoint_logged (endpoint_api ?e)) e_request ((), [])"
  have "\<exists>b h. ?run = Some ((Result0, None), (), EStatusUpdated b None # h) \<and> (\<forall>x. EGot e_request (Inl x) \<notin> set h)"
    by (simp add: endpoint_run_defs FINALIZER_NAME_def)
  then obtain b h where run: "?run = Some ((Result0, None), (), EStatusUpdated b None # h)"
    and got: "\<forall>x. EGot e_request (Inl x) \<notin> set h" by (elim exE conjE) (rule that)
  from endpoint_done [OF endpoint_api_total run] got
  obtain infra where "est_Phase (me_Status b) = MessagingEndpointActive" "ports_reported infra b h" "tls_configured infra b h" by auto
  with run show ?thesis by blast
qed

theorem endpoint_finalizer_released_witness:
  "\<exists>f w' h1. endpoint_Reconcile (endpoint_logged (endpoint_api (cluster_endpoint ''n'' ''e'' (Some 1) Terminating 40000))) e_request ((), [])
     = Some ((Result0, None), w', EUpdated f None # h1) \<and>
     lawful_endpoint_update (cluster_endpoint ''n'' ''e'' (Some 1) Terminating 40000) f h1 \<and> me_Finalizers f = []"
proof -
  let ?e = "cluster_endpoint ''n'' ''e'' (Some 1) Terminating 40000"
  let ?run = "endpoint_Reconcile (endpoint_logged (endpoint_api ?e)) e_request ((), [])"
  have "\<exists>f h. ?run = Some ((Result0, None), (), EUpdated f None # h) \<and> me_Finalizers f = [] \<and> (\<forall>g. EGot e_request (Inr g) \<in> set h \<longrightarrow> g = ?e)"
    by (simp add: endpoint_run_defs FINALIZER_NAME_def Terminating_def)
  then obtain f h where run: "?run = Some ((Result0, None), (), EUpdated f None # h)" and rel: "me_Finalizers f = []"
    and got: "\<forall>g. EGot e_request (Inr g) \<in> set h \<longrightarrow> g = ?e" by (elim exE conjE) (rule that)
  have "endpoint_updates (EUpdated f None # h)" by simp
  with endpoint_finalizer_released [OF endpoint_api_total, of ?e e_request "()"] run got
  have "lawful_endpoint_update ?e f h" by auto
  with run rel show ?thesis by blast
qed

theorem service_offers_witness:
  "\<exists>new. svc_Ports (mutate_service endpoint_infra (cluster_endpoint ''n'' ''e'' None '''' 40001) amqp_service) = svc_Ports amqp_service @ new \<and>
     (\<exists>sp \<in> set (svc_Ports amqp_service @ new). sp_Name sp = ''amqp'')"
proof -
  let ?e = "cluster_endpoint ''n'' ''e'' None '''' 40001"
  have "amqp_port 40001 \<in> set (est_InternalPorts (me_Status ?e))" "known_protocol (ep_Protocol (amqp_port 40001))"
    and "distinct (map sp_Name (svc_Ports amqp_service))" and "protocolToPortName (ep_Protocol (amqp_port 40001)) = ''amqp''"
    by (simp_all add: cluster_endpoint_def amqp_port_def known_protocol_def amqp_service_def protocolToPortName_def)
  with service_offers [OF this(1-3), of endpoint_infra] show ?thesis by auto
qed

section \<open>Endpoints that share a service\<close>


section \<open>A condition that is set too early\<close>

lemma getCondition_place: "getCondition now t cs = (i, cs') \<Longrightarrow> i < length cs' \<and> cond_Type (cs' ! i) = t"
  by (auto simp: getCondition_def dest: cond_index_Some split: option.splits)

lemma endpoint_SetStatus_sets:
  "\<exists>c \<in> set (est_Conditions (me_Status (endpoint_SetStatus now t status m e))). cond_Type c = t \<and> cond_Status c = status"
proof -
  obtain i cs where g: "getCondition now t (est_Conditions (me_Status e)) = (i, cs)" by (cases "getCondition now t (est_Conditions (me_Status e))")
  have "Condition_SetStatus now status '''' m (cs ! i) \<in> set (cs[i := Condition_SetStatus now status '''' m (cs ! i)])"
    using getCondition_place [OF g] by (simp add: set_update_memI)
  moreover have "cond_Type (Condition_SetStatus now status '''' m c) = cond_Type c \<and> cond_Status (Condition_SetStatus now status '''' m c) = status" for c
    by (simp add: Condition_SetStatus_def)
  ultimately show ?thesis using g getCondition_place [OF g]
    by (intro bexI [of _ "Condition_SetStatus now status '''' m (cs ! i)"])
      (simp_all add: endpoint_SetStatus_def GetMessagingEndpointCondition_def)
qed

lemma est_Tls_kept: "est_Tls (me_Status (endpoint_SetStatus now t status m e)) = est_Tls (me_Status e)"
  "est_Tls (fold (\<lambda>c s. snd (GetMessagingEndpointCondition now c s)) cs s) = est_Tls s"
  by (simp add: endpoint_SetStatus_def GetMessagingEndpointCondition_def split: prod.split)
    (induction cs arbitrary: s, simp_all add: GetMessagingEndpointCondition_def split: prod.split)

lemma est_Tls_initialized: "est_Tls (me_Status (initialize_endpoint t e)) = est_Tls (me_Status e)"
  by (simp add: initialize_endpoint_def est_Tls_kept)

definition waiting_endpoint :: MessagingEndpoint where
  "waiting_endpoint = (let e = cluster_endpoint ''n'' ''e'' None '''' 40000 in
     e\<lparr>me_Spec := (me_Spec e)\<lparr>es_Cluster := None, es_LoadBalancer := Some (),
        es_Tls := Some \<lparr> tls_Protocols = None, tls_Ciphers = None, tls_Selfsigned = Some (), tls_Openshift = None, tls_External = None \<rparr>\<rparr>\<rparr>)"


end
