(* ===== verification/Spec2Isabelle.thy ===== *)
theory Spec2Isabelle
  imports Infra_Run Infra_Stop Filter_Sort Address_Fake Project_Fake Infra_Control_Fake Endpoint_Fake
begin

text \<open>
  A verification of the messaging operator of EnMasse: the controllers of its four messaging resources
  (\<open>src/pkg/controller/messaging*\<close>), the client through which they configure an infrastructure
  (\<open>src/pkg/state\<close>), and the filter expressions of the queries of its console
  (\<open>src/pkg/consolegraphql/filter\<close>).

  \<^bold>\<open>The parts and how they work together.\<close> An infrastructure is a set of router pods and broker pods. Users create
  projects, endpoints and addresses in their namespaces. For each kind of resource a controller is run again and again
  on a resource until it has nothing more to do. A run reads the resource, takes a number of steps, writes the
  status of the resource and returns when it wants to be run again. The steps call the client of an infrastructure,
  one per infrastructure, which a manager owns. The client remembers the projects, endpoints and addresses, translates them into
  router and broker entities, and has the states of the routers and brokers create and delete these by management
  requests over AMQP. The state of a node keeps a cache of the entities of the node. Two goroutines of the client
  collect requests of the controllers and work on them in batches.

  \<^bold>\<open>Conventions\<close> (\<open>Prelude\<close>). A computation maps a world to \<open>Some\<close> result and world; \<open>None\<close> is a panic.
  The world is a type variable: the statements hold for every behaviour of the code outside. Errors are values. Go maps that the
  code ranges over are association lists in the order of the visit, and statements hold for every order. A group of
  goroutines runs in the order that an arbitrary scheduler picks. Nothing is bounded by fuel: all loops are
  structural recursions, and the repeated runs of a loop or of a controller are sequences of steps.

  \<^bold>\<open>Nodes\<close> (\<open>src/pkg/state/broker\<close>, \<open>src/pkg/state/router\<close>, \<open>src/pkg/amqpcommand\<close>).
  \<^item> \<open>Amqp\<close>: management messages and the command client, a parameter of everything that sends requests.
  \<^item> \<open>EntityStore\<close>: the cache of entities by type and name; the locale \<open>entity_kind\<close> has the facts that
    broker and router entities share, and \<open>Broker\<close> and \<open>Router\<close> interpret it.
  \<^item> \<open>Broker\<close>, \<open>Router\<close>: the entities with their names, order of creation, comparison and
    messages (\<open>types.go\<close>, and the \<open>Create\<close>, \<open>Delete\<close>, \<open>Encode\<close> and \<open>Decode\<close> functions), with the round trip of
    the encoding of router entities.
  \<^item> \<open>Broker_State\<close>, \<open>Router_State\<close>: \<open>Initialize\<close>, \<open>EnsureEntities\<close>, \<open>DeleteEntities\<close> and \<open>Reset\<close>. No call
    panics and the cache stays well formed; the cache of a broker holds only entities that the broker has, also
    after failed requests; entities are created and deleted in their order; a second call for the same entities
    sends nothing.
  \<^item> \<open>Broker_Fake\<close>, \<open>Router_Fake\<close>: concrete nodes, on which the general statements are evaluated.

  \<^bold>\<open>The client of an infrastructure\<close> (\<open>src/pkg/state/infra.go\<close>, \<open>manager.go\<close>, \<open>scheduler/dummy.go\<close>).
  \<^item> \<open>Resources\<close>: the resource types of \<open>src/pkg/apis/enmasse/v1\<close> with their conditions.
  \<^item> \<open>Infra\<close>: the record of the client; the locales \<open>node_op\<close>, \<open>node_result\<close> and \<open>node_post\<close> state what the
    client relies on when it calls all nodes, and are interpreted on the operations of the node states.
  \<^item> \<open>Infra_Hosts\<close>, \<open>Infra_Init\<close>, \<open>Infra_Ports\<close>: the set of nodes (\<open>updateRouters\<close>, \<open>updateBrokers\<close>,
    \<open>DeleteBroker\<close>), their initialization and resynchronization, the placement of addresses and projects, the port table.
  \<^item> \<open>Infra_Build\<close>: the translation of resources into entities (\<open>buildEntities\<close> and what it calls), with the
    agreement of the router and broker sides of a queue and the listeners of an endpoint.
  \<^item> \<open>Infra_Sync\<close>, \<open>Infra_Batch\<close>, \<open>Infra_Known\<close>: the batches \<open>doSync\<close> and \<open>doDelete\<close>. Every request
    is answered once; what is answered without an error is configured on all nodes and remembered, or forgotten; every
    remembered address keeps its project; a batch of deletions panics in exactly one situation.
  \<^item> \<open>Infra_SyncAll\<close>: \<open>SyncAll\<close> never panics, and when it succeeds every wanted node exists once and holds everything
    that is remembered, with one connector status for every router and broker.
  \<^item> \<open>Infra_Run\<close>: the states that a new client reaches through complete calls (every method takes the lock), the
    invariant of these states, and a run of successful calls after which a deletion panics. \<open>Infra_Fake\<close>: a concrete client.
  \<^item> \<open>Infra_Stop\<close>: the two goroutines, the lock and the channels as a step relation: when \<open>Shutdown\<close> can complete. The manager.

  \<^bold>\<open>The controllers.\<close> Each calls the Kubernetes API, the client and the controllers of certificates and pods, all
  of them parameters: the fields of a record of operations. The only hypothesis is that a call returns. A second record logs the
  calls, newest first, and the statements are about the log of a run.
  \<^item> \<open>Reconcile\<close>: what the controllers share: the steps of a run (\<open>processorResult\<close>, \<open>Process\<close>), \<open>LookupInfra\<close>,
    pointers into a growing list of conditions; weakest preconditions of computations, and the rules that compose steps.
  \<^item> \<open>Finalizer\<close>: \<open>ProcessFinalizers\<close> (\<open>src/pkg/util/finalizer\<close>) on any resource, and the step of a run that uses
    it. Repeated runs on a deleted resource remove the finalizers one by one and end.
  \<^item> \<open>Address_Controller\<close>, \<open>Project_Controller\<close>, \<open>Infra_Controller\<close>, \<open>Endpoint_Controller\<close>: one definition for each
    step, named after what the step does, and \<open>*_Reconcile\<close> for the run. \<open>Endpoint_Objects\<close>: the services, routes and
    ingresses that the endpoint controller fills.
  \<^item> \<open>Address_Steps\<close>, \<open>Address_Runs\<close>, \<open>Project_Runs\<close>, \<open>Infra_Control_Runs\<close>, \<open>Endpoint_Runs\<close>: for each
    controller that a run never panics; when it may write the resource itself and what must have happened
    before it removes its finalizer; and what has happened when it has nothing more to do, down to the
    calls of the client that succeeded.
  \<^item> \<open>Address_Fake\<close>, \<open>Project_Fake\<close>, \<open>Infra_Control_Fake\<close>, \<open>Endpoint_Fake\<close>: concrete runs, as instances of the general
    statements, and runs that show deviations: lost conditions, a missing project that is reported as
    found, a terminating address that is configured again, a service that two endpoints share.
  \<^item> This theory: the infrastructure controller on top of the client.

  \<^bold>\<open>Filter expressions\<close> (\<open>src/pkg/consolegraphql/filter/support.go\<close>).
  \<^item> \<open>Filter_Values\<close>: the values with their Go types, numeric promotion and comparison, at the width of the types.
    \<open>Filter_Like\<close>: \<open>LIKE\<close> through a regular expression, with the equivalence to a direct definition of matching.
  \<^item> \<open>Filter_Expr\<close>: evaluation of conditions, which never panics and follows a two-valued reference logic; where the
    comparison of integers of different types is the comparison of numbers.
  \<^item> \<open>Filter_Sort\<close>: sorting by several keys gives a stable, sorted permutation; the locale \<open>weak_order\<close> is what
    \<open>sort.SliceStable\<close> asks of its function, interpreted on the comparison of rows. The library function is modelled as
    its insertion sort; the merging of blocks beyond twenty elements gives the same, unique stable result.

  \<^bold>\<open>Not modelled.\<close> The AMQP library, the Kubernetes API and the JSON path library are parameters. The controllers of
  certificates and of router and broker pods fill large Kubernetes objects and call crypto libraries; the infrastructure
  controller sees only the results, so they are parameters. Registration of the controllers and their watches, logging,
  events and metrics have no effect on what is stated. The lexer and parser of filter expressions are generated. The
  controllers of IoT and of the console service, the rest of the console server, the Keycloak client, the programs under
  \<open>src/cmd\<close>, generated clients and deep copies, and the modules in Java and TypeScript are other programs or pure input and
  output. Time is read through a clock parameter. The interleaving inside a locked method is not modelled, except for the order of
  goroutine groups; the lock itself is, in \<open>Infra_Stop\<close>.
\<close>

section \<open>The controller on top of the client\<close>

text \<open>The world of the infrastructure controller with the client in it: the call of \<open>SyncAll\<close> of the controller is
  \<open>SyncAll\<close> of the client, on the state of the client.\<close>

definition client_SyncAll ::
  "'w sched \<Rightarrow> 'w rand \<Rightarrow> Host list \<Rightarrow> Host list \<Rightarrow> TlsConfig \<Rightarrow> ('w infraClient \<times> 'w, error + ConnectorStatus list) prog" where
  "client_SyncAll sched rand routers brokers tls =
     (\<lambda>(i, w). case SyncAll sched rand routers brokers (Some tls) i w of
        None \<Rightarrow> None
      | Some ((res, i'), w') \<Rightarrow> Some (res, i', w'))"

lemma client_SyncAll_ok:
  assumes "hosts_ok i" and "factories_ok i" and "resources_ok i" and "rand_ok rand"
    and "distinct (map Hostname routers)" and "distinct (map Hostname brokers)"
  shows "\<exists>res i' w'. client_SyncAll sched rand routers brokers tls (i, w) = Some (res, i', w') \<and>
    hosts_ok i' \<and> resources_ok i' \<and>
    (case res of Inl err \<Rightarrow> True
     | Inr sts \<Rightarrow> synced i' \<and> gm_keys (ic_routers i') = set routers \<and> gm_keys (ic_brokers i') = set brokers \<and>
         length sts = length routers * length brokers)"
proof -
  have card: "card (set hosts) = length hosts" if "distinct (map Hostname hosts)" for hosts
    using that by (simp add: distinct_map distinct_card)
  from SyncAll_ok [OF assms(1-4), of sched routers brokers "Some tls" w] obtain res i' w' where
    "SyncAll sched rand routers brokers (Some tls) i w = Some ((res, i'), w')" "hosts_ok i'" "resources_ok i'"
    "case res of Inl err \<Rightarrow> ic_initialized i' = ic_initialized i
     | Inr sts \<Rightarrow> ic_initialized i' \<and> synced i' \<and>
         gm_keys (ic_routers i') = wanted_set routers \<and> gm_keys (ic_brokers i') = wanted_set brokers \<and>
         length sts = card (wanted_set routers) * card (wanted_set brokers)"
    by (elim exE conjE) (rule that)
  then show ?thesis
    by (auto simp: client_SyncAll_def wanted_distinct [OF assms(5)] wanted_distinct [OF assms(6)] card [OF assms(5)] card [OF assms(6)]
        split: sum.splits)
qed

text \<open>A complete list of connectors stops a run of the controller only through one that is not connected.\<close>

lemma check_connected_complete:
  assumes "length (ir_connectorStatuses r) = length (ir_runningRouters r) * length (ir_runningBrokers r)"
  shows "\<exists>out r'. check_connected ops r w = Some (((out, None), r'), w) \<and>
    (ShouldReturn out None \<longleftrightarrow> (\<exists>st \<in> set (ir_connectorStatuses r). \<not> cst_Connected st))"
proof (cases "List.find (\<lambda>st. \<not> cst_Connected st) (ir_connectorStatuses r)")
  case None
  then have "\<forall>st \<in> set (ir_connectorStatuses r). cst_Connected st" by (simp add: find_None_iff)
  with assms None show ?thesis
    by (simp add: check_connected_def infra_succeeded_def infra_now_def bindp_def ret_def Let_def ShouldReturn_def processed_def)
next
  case (Some st)
  then have "st \<in> set (ir_connectorStatuses r)" "\<not> cst_Connected st" by (auto simp: find_Some_iff)
  with assms Some show ?thesis
    by (auto simp: check_connected_def not_connected_def infra_now_def bindp_def ret_def Let_def ShouldReturn_def requeue_after_def processed_def)
qed

text \<open>C14 (functional): the infrastructure controller on top of the client. In any well-formed state of the client and for pods with
  different host names, the step that configures the pods returns. When it lets the run go on, the client knows
  exactly the running pods and has configured them with everything it remembers, and there is a connector status for every pair
  of a router and a broker; so the next step does not find the connectors incomplete, and stops the run exactly when one of
  them is not connected.\<close>

theorem infra_on_client:
  assumes "hosts_ok i" and "factories_ok i" and "resources_ok i" and "rand_ok rand"
    and "distinct (map Hostname (ir_runningRouters r))" and "distinct (map Hostname (ir_runningBrokers r))"
    and "\<And>infra. io_SyncAll ops infra = client_SyncAll sched rand"
  shows "\<exists>out err r' i' w'. sync_infra ops r (i, w) = Some (((out, err), r'), i', w') \<and> hosts_ok i' \<and> resources_ok i' \<and>
    (\<not> ShouldReturn out err \<longrightarrow> synced i' \<and> gm_keys (ic_routers i') = set (ir_runningRouters r) \<and>
       gm_keys (ic_brokers i') = set (ir_runningBrokers r) \<and>
       (\<exists>out' r''. check_connected ops r' (i', w') = Some (((out', None), r''), i', w') \<and>
          (ShouldReturn out' None \<longleftrightarrow> (\<exists>st \<in> set (ir_connectorStatuses r'). \<not> cst_Connected st))))"
proof -
  obtain res i' w' where call: "client_SyncAll sched rand (ir_runningRouters r) (ir_runningBrokers r) (run_tls r) (i, w) = Some (res, i', w')"
    and ok: "hosts_ok i'" "resources_ok i'" and
    res: "case res of Inl err \<Rightarrow> True
     | Inr sts \<Rightarrow> synced i' \<and> gm_keys (ic_routers i') = set (ir_runningRouters r) \<and> gm_keys (ic_brokers i') = set (ir_runningBrokers r) \<and>
         length sts = length (ir_runningRouters r) * length (ir_runningBrokers r)"
    using client_SyncAll_ok [OF assms(1-6), of sched "run_tls r" w] by (elim exE conjE) (rule that)
  show ?thesis
  proof (cases res)
    case (Inl err)
    with call ok show ?thesis
      by (simp add: sync_infra_def assms(7) bindp_def ret_def infra_now_def ShouldReturn_def requeue_after_def processed_def)
  next
    case (Inr sts)
    let ?r = "on_infra (infra_SetStatus (io_now ops (i', w')) (ir_synchronized r) ConditionTrue '''') (r\<lparr>ir_connectorStatuses := sts\<rparr>)"
    have "sync_infra ops r (i, w) = Some (((processed, None), ?r), i', w')"
      using call by (simp add: Inr sync_infra_def assms(7) bindp_def ret_def infra_now_def infra_succeeded_def)
    moreover obtain out r'' where "check_connected ops ?r (i', w') = Some (((out, None), r''), i', w')"
      "ShouldReturn out None \<longleftrightarrow> (\<exists>st \<in> set (ir_connectorStatuses ?r). \<not> cst_Connected st)"
      using check_connected_complete [of ?r ops "(i', w')"] res by (auto simp: Inr)
    ultimately show ?thesis using ok res by (auto simp: Inr)
  qed
qed

text \<open>A run on a client that knows one router and one broker.\<close>

definition client_api :: "(unit infraClient \<times> unit) infra_ops" where
  "client_api = \<lparr> io_now = (\<lambda>w. 0), io_reader_Get = (\<lambda>k. ret (Inr (sample_infra None ''''))), io_List_projects = ret (Inr []),
     io_Status_Update = (\<lambda>x. ret (None, x)), io_Update = (\<lambda>x. ret (None, x)), io_ReconcileCa = (\<lambda>x. ret (Inr ''ca'')),
     io_ReconcileCert = (\<lambda>x n. ret (Inr ''cert'')), io_ReconcileRouters = (\<lambda>x. ret (Inr [host_r])),
     io_ReconcileBrokers = (\<lambda>x. ret (Inr [host_b])), io_SyncAll = (\<lambda>infra. client_SyncAll in_order (\<lambda>n w. Some (0, w))),
     io_DeleteClient = (\<lambda>x. ret None) \<rparr>"

definition client_run :: infra_run where
  "client_run = \<lparr> ir_infra = sample_infra None '''', ir_ready = None, ir_caCreated = None, ir_certCreated = None,
     ir_brokersCreated = None, ir_routersCreated = None, ir_brokersConnected = None, ir_synchronized = None,
     ir_infraCa = ''ca'', ir_controllerCert = ''cert'', ir_runningRouters = [host_r], ir_routerHosts = [host_r],
     ir_runningBrokers = [host_b], ir_brokerHosts = [host_b], ir_connectorStatuses = [] \<rparr>"

lemma no_pods_synced:
  "sync_infra client_api (client_run\<lparr>ir_runningRouters := [], ir_runningBrokers := []\<rparr>) (bare False [] [] [], ()) =
     Some (((processed, None), on_infra (infra_SetStatus 0 None ConditionTrue '''') (client_run\<lparr>ir_runningRouters := [], ir_runningBrokers := []\<rparr>)),
       (bare True [] [] [])\<lparr>ic_tlsConfig := Some (run_tls client_run)\<rparr>, ())"
  by (simp add: sync_infra_def client_api_def client_run_def client_SyncAll_def run_tls_def infra_succeeded_def infra_now_def
      SyncAll_def sync_nodes_def connect_all_def connect_routers_def updateRouters_def updateBrokers_def
      Infra_SyncAll.or_return_def bindp_def ret_def wanted_hosts_def initialize_def applyRouters_def applyBrokers_def apply_all_def
      syncConfiguration_def initPorts_def Let_def liftO_def syncEntities_def bare_def)

theorem infra_on_client_witness:
  "(\<exists>out err r' i' w'. sync_infra client_api client_run (fake_infra fake_project, ()) = Some (((out, err), r'), i', w') \<and>
     (\<not> ShouldReturn out err \<longrightarrow> gm_keys (ic_routers i') = {host_r} \<and> gm_keys (ic_brokers i') = {host_b})) \<and>
   (\<exists>r' i'. sync_infra client_api (client_run\<lparr>ir_runningRouters := [], ir_runningBrokers := []\<rparr>) (bare False [] [] [], ())
       = Some (((processed, None), r'), i', ()) \<and> synced i' \<and>
     (\<exists>out' r''. check_connected client_api r' (i', ()) = Some (((out', None), r''), i', ()) \<and> \<not> ShouldReturn out' None))"
proof
  have d: "distinct (map Hostname (ir_runningRouters client_run))" "distinct (map Hostname (ir_runningBrokers client_run))"
    "ir_runningRouters client_run = [host_r]" "ir_runningBrokers client_run = [host_b]"
    and call: "\<And>infra. io_SyncAll client_api infra = client_SyncAll in_order (\<lambda>n w. Some (0, w))"
    by (simp_all add: client_run_def client_api_def)
  from infra_on_client [OF fake_infra_hosts [of fake_project] fake_infra_factories [of fake_project]
      fake_infra_resources [of fake_project] zero_rand d(1,2) call, of "()"]
  show "\<exists>out err r' i' w'. sync_infra client_api client_run (fake_infra fake_project, ()) = Some (((out, err), r'), i', w') \<and>
     (\<not> ShouldReturn out err \<longrightarrow> gm_keys (ic_routers i') = {host_r} \<and> gm_keys (ic_brokers i') = {host_b})"
    unfolding d(3,4) by (elim exE conjE) (intro exI conjI impI, assumption, auto)
  let ?r = "client_run\<lparr>ir_runningRouters := [], ir_runningBrokers := []\<rparr>"
  have ok: "resources_ok (bare False [] [] [])" "factories_ok (bare False [] [] [])"
    by (simp_all add: resources_ok_def factories_ok_def bare_def gm_ok_def ack_broker_good ack_router_good)
  have none: "distinct (map Hostname (ir_runningRouters ?r))" "distinct (map Hostname (ir_runningBrokers ?r))"
    "ir_connectorStatuses ?r = []" by (simp_all add: client_run_def)
  from infra_on_client [OF bare_hosts ok(2,1) zero_rand none(1,2) call, of "()"] no_pods_synced none(3)
  show "\<exists>r' i'. sync_infra client_api ?r (bare False [] [] [], ()) = Some (((processed, None), r'), i', ()) \<and> synced i' \<and>
     (\<exists>out' r''. check_connected client_api r' (i', ()) = Some (((out', None), r''), i', ()) \<and> \<not> ShouldReturn out' None)"
    by (auto simp: ShouldReturn_def processed_def)
qed

end
